(* ===== verification/Prelude.thy ===== *)
theory Prelude
  imports Main "HOL-Library.State_Monad" "HOL-Library.Sublist"
begin

text \<open>
  Shared vocabulary of the development.

  Go code that talks to API servers, to kro's runtime or to the clock is modelled in the
  state monad of \<^verbatim>\<open>HOL-Library.State_Monad\<close>: a call is a value of type
  \<open>('s, 'a) state\<close>, where \<open>'s\<close> is the (unknown) state of the world the call acts on, and
  Go's \<^verbatim>\<open>if err != nil { return ... }\<close> is a case distinction on the returned value. This theory
  holds the small program logic the component proofs run on:

    \<^item> \<open>wp m Q s\<close>: running \<open>m\<close> from \<open>s\<close> ends in a result and a state that satisfy \<open>Q\<close>
      (the model is total, so this is total correctness), with simplification rules
      collected in \<open>wp_simps\<close>;
    \<^item> \<open>keeps I m\<close>: \<open>m\<close> preserves the state predicate \<open>I\<close>, with introduction rules collected
      in \<open>keeps_intros\<close>.

  It also holds the generic facts on lists and maps that several components use.
\<close>

named_theorems wp_simps \<open>equations that push a postcondition through a program\<close>
named_theorems keeps_intros \<open>rules for preservation of a state predicate\<close>

section \<open>A program logic for the state monad\<close>

abbreviation ret :: "'a \<Rightarrow> ('s, 'a) state" where
  "ret \<equiv> State_Monad.return"

definition wp :: "('s, 'a) state \<Rightarrow> ('a \<Rightarrow> 's \<Rightarrow> bool) \<Rightarrow> 's \<Rightarrow> bool" where
  "wp m Q s \<longleftrightarrow> (case run_state m s of (a, t) \<Rightarrow> Q a t)"

definition keeps :: "('s \<Rightarrow> bool) \<Rightarrow> ('s, 'a) state \<Rightarrow> bool" where
  "keeps I m \<longleftrightarrow> (\<forall>s. I s \<longrightarrow> wp m (\<lambda>_. I) s)"

subsection \<open>Weakest preconditions\<close>

lemma wp_return [wp_simps, simp]: "wp (ret a) Q s = Q a s"
  by (simp add: wp_def)

lemma wp_bind [wp_simps, simp]: "wp (m \<bind> f) Q s = wp m (\<lambda>a. wp (f a) Q) s"
  by (simp add: wp_def split: prod.splits)

lemma wp_State [wp_simps]: "wp (State f) Q s = (case f s of (a, t) \<Rightarrow> Q a t)"
  by (simp add: wp_def)

lemma wp_run: "run_state m s = (a, t) \<Longrightarrow> wp m Q s \<longleftrightarrow> Q a t"
  by (simp add: wp_def)

lemma wp_mono:
  assumes "wp m Q s" and "\<And>a t. run_state m s = (a, t) \<Longrightarrow> Q a t \<Longrightarrow> Q' a t"
  shows "wp m Q' s"
  using assms by (auto simp: wp_def split: prod.splits)

lemma wp_conj: "wp m Q s \<Longrightarrow> wp m R s \<Longrightarrow> wp m (\<lambda>a t. Q a t \<and> R a t) s"
  by (auto simp: wp_def split: prod.splits)

lemma wpI: "(\<And>a t. run_state m s = (a, t) \<Longrightarrow> Q a t) \<Longrightarrow> wp m Q s"
  by (auto simp: wp_def split: prod.splits)

lemma wpD: "wp m Q s \<Longrightarrow> run_state m s = (a, t) \<Longrightarrow> Q a t"
  by (simp add: wp_def)

subsection \<open>Preserved predicates\<close>

lemma keepsI: "(\<And>s a t. I s \<Longrightarrow> run_state m s = (a, t) \<Longrightarrow> I t) \<Longrightarrow> keeps I m"
  by (auto simp: keeps_def wp_def split: prod.splits)

lemma keepsD: "keeps I m \<Longrightarrow> I s \<Longrightarrow> run_state m s = (a, t) \<Longrightarrow> I t"
  by (auto simp: keeps_def wp_def split: prod.splits)

lemma keeps_return [keeps_intros]: "keeps I (ret a)"
  by (rule keepsI) simp

lemma keeps_bind [keeps_intros]:
  "keeps I m \<Longrightarrow> (\<And>a. keeps I (f a)) \<Longrightarrow> keeps I (m \<bind> f)"
  by (rule keepsI) (auto split: prod.splits dest: keepsD)

lemma keeps_bind_dep:
  assumes "keeps I m" and "\<And>s a t. I s \<Longrightarrow> run_state m s = (a, t) \<Longrightarrow> keeps I (f a)"
  shows "keeps I (m \<bind> f)"
proof (rule keepsI)
  fix s b u
  assume s: "I s" and run: "run_state (m \<bind> f) s = (b, u)"
  obtain a t where m: "run_state m s = (a, t)" by fastforce
  from keepsD [OF assms(1) s m] have "I t" .
  moreover from run m have "run_state (f a) t = (b, u)" by simp
  ultimately show "I u" using keepsD [OF assms(2) [OF s m]] by blast
qed

lemma keeps_if [keeps_intros]:
  "(b \<Longrightarrow> keeps I m) \<Longrightarrow> (\<not> b \<Longrightarrow> keeps I n) \<Longrightarrow> keeps I (if b then m else n)"
  by simp

lemma keeps_case_sum [keeps_intros]:
  "(\<And>e. r = Inl e \<Longrightarrow> keeps I (f e)) \<Longrightarrow> (\<And>a. r = Inr a \<Longrightarrow> keeps I (g a)) \<Longrightarrow>
   keeps I (case r of Inl e \<Rightarrow> f e | Inr a \<Rightarrow> g a)"
  by (cases r) auto

lemma keeps_case_option [keeps_intros]:
  "(r = None \<Longrightarrow> keeps I m) \<Longrightarrow> (\<And>a. r = Some a \<Longrightarrow> keeps I (g a)) \<Longrightarrow>
   keeps I (case r of None \<Rightarrow> m | Some a \<Rightarrow> g a)"
  by (cases r) auto

lemma keeps_case_list [keeps_intros]:
  "(xs = [] \<Longrightarrow> keeps I m) \<Longrightarrow> (\<And>y ys. xs = y # ys \<Longrightarrow> keeps I (g y ys)) \<Longrightarrow>
   keeps I (case xs of [] \<Rightarrow> m | y # ys \<Rightarrow> g y ys)"
  by (cases xs) auto

lemma keeps_case_prod [keeps_intros]:
  "(\<And>a b. p = (a, b) \<Longrightarrow> keeps I (g a b)) \<Longrightarrow> keeps I (case p of (a, b) \<Rightarrow> g a b)"
  by (cases p) auto

lemma keeps_let [keeps_intros]: "keeps I (f x) \<Longrightarrow> keeps I (let y = x in f y)"
  by simp

lemma keeps_True [simp]: "keeps (\<lambda>_. True) m"
  by (rule keepsI) simp

section \<open>Lists and maps\<close>

lemma filter_append_same:
  "filter P xs = [] \<longleftrightarrow> (\<forall>x \<in> set xs. \<not> P x)"
  by (auto simp: filter_empty_conv)

lemma map_le_upd_same: "m \<subseteq>\<^sub>m m'(k \<mapsto> v) \<longleftrightarrow>
  (\<forall>x. x \<in> dom m \<and> x \<noteq> k \<longrightarrow> m x = m' x) \<and> (k \<in> dom m \<longrightarrow> m k = Some v)"
  by (auto simp: map_le_def)

end
