(* ===== verification/GoStrings.thy ===== *)
theory GoStrings
  imports Prelude
begin

text \<open>
  The parts of the Go language and its standard library that the components share: the error
  chain built by \<^verbatim>\<open>fmt.Errorf("...: %w", err)\<close> with \<^verbatim>\<open>errors.Is\<close>, and the string functions of
  packages \<^verbatim>\<open>strings\<close> and \<^verbatim>\<open>strconv\<close> the source calls. A Go string is a byte string, modelled by
  HOL's \<open>string\<close> (a list of 8-bit characters).
\<close>

section \<open>Errors\<close>

text \<open>
  The errors the code can tell apart: kro's sentinel \<^verbatim>\<open>runtime.ErrDataPending\<close>, the context
  package's \<^verbatim>\<open>context.Canceled\<close>, an API server's status error with its reason, and everything
  else. \<open>Wrapped p e\<close> is \<^verbatim>\<open>fmt.Errorf("<p>%w", e)\<close>.
\<close>

datatype reason = ReasonNotFound | ReasonAlreadyExists | ReasonConflict | ReasonOther string

datatype error =
    ErrDataPending
  | ContextCanceled
  | StatusError reason string
  | ErrorString string
  | Wrapped string error

fun error_text :: "error \<Rightarrow> string" where
  "error_text ErrDataPending = ''data pending''"
| "error_text ContextCanceled = ''context canceled''"
| "error_text (StatusError _ m) = m"
| "error_text (ErrorString m) = m"
| "error_text (Wrapped p e) = p @ error_text e"

fun errors_Is :: "error \<Rightarrow> error \<Rightarrow> bool" where
  "errors_Is (Wrapped p e) t = (Wrapped p e = t \<or> errors_Is e t)"
| "errors_Is e t = (e = t)"

fun IsNotFound :: "error \<Rightarrow> bool" where
  "IsNotFound (StatusError r _) = (r = ReasonNotFound)"
| "IsNotFound (Wrapped _ e) = IsNotFound e"
| "IsNotFound _ = False"

section \<open>Quoting (strconv.Quote on ASCII)\<close>

definition hex_digit :: "nat \<Rightarrow> char" where
  "hex_digit n = ''0123456789abcdef'' ! (n mod 16)"

definition quote_char :: "char \<Rightarrow> string" where
  "quote_char c =
     (if c = CHR 0x22 then [CHR 0x5C, CHR 0x22]
      else if c = CHR 0x5C then [CHR 0x5C, CHR 0x5C]
      else if c = CHR 0x07 then CHR 0x5C # ''a''
      else if c = CHR 0x08 then CHR 0x5C # ''b''
      else if c = CHR 0x0C then CHR 0x5C # ''f''
      else if c = CHR 0x0A then CHR 0x5C # ''n''
      else if c = CHR 0x0D then CHR 0x5C # ''r''
      else if c = CHR 0x09 then CHR 0x5C # ''t''
      else if c = CHR 0x0B then CHR 0x5C # ''v''
      else if of_char c < (32::nat) \<or> of_char c = (127::nat)
        then CHR 0x5C # ''x'' @ [hex_digit (of_char c div 16), hex_digit (of_char c)]
      else [c])"

definition go_quote :: "string \<Rightarrow> string" where
  "go_quote s = CHR 0x22 # concat (map quote_char s) @ [CHR 0x22]"

section \<open>Splitting, joining and trimming\<close>

text \<open>\<^verbatim>\<open>strings.Split(s, sep)\<close> (and \<^verbatim>\<open>SplitSeq\<close>) for a one-byte separator: always at least one part.\<close>

fun go_split :: "char \<Rightarrow> string \<Rightarrow> string list" where
  "go_split c [] = [[]]"
| "go_split c (x # xs) =
     (if x = c then [] # go_split c xs
      else case go_split c xs of [] \<Rightarrow> [[x]] | y # ys \<Rightarrow> (x # y) # ys)"

text \<open>\<^verbatim>\<open>strings.SplitN(s, sep, n)\<close>: at most \<open>n\<close> parts, the last one unsplit.\<close>

fun go_splitn :: "char \<Rightarrow> nat \<Rightarrow> string \<Rightarrow> string list" where
  "go_splitn c 0 s = []"
| "go_splitn c (Suc 0) s = [s]"
| "go_splitn c (Suc (Suc n)) s =
     (case dropWhile (\<lambda>x. x \<noteq> c) s of
        [] \<Rightarrow> [s]
      | _ # rest \<Rightarrow> takeWhile (\<lambda>x. x \<noteq> c) s # go_splitn c (Suc n) rest)"

fun go_join :: "string \<Rightarrow> string list \<Rightarrow> string" where
  "go_join sep [] = ''''"
| "go_join sep [s] = s"
| "go_join sep (s # t # ts) = s @ sep @ go_join sep (t # ts)"

text \<open>
  \<^verbatim>\<open>strings.TrimSpace\<close> removes Unicode white space: the six ASCII characters and the UTF-8
  encodings of the other runes with property White_Space.
\<close>

definition space_runes :: "string list" where
  "space_runes =
     [[CHR 0x09], [CHR 0x0A], [CHR 0x0B], [CHR 0x0C], [CHR 0x0D], [CHR 0x20],
      [CHR 0xC2, CHR 0x85], [CHR 0xC2, CHR 0xA0], [CHR 0xE1, CHR 0x9A, CHR 0x80],
      [CHR 0xE2, CHR 0x80, CHR 0x80], [CHR 0xE2, CHR 0x80, CHR 0x81],
      [CHR 0xE2, CHR 0x80, CHR 0x82], [CHR 0xE2, CHR 0x80, CHR 0x83],
      [CHR 0xE2, CHR 0x80, CHR 0x84], [CHR 0xE2, CHR 0x80, CHR 0x85],
      [CHR 0xE2, CHR 0x80, CHR 0x86], [CHR 0xE2, CHR 0x80, CHR 0x87],
      [CHR 0xE2, CHR 0x80, CHR 0x88], [CHR 0xE2, CHR 0x80, CHR 0x89],
      [CHR 0xE2, CHR 0x80, CHR 0x8A], [CHR 0xE2, CHR 0x80, CHR 0xA8],
      [CHR 0xE2, CHR 0x80, CHR 0xA9], [CHR 0xE2, CHR 0x80, CHR 0xAF],
      [CHR 0xE2, CHR 0x81, CHR 0x9F], [CHR 0xE3, CHR 0x80, CHR 0x80]]"

text \<open>Drop leading strings of \<open>ps\<close> as long as one is a prefix; empty strings are ignored.\<close>

function drop_prefixes :: "string list \<Rightarrow> string \<Rightarrow> string" where
  "drop_prefixes ps s =
     (case find (\<lambda>p. p \<noteq> [] \<and> prefix p s) ps of
        None \<Rightarrow> s
      | Some p \<Rightarrow> drop_prefixes ps (drop (length p) s))"
  by pat_completeness auto
termination
  by (relation "measure (\<lambda>(ps, s). length s)")
    (auto simp: find_Some_iff prefix_def)

declare drop_prefixes.simps [simp del]

definition TrimSpace :: "string \<Rightarrow> string" where
  "TrimSpace s =
     rev (drop_prefixes (map rev space_runes) (rev (drop_prefixes space_runes s)))"

text \<open>\<^verbatim>\<open>strings.TrimRight(s, cutset)\<close> for an ASCII cutset.\<close>

definition TrimRight :: "string \<Rightarrow> string \<Rightarrow> string" where
  "TrimRight s cutset = rev (dropWhile (\<lambda>c. c \<in> set cutset) (rev s))"

text \<open>\<^verbatim>\<open>strings.Cut\<close>: the text before and after the first occurrence of the separator.\<close>

fun go_cut :: "string \<Rightarrow> string \<Rightarrow> (string \<times> string) option" where
  "go_cut sep s =
     (if prefix sep s then Some ([], drop (length sep) s)
      else case s of
             [] \<Rightarrow> None
           | x # xs \<Rightarrow> map_option (\<lambda>(a, b). (x # a, b)) (go_cut sep xs))"

declare go_cut.simps [simp del]

definition strings_Contains :: "string \<Rightarrow> string \<Rightarrow> bool" where
  "strings_Contains s sub = sublist sub s"

definition TrimSuffix :: "string \<Rightarrow> string \<Rightarrow> string" where
  "TrimSuffix s suf = (if suffix suf s then take (length s - length suf) s else s)"

subsection \<open>Facts about them\<close>

lemma go_split_not_Nil [simp]: "go_split c s \<noteq> []"
  by (induction s) (auto split: list.splits)

lemma go_split_no_sep [simp]: "c \<notin> set s \<Longrightarrow> go_split c s = [s]"
  by (induction s) auto

lemma go_split_sep: "c \<notin> set s \<Longrightarrow> go_split c (s @ c # t) = s # go_split c t"
  by (induction s) auto

lemma go_split_join:
  assumes "ts \<noteq> []" and "\<And>t. t \<in> set ts \<Longrightarrow> c \<notin> set t"
  shows "go_split c (go_join [c] ts) = ts"
  using assms by (induction "[c]" ts rule: go_join.induct) (auto simp: go_split_sep)

lemma go_splitn_three:
  assumes "c \<notin> set x" and "c \<notin> set y"
  shows "go_splitn c 3 (x @ c # y @ c # z) = [x, y, z]"
proof -
  have n: "(3::nat) = Suc (Suc (Suc 0))" by simp
  from assms show ?thesis
    unfolding n by (simp add: dropWhile_append takeWhile_append split: if_splits)
qed

lemma drop_prefixes_id:
  "(\<And>p. p \<in> set ps \<Longrightarrow> p \<noteq> [] \<Longrightarrow> \<not> prefix p s) \<Longrightarrow> drop_prefixes ps s = s"
  by (subst drop_prefixes.simps) (auto simp: find_Some_iff split: option.splits)

text \<open>Printable ASCII other than the blank: what every Kubernetes group, version and kind is made of.\<close>

definition printable :: "char \<Rightarrow> bool" where
  "printable c \<longleftrightarrow> (33::nat) \<le> of_char c \<and> of_char c \<le> (126::nat)"

lemma space_runes_not_printable:
  "list_all (\<lambda>p. \<not> printable (hd p) \<and> \<not> printable (last p) \<and> p \<noteq> []) space_runes"
  by (simp add: space_runes_def printable_def)

lemma TrimSpace_printable:
  assumes "\<And>c. c \<in> set s \<Longrightarrow> printable c"
  shows "TrimSpace s = s"
proof -
  have sp: "p \<noteq> [] \<and> \<not> printable (hd p) \<and> \<not> printable (last p)" if "p \<in> set space_runes" for p
    using space_runes_not_printable that by (auto simp: list_all_iff)
  have "\<not> prefix p s" if "p \<in> set space_runes" for p
    using sp [OF that] assms by (auto simp: prefix_def neq_Nil_conv)
  then have left: "drop_prefixes space_runes s = s"
    by (intro drop_prefixes_id) auto
  have "\<not> prefix (rev p) (rev s)" if "p \<in> set space_runes" for p
    using sp [OF that] assms
    by (auto simp: suffix_def simp flip: suffix_to_prefix)
  then have "drop_prefixes (map rev space_runes) (rev s) = rev s"
    by (intro drop_prefixes_id) auto
  with left show ?thesis by (simp add: TrimSpace_def)
qed

lemma go_cut_Some:
  "go_cut sep s = Some (a, b) \<Longrightarrow> s = a @ sep @ b"
  by (induction sep s arbitrary: a b rule: go_cut.induct)
    (subst (asm) (2) go_cut.simps, auto simp: prefix_def split: if_splits list.splits)

lemma go_cut_None_iff: "go_cut sep s = None \<longleftrightarrow> \<not> sublist sep s"
proof (induction s)
  case Nil
  then show ?case by (subst go_cut.simps) auto
next
  case (Cons x xs)
  then show ?case
    by (subst go_cut.simps) (auto simp: sublist_Cons_right)
qed

text \<open>A separator that does not occur in the first part determines where the parts meet.\<close>

lemma append_sep_inject:
  assumes "c \<notin> set a" and "c \<notin> set a'"
  shows "a @ c # b = a' @ c # b' \<longleftrightarrow> a = a' \<and> b = b'"
proof
  assume eq: "a @ c # b = a' @ c # b'"
  have "takeWhile (\<lambda>x. x \<noteq> c) (a @ c # b) = a" "takeWhile (\<lambda>x. x \<noteq> c) (a' @ c # b') = a'"
    using assms by (auto simp: takeWhile_append)
  with eq show "a = a' \<and> b = b'" by simp
qed simp

end
