(* ===== verification/Routing.thy ===== *)
theory Routing
  imports GoStrings
begin

text \<open>
  Routing of blueprint resources to target planes: \<^verbatim>\<open>src/internal/engine/route.go\<close> (the target
  names, their validation and the lookup for a node) and \<^verbatim>\<open>src/api/v1alpha1/routing.go\<close> (the
  blueprint spec with its per-resource target field and the conversion that strips it).
\<close>

section \<open>Targets\<close>

datatype target = TargetConsumer | TargetProvider | TargetHost

fun target_string :: "target \<Rightarrow> string" where
  "target_string TargetConsumer = ''consumer''"
| "target_string TargetProvider = ''provider''"
| "target_string TargetHost = ''host''"

text \<open>The value set of the map \<^verbatim>\<open>allTargets\<close>: looking a string up in it.\<close>

definition allTargets :: "string \<rightharpoonup> target" where
  "allTargets =
     [target_string TargetConsumer \<mapsto> TargetConsumer,
      target_string TargetProvider \<mapsto> TargetProvider,
      target_string TargetHost \<mapsto> TargetHost]"

definition ParseTarget :: "string \<Rightarrow> error + target" where
  "ParseTarget s =
     (if s = '''' then Inr TargetConsumer
      else case allTargets s of
             None \<Rightarrow> Inl (ErrorString (''invalid target '' @ go_quote s @ '' (want '' @
               go_quote (target_string TargetConsumer) @ '', '' @
               go_quote (target_string TargetProvider) @ '' or '' @
               go_quote (target_string TargetHost) @ '')''))
           | Some t \<Rightarrow> Inr t)"

definition TargetForNode :: "string \<Rightarrow> (string \<rightharpoonup> target) \<Rightarrow> target" where
  "TargetForNode i routing = (case routing i of Some t \<Rightarrow> t | None \<Rightarrow> TargetConsumer)"

section \<open>The blueprint spec\<close>

text \<open>
  \<open>'k\<close> stands for the fields of kro's resource other than its id (template, externalRef,
  readyWhen, includeWhen, forEach) and \<open>'c\<close> for kro's schema: both are types of the kro
  package, which the conversion copies without looking into them. A slice element of type
  \<^verbatim>\<open>*Resource\<close> may be nil, hence the option.
\<close>

record 'k kro_resource =
  kr_id :: string
  kr_fields :: 'k

record 'k resource =
  res_kro :: "'k kro_resource"
  res_target :: string

record ('c, 'k) rgd_spec =
  spec_schema :: "'c option"
  spec_resources :: "'k resource option list"

record ('c, 'k) kro_spec =
  ks_schema :: "'c option"
  ks_resources :: "'k kro_resource list"

fun to_kro_loop :: "'k resource option list \<Rightarrow> 'k kro_resource list \<Rightarrow> (string \<rightharpoonup> string) \<Rightarrow>
    'k kro_resource list \<times> (string \<rightharpoonup> string)" where
  "to_kro_loop [] res routing = (res, routing)"
| "to_kro_loop (None # rs) res routing = to_kro_loop rs res routing"
| "to_kro_loop (Some r # rs) res routing =
     to_kro_loop rs (res @ [res_kro r])
       (if res_target r \<noteq> '''' then routing(kr_id (res_kro r) \<mapsto> res_target r) else routing)"

definition ToKro :: "('c, 'k) rgd_spec \<Rightarrow> ('c, 'k) kro_spec \<times> (string \<rightharpoonup> string)" where
  "ToKro s =
     (case to_kro_loop (spec_resources s) [] Map.empty of
        (res, routing) \<Rightarrow> (\<lparr>ks_schema = spec_schema s, ks_resources = res\<rparr>, routing))"

section \<open>Properties\<close>

lemma allTargets_target_string [simp]: "allTargets (target_string t) = Some t"
  by (cases t) (simp_all add: allTargets_def)

lemma allTargets_SomeD: "allTargets s = Some t \<Longrightarrow> s = target_string t"
  by (auto simp: allTargets_def split: if_splits)

lemma target_string_not_empty [simp]: "target_string t \<noteq> ''''" "[] \<noteq> target_string t"
  by (cases t; simp)+

text \<open>
  Target validation accepts exactly the three documented names and the empty string: the
  empty string is the consumer plane, every target parses back from its own name, and any other
  string is an error.
\<close>

lemma ParseTarget_spec:
  "ParseTarget s = Inr t \<longleftrightarrow> s = target_string t \<or> (s = '''' \<and> t = TargetConsumer)"
  by (auto simp: ParseTarget_def dest: allTargets_SomeD split: option.splits)

lemma to_kro_loop_resources:
  "fst (to_kro_loop rs res routing) = res @ map res_kro (map the (filter (\<lambda>r. r \<noteq> None) rs))"
  by (induction rs res routing rule: to_kro_loop.induct) auto

text \<open>The targets a blueprint names for a resource id, in order.\<close>

definition named_targets :: "'k resource option list \<Rightarrow> string \<Rightarrow> string list" where
  "named_targets rs i = concat (map (\<lambda>r. case r of None \<Rightarrow> []
     | Some x \<Rightarrow> if kr_id (res_kro x) = i \<and> res_target x \<noteq> '''' then [res_target x] else []) rs)"

lemma named_targets_simps [simp]:
  "named_targets [] i = []"
  "named_targets (None # rs) i = named_targets rs i"
  "named_targets (Some x # rs) i =
     (if kr_id (res_kro x) = i \<and> res_target x \<noteq> '''' then res_target x # named_targets rs i else named_targets rs i)"
  by (simp_all add: named_targets_def)

lemma to_kro_loop_routing:
  "snd (to_kro_loop rs res m) i = (if named_targets rs i = [] then m i else Some (last (named_targets rs i)))"
  by (induction rs res m rule: to_kro_loop.induct) auto

text \<open>
  C36. Converting a blueprint to kro's type loses nothing and routes every resource: the schema and all resources that are not
  nil are kept in order without their targets, and the effective target of a resource id, once parsed
  as the registrar does, is the last target the blueprint names for it, the consumer plane if it
  names none.
\<close>

theorem ToKro_routes:
  assumes "ToKro spec = (ks, raw)"
    and "\<forall>i. routing i = (case raw i of None \<Rightarrow> None | Some t \<Rightarrow> (case ParseTarget t of Inl _ \<Rightarrow> None | Inr tg \<Rightarrow> Some tg))"
  shows "ks_schema ks = spec_schema spec \<and>
    ks_resources ks = map res_kro (map the (filter (\<lambda>r. r \<noteq> None) (spec_resources spec))) \<and>
    TargetForNode i routing =
      (case ParseTarget (if named_targets (spec_resources spec) i = [] then '''' else last (named_targets (spec_resources spec) i)) of
         Inr tg \<Rightarrow> tg | Inl _ \<Rightarrow> TargetConsumer)"
proof -
  obtain res m where loop: "to_kro_loop (spec_resources spec) [] Map.empty = (res, m)" by fastforce
  with assms(1) have ks: "ks = \<lparr>ks_schema = spec_schema spec, ks_resources = res\<rparr>" "raw = m" by (simp_all add: ToKro_def)
  have "res = map res_kro (map the (filter (\<lambda>r. r \<noteq> None) (spec_resources spec)))"
    using to_kro_loop_resources [of "spec_resources spec" "[]" Map.empty] loop by simp
  moreover have "m i = (if named_targets (spec_resources spec) i = [] then None else Some (last (named_targets (spec_resources spec) i)))"
    using to_kro_loop_routing [of "spec_resources spec" "[]" Map.empty i] loop by simp
  moreover have "ParseTarget '''' = Inr TargetConsumer" by (simp add: ParseTarget_def)
  ultimately show ?thesis
    using ks assms(2) by (auto simp: TargetForNode_def split: option.splits sum.splits)
qed

theorem ToKro_routes_witness:
  "TargetForNode ''db'' [''db'' \<mapsto> TargetHost] =
    (case ParseTarget (last (named_targets [Some \<lparr>res_kro = \<lparr>kr_id = ''db'', kr_fields = ()\<rparr>, res_target = ''provider''\<rparr>, None,
       Some \<lparr>res_kro = \<lparr>kr_id = ''db'', kr_fields = ()\<rparr>, res_target = ''host''\<rparr>] ''db'')) of Inr tg \<Rightarrow> tg | Inl _ \<Rightarrow> TargetConsumer)"
proof -
  let ?spec = "\<lparr>spec_schema = None, spec_resources = [Some \<lparr>res_kro = \<lparr>kr_id = ''db'', kr_fields = ()\<rparr>, res_target = ''provider''\<rparr>, None,
       Some \<lparr>res_kro = \<lparr>kr_id = ''db'', kr_fields = ()\<rparr>, res_target = ''host''\<rparr>]\<rparr> :: (unit, unit) rgd_spec"
  have "ToKro ?spec = (fst (ToKro ?spec), [''db'' \<mapsto> ''host''])" by (simp add: ToKro_def)
  from ToKro_routes [OF this, of "[''db'' \<mapsto> TargetHost]" "''db''"] show ?thesis
    by (simp add: ParseTarget_def allTargets_def)
qed

end
