(* ===== verification/GoTime.thy ===== *)
theory GoTime
  imports GoStrings
begin

text \<open>
  The parts of Go's package \<^verbatim>\<open>time\<close> that the liveness records rest on: \<^verbatim>\<open>Time.UTC().Format(time.RFC3339)\<close>,
  \<^verbatim>\<open>time.Parse(time.RFC3339, s)\<close>, \<^verbatim>\<open>Time.Sub\<close> and \<^verbatim>\<open>Time.IsZero\<close>. An instant is the number of
  nanoseconds since January 1 of year 1, 00:00:00 UTC, Go's zero time. Parsing follows the RFC 3339
  grammar (with an optional fraction and a numeric zone offset); the few lenient spellings Go also
  takes (a one-digit hour, a comma before the fraction) are rejected by the model.
\<close>

type_synonym time = int
type_synonym duration = int

definition Second :: duration where
  "Second = 1000000000"

definition Minute :: duration where
  "Minute = 60 * Second"

definition IsZero :: "time \<Rightarrow> bool" where
  "IsZero t \<longleftrightarrow> t = 0"

text \<open>\<^verbatim>\<open>Time.Sub\<close> saturates at the largest and smallest 64-bit durations.\<close>

definition time_Sub :: "time \<Rightarrow> time \<Rightarrow> duration" where
  "time_Sub t u = max (- (2 ^ 63)) (min (2 ^ 63 - 1) (t - u))"

section \<open>The civil calendar\<close>

definition is_leap :: "int \<Rightarrow> bool" where
  "is_leap y \<longleftrightarrow> y mod 4 = 0 \<and> (y mod 100 \<noteq> 0 \<or> y mod 400 = 0)"

definition days_before_year :: "int \<Rightarrow> int" where
  "days_before_year y = 365 * (y - 1) + (y - 1) div 4 - (y - 1) div 100 + (y - 1) div 400"

definition month_lengths :: "int \<Rightarrow> int list" where
  "month_lengths y = [31, if is_leap y then 29 else 28, 31, 30, 31, 30, 31, 31, 30, 31, 30, 31]"

lemma div_plus_one:
  assumes "0 < (k :: int)"
  shows "(x + 1) div k = x div k + (if (x + 1) mod k = 0 then 1 else 0)"
proof -
  define q r where "q = x div k" and "r = x mod k"
  have x: "x = k * q + r" and r: "0 \<le> r" "r < k" using assms by (auto simp: q_def r_def)
  show ?thesis
  proof (cases "r + 1 = k")
    case True
    with x have e: "x + 1 = k * (q + 1)" by (simp add: algebra_simps)
    have "(x + 1) div k = q + 1" and "(x + 1) mod k = 0" unfolding e using assms by simp_all
    then show ?thesis by (simp add: q_def)
  next
    case False
    then have "(x + 1) div k = q" and "(x + 1) mod k = r + 1"
      using x r by (auto intro: int_div_pos_eq [of _ _ _ "r + 1"] int_mod_pos_eq [of _ _ q])
    then show ?thesis using r by (simp add: q_def)
  qed
qed

lemma days_before_year_Suc:
  "days_before_year (y + 1) = days_before_year y + (if is_leap y then 366 else 365)"
proof -
  have dvd: "y mod 100 = 0 \<Longrightarrow> y mod 4 = 0" "y mod 400 = 0 \<Longrightarrow> y mod 100 = 0"
    by (auto simp: mod_eq_0_iff_dvd elim: dvd_trans [rotated])
  obtain a b c where abc: "(y - 1) div 4 = a" "(y - 1) div 100 = b" "(y - 1) div 400 = c" by simp
  have up: "y div 4 = a + (if y mod 4 = 0 then 1 else 0)"
    "y div 100 = b + (if y mod 100 = 0 then 1 else 0)"
    "y div 400 = c + (if y mod 400 = 0 then 1 else 0)"
    using div_plus_one [of 4 "y - 1"] div_plus_one [of 100 "y - 1"] div_plus_one [of 400 "y - 1"]
    by (simp_all only: abc diff_add_cancel zero_less_numeral)
  obtain p q r where pqr: "(y mod 4 = 0) = p" "(y mod 100 = 0) = q" "(y mod 400 = 0) = r" by simp
  show ?thesis
    unfolding days_before_year_def is_leap_def add_diff_cancel_right' abc up
    using dvd unfolding pqr by (cases p; cases q; cases r) (simp_all add: algebra_simps)
qed

lemma sum_month_lengths: "sum_list (month_lengths y) = (if is_leap y then 366 else 365)"
  by (simp add: month_lengths_def)

function find_year :: "int \<Rightarrow> int \<Rightarrow> int" where
  "find_year d y = (if d < days_before_year (y + 1) then y else find_year d (y + 1))"
  by pat_completeness auto
termination
  by (relation "measure (\<lambda>(d, y). nat (d - days_before_year (y + 1) + 1))")
    (auto simp: days_before_year_Suc)

declare find_year.simps [simp del]

definition year_of_day :: "int \<Rightarrow> int" where
  "year_of_day d = find_year d (d div 366 + 1)"

fun month_day :: "int list \<Rightarrow> int \<Rightarrow> int \<Rightarrow> int \<times> int" where
  "month_day [] m d = (m, d + 1)"
| "month_day (l # ls) m d = (if d < l then (m, d + 1) else month_day ls (m + 1) (d - l))"

definition civil_of_day :: "int \<Rightarrow> int \<times> int \<times> int" where
  "civil_of_day d = (let y = year_of_day d in (y, month_day (month_lengths y) 1 (d - days_before_year y)))"

definition day_of_civil :: "int \<Rightarrow> int \<Rightarrow> int \<Rightarrow> int" where
  "day_of_civil y m d =
     days_before_year y + sum_list (take (nat (m - 1)) (month_lengths y)) + d - 1"

section \<open>Formatting\<close>

definition digit :: "int \<Rightarrow> char" where
  "digit n = char_of (48 + n mod 10)"

definition two :: "int \<Rightarrow> string" where
  "two n = [digit (n div 10), digit n]"

fun decimal :: "nat \<Rightarrow> string" where
  "decimal n = (if n < 10 then [digit (int n)] else decimal (n div 10) @ [digit (int (n mod 10))])"

declare decimal.simps [simp del]

definition four :: "int \<Rightarrow> string" where
  "four n = (if n < 10000 then [digit (n div 1000), digit (n div 100), digit (n div 10), digit n]
             else decimal (nat n))"

definition format_RFC3339 :: "time \<Rightarrow> string" where
  "format_RFC3339 t =
     (let secs = t div Second; sod = secs mod 86400 in
      case civil_of_day (secs div 86400) of (y, m, d) \<Rightarrow>
        four y @ ''-'' @ two m @ ''-'' @ two d @ ''T'' @
        two (sod div 3600) @ '':'' @ two (sod div 60 mod 60) @ '':'' @ two (sod mod 60) @ ''Z'')"

section \<open>Parsing\<close>

definition parse_digit :: "char \<Rightarrow> int option" where
  "parse_digit c = (let n = of_char c in if 48 \<le> n \<and> n \<le> 57 then Some (n - 48) else None)"

fun parse_uint :: "string \<Rightarrow> int \<Rightarrow> int option" where
  "parse_uint [] acc = Some acc"
| "parse_uint (c # cs) acc =
     (case parse_digit c of None \<Rightarrow> None | Some d \<Rightarrow> parse_uint cs (10 * acc + d))"

definition field :: "string \<Rightarrow> nat \<Rightarrow> nat \<Rightarrow> int option" where
  "field s i k = parse_uint (take k (drop i s)) 0"

text \<open>Nanoseconds of a fraction: the first nine digits, padded with zeros on the right.\<close>

definition parse_fraction :: "string \<Rightarrow> int \<times> string" where
  "parse_fraction s =
     (case s of
        c # more \<Rightarrow>
          (let ds = takeWhile (\<lambda>c. parse_digit c \<noteq> None) more in
           if c = CHR ''.'' \<and> ds \<noteq> []
           then (the (parse_uint (take 9 (ds @ replicate 9 CHR ''0'')) 0), drop (length ds) more)
           else (0, s))
      | [] \<Rightarrow> (0, s))"

text \<open>The zone offset in seconds.\<close>

definition parse_zone :: "string \<Rightarrow> int option" where
  "parse_zone s =
     (if s = ''Z'' then Some 0
      else if length s = 6 \<and> (s ! 0 = CHR ''+'' \<or> s ! 0 = CHR ''-'') \<and> s ! 3 = CHR '':'' then
        (case (field s 1 2, field s 4 2) of
           (Some h, Some mi) \<Rightarrow>
             if h \<le> 23 \<and> mi \<le> 59
             then Some ((if s ! 0 = CHR ''-'' then -1 else 1) * (h * 3600 + mi * 60)) else None
         | _ \<Rightarrow> None)
      else None)"

definition parse_error :: "string \<Rightarrow> error" where
  "parse_error s = ErrorString (''parsing time '' @ go_quote s)"

definition parse_RFC3339 :: "string \<Rightarrow> error + time" where
  "parse_RFC3339 s =
     (if length s < 19 \<or> s ! 4 \<noteq> CHR ''-'' \<or> s ! 7 \<noteq> CHR ''-'' \<or> s ! 10 \<noteq> CHR ''T'' \<or>
         s ! 13 \<noteq> CHR '':'' \<or> s ! 16 \<noteq> CHR '':''
      then Inl (parse_error s)
      else case (field s 0 4, field s 5 2, field s 8 2, field s 11 2, field s 14 2, field s 17 2) of
        (Some y, Some m, Some d, Some h, Some mi, Some sec) \<Rightarrow>
          if m < 1 \<or> 12 < m \<or> d < 1 \<or> month_lengths y ! nat (m - 1) < d \<or>
             24 \<le> h \<or> 60 \<le> mi \<or> 60 \<le> sec
          then Inl (parse_error s)
          else (case parse_fraction (drop 19 s) of (ns, zone) \<Rightarrow>
            (case parse_zone zone of
               None \<Rightarrow> Inl (parse_error s)
             | Some off \<Rightarrow>
                 Inr ((day_of_civil y m d * 86400 + h * 3600 + mi * 60 + sec - off) * Second + ns)))
      | _ \<Rightarrow> Inl (parse_error s))"

section \<open>Facts\<close>

subsection \<open>The calendar\<close>

lemma find_year_spec:
  "days_before_year y \<le> d \<Longrightarrow>
   days_before_year (find_year d y) \<le> d \<and> d < days_before_year (find_year d y + 1) \<and> y \<le> find_year d y"
proof (induction d y rule: find_year.induct)
  case (1 d y)
  then show ?case by (cases "d < days_before_year (y + 1)") (auto simp: find_year.simps [of d y])
qed

lemma days_before_year_le:
  assumes "1 \<le> y"
  shows "days_before_year y \<le> 366 * (y - 1)"
proof -
  define x where "x = y - 1"
  define a b c where "a = x div 4" and "b = x div 100" and "c = x div 400"
  have "a \<le> x" and "c \<le> b" using assms by (auto simp: a_def b_def c_def x_def)
  then have "365 * x + a - b + c \<le> 366 * x" by linarith
  then show ?thesis by (simp add: days_before_year_def a_def b_def c_def x_def)
qed

lemma year_of_day_spec:
  assumes "0 \<le> d"
  shows "days_before_year (year_of_day d) \<le> d" "d < days_before_year (year_of_day d + 1)"
    "1 \<le> year_of_day d"
proof -
  have "days_before_year (d div 366 + 1) \<le> 366 * (d div 366)"
    using days_before_year_le [of "d div 366 + 1"] assms by auto
  also have "\<dots> \<le> d" by simp
  finally have "days_before_year (d div 366 + 1) \<le> d" .
  from find_year_spec [OF this] assms
  show "days_before_year (year_of_day d) \<le> d" "d < days_before_year (year_of_day d + 1)"
    "1 \<le> year_of_day d"
    by (auto simp: year_of_day_def)
qed

lemma month_day_spec:
  assumes "0 \<le> d" and "d < sum_list ls" and "\<forall>l \<in> set ls. 0 < l"
    and "month_day ls m d = (m', d')"
  shows "m \<le> m' \<and> m' < m + int (length ls) \<and> 1 \<le> d' \<and> d' \<le> ls ! nat (m' - m) \<and>
    sum_list (take (nat (m' - m)) ls) + d' - 1 = d"
  using assms
proof (induction ls m d rule: month_day.induct)
  case (1 m d)
  then show ?case by simp
next
  case (2 l ls m d)
  show ?case
  proof (cases "d < l")
    case True
    with 2 show ?thesis by auto
  next
    case False
    with 2 have IH: "m + 1 \<le> m' \<and> m' < m + 1 + int (length ls) \<and> 1 \<le> d' \<and>
        d' \<le> ls ! nat (m' - (m + 1)) \<and> sum_list (take (nat (m' - (m + 1))) ls) + d' - 1 = d - l"
      by simp
    then have "nat (m' - m) = Suc (nat (m' - (m + 1)))" by auto
    with IH show ?thesis by auto
  qed
qed

lemma civil_of_day_spec:
  assumes "0 \<le> D" and "civil_of_day D = (y, m, d)"
  shows "y = year_of_day D \<and> 1 \<le> m \<and> m \<le> 12 \<and> 1 \<le> d \<and> d \<le> month_lengths y ! nat (m - 1) \<and>
    day_of_civil y m d = D"
proof -
  from assms(2) have y: "y = year_of_day D"
    and md: "month_day (month_lengths y) 1 (D - days_before_year y) = (m, d)"
    by (auto simp: civil_of_day_def Let_def)
  note ys = year_of_day_spec [OF assms(1), folded y]
  have "\<forall>l \<in> set (month_lengths y). 0 < l" by (auto simp: month_lengths_def)
  moreover have "D - days_before_year y < sum_list (month_lengths y)"
    using ys by (simp add: days_before_year_Suc sum_month_lengths)
  ultimately show ?thesis
    using month_day_spec [OF _ _ _ md] ys y by (auto simp: day_of_civil_def month_lengths_def)
qed

lemma month_length_le: "0 \<le> i \<Longrightarrow> i < 12 \<Longrightarrow> month_lengths y ! nat i \<le> 31"
proof -
  assume "0 \<le> i" "i < 12"
  then have "month_lengths y ! nat i \<in> set (month_lengths y)"
    by (intro nth_mem) (simp add: month_lengths_def)
  then show ?thesis by (auto simp: month_lengths_def split: if_splits)
qed

subsection \<open>Digits\<close>

lemma parse_digit_digit [simp]: "parse_digit (digit n) = Some (n mod 10)"
  by (simp add: parse_digit_def digit_def Let_def)

lemma two_digits:
  assumes "0 \<le> n" and "n < (100 :: int)"
  shows "10 * (n div 10 mod 10) + n mod 10 = n"
proof -
  have "n div 10 mod 10 = n div 10" using assms by (intro mod_pos_pos_trivial) auto
  then show ?thesis by simp
qed

lemma div_100_1000: "(n :: int) div 100 = n div 10 div 10" "n div 1000 = n div 10 div 10 div 10"
  using zdiv_zmult2_eq [of 10 n 10] zdiv_zmult2_eq [of 10 n 100] zdiv_zmult2_eq [of 10 "n div 10" 10]
  by simp_all

lemma four_digits:
  assumes "0 \<le> n" and "n < (10000 :: int)"
  shows "10 * (10 * (10 * (n div 1000 mod 10) + n div 100 mod 10) + n div 10 mod 10) + n mod 10 = n"
proof -
  have top: "n div 1000 mod 10 = n div 1000" using assms by (intro mod_pos_pos_trivial) auto
  define a b c where "a = n div 10" and "b = a div 10" and "c = b div 10"
  have "10 * c + b mod 10 = b" "10 * b + a mod 10 = a" "10 * a + n mod 10 = n"
    by (simp_all add: a_def b_def c_def)
  then have "10 * (10 * (10 * c + b mod 10) + a mod 10) + n mod 10 = n" by simp
  with top show ?thesis by (simp add: div_100_1000 a_def b_def c_def)
qed

lemma time_of_day_split:
  "(sod :: int) div 3600 * 3600 + sod div 60 mod 60 * 60 + sod mod 60 = sod"
proof -
  define q where "q = sod div 60"
  have "sod div 3600 = q div 60" using zdiv_zmult2_eq [of 60 sod 60] by (simp add: q_def)
  moreover have "q = q div 60 * 60 + q mod 60" and "sod = q * 60 + sod mod 60"
    by (simp_all add: q_def)
  ultimately show ?thesis unfolding q_def by linarith
qed

lemma length_two [simp]: "length (two n) = 2"
  by (simp add: two_def)

lemma length_four [simp]: "n < 10000 \<Longrightarrow> length (four n) = 4"
  by (simp add: four_def)

lemma parse_two [simp]: "0 \<le> n \<Longrightarrow> n < 100 \<Longrightarrow> parse_uint (two n) 0 = Some n"
  using two_digits [of n]
  by (simp only: two_def parse_uint.simps parse_digit_digit option.case mult_zero_right add_0)

lemma parse_four [simp]: "0 \<le> n \<Longrightarrow> n < 10000 \<Longrightarrow> parse_uint (four n) 0 = Some n"
  using four_digits [of n]
  by (simp only: four_def if_True parse_uint.simps parse_digit_digit option.case mult_zero_right add_0)

lemma parse_civil:
  assumes "0 \<le> y" "y < 10000" "1 \<le> m" "m \<le> 12" "1 \<le> d" "d \<le> month_lengths y ! nat (m - 1)"
    and "0 \<le> h" "h < 24" "0 \<le> mi" "mi < 60" "0 \<le> s" "s < 60"
  shows "parse_RFC3339 (four y @ ''-'' @ two m @ ''-'' @ two d @ ''T'' @ two h @ '':'' @ two mi @
      '':'' @ two s @ ''Z'') = Inr ((day_of_civil y m d * 86400 + h * 3600 + mi * 60 + s) * Second)"
proof -
  have "d < 100" using assms month_length_le [of "m - 1" y] by simp
  with assms show ?thesis
    by (simp add: parse_RFC3339_def field_def parse_fraction_def parse_zone_def nth_append nth_Cons')
qed

text \<open>
  The timestamp of a liveness record round-trips: for an instant in the years 1 to 9999, parsing
  the formatted time gives the instant back, cut down to the full second.
\<close>

lemma parse_format_RFC3339:
  assumes "0 \<le> t" and "year_of_day (t div Second div 86400) \<le> 9999"
  shows "parse_RFC3339 (format_RFC3339 t) = Inr (t - t mod Second)"
proof -
  define secs where "secs = t div Second"
  define D where "D = secs div 86400"
  define sod where "sod = secs mod 86400"
  obtain y m d where civ: "civil_of_day D = (y, m, d)" by (cases "civil_of_day D") auto
  from assms have D: "0 \<le> D" by (simp add: D_def secs_def Second_def)
  note spec = civil_of_day_spec [OF D civ]
  have y: "0 \<le> y" "y < 10000"
    using spec year_of_day_spec(3) [OF D] assms(2) by (auto simp: D_def secs_def)
  have sod: "0 \<le> sod" "sod < 86400" by (simp_all add: sod_def)
  have "parse_RFC3339 (format_RFC3339 t) =
      Inr ((day_of_civil y m d * 86400 + sod div 3600 * 3600 + sod div 60 mod 60 * 60 + sod mod 60) * Second)"
    unfolding format_RFC3339_def Let_def secs_def [symmetric] D_def [symmetric] sod_def [symmetric] civ
      prod.case
    by (rule parse_civil) (use y spec sod in auto)
  also have "day_of_civil y m d * 86400 + sod div 3600 * 3600 + sod div 60 mod 60 * 60 + sod mod 60 = secs"
  proof -
    have "day_of_civil y m d = D" using spec by blast
    moreover have "D * 86400 + sod = secs" by (simp add: D_def sod_def)
    ultimately show ?thesis using time_of_day_split [of sod] by (simp only: add.assoc)
  qed
  also have "secs * Second = t - t mod Second"
    by (simp add: secs_def minus_mod_eq_div_mult)
  finally show ?thesis .
qed

text \<open>The instants the format can express.\<close>

definition time_ok :: "time \<Rightarrow> bool" where
  "time_ok t \<longleftrightarrow> 0 \<le> t \<and> year_of_day (t div Second div 86400) \<le> 9999"

lemma time_ok_0: "time_ok 0"
  by (simp add: time_ok_def year_of_day_def find_year.simps days_before_year_def)

lemma time_ok_whole:
  assumes "time_ok t"
  shows "parse_RFC3339 (format_RFC3339 t) = Inr (t - t mod Second)" "time_ok (t - t mod Second)"
proof -
  have "(t - t mod Second) div Second = t div Second" by (simp add: minus_mod_eq_mult_div Second_def)
  moreover have "0 \<le> t - t mod Second" using assms by (simp add: time_ok_def minus_mod_eq_mult_div Second_def pos_imp_zdiv_nonneg_iff)
  ultimately show "time_ok (t - t mod Second)" using assms by (simp add: time_ok_def)
  show "parse_RFC3339 (format_RFC3339 t) = Inr (t - t mod Second)"
    using assms by (intro parse_format_RFC3339) (simp_all add: time_ok_def)
qed

end
