(* ===== verification/Kube.thy ===== *)
theory Kube
  imports GoTime
begin

text \<open>
  The Kubernetes vocabulary of the controller.

  API objects (\<^verbatim>\<open>unstructured.Unstructured\<close>) are records with the metadata the code reads or
  writes and the remaining top-level fields as a JSON map. A \<^verbatim>\<open>client.Client\<close> is a service outside
  the repository: it is a record of operations on an unknown world state \<open>'w\<close>, and it is an
  argument of every definition that uses it. What the code relies on of an API server is the
  locale \<open>api_plane\<close>; \<open>mem_client\<close> is an executable in-memory server that satisfies it.
\<close>

section \<open>Identifiers and objects\<close>

datatype gvk = GVK (gvk_group: string) (gvk_version: string) (gvk_kind: string)

datatype group_resource = GR (gr_group: string) (gr_resource: string)

datatype gvr = GVR (gvr_group: string) (gvr_version: string) (gvr_resource: string)

definition GroupResource :: "gvr \<Rightarrow> group_resource" where
  "GroupResource g = GR (gvr_group g) (gvr_resource g)"

datatype json =
    JNull
  | JBool bool
  | JInt int
  | JStr string
  | JArr "json list"
  | JObj "string \<Rightarrow> json option"

record owner_ref =
  or_apiVersion :: string
  or_kind :: string
  or_name :: string
  or_uid :: string

text \<open>
  \<open>None\<close> for labels and annotations is Go's nil map (the field is absent). \<open>o_selector\<close> is
  \<^verbatim>\<open>metadata.selector\<close> of kro's synthetic templates; \<open>o_content\<close> holds the top-level fields other
  than apiVersion, kind and metadata.
\<close>

record obj =
  o_gvk :: gvk
  o_namespace :: string
  o_name :: string
  o_uid :: string
  o_generation :: int
  o_deletionTimestamp :: "time option"
  o_finalizers :: "string list"
  o_labels :: "(string \<rightharpoonup> string) option"
  o_annotations :: "(string \<rightharpoonup> string) option"
  o_ownerRefs :: "owner_ref list"
  o_selector :: "json option"
  o_content :: "string \<rightharpoonup> json"

text \<open>\<^verbatim>\<open>&unstructured.Unstructured{}\<close> followed by \<^verbatim>\<open>SetGroupVersionKind\<close>.\<close>

definition new_obj :: "gvk \<Rightarrow> obj" where
  "new_obj g = \<lparr>o_gvk = g, o_namespace = '''', o_name = '''', o_uid = '''', o_generation = 0,
     o_deletionTimestamp = None, o_finalizers = [], o_labels = None, o_annotations = None,
     o_ownerRefs = [], o_selector = None, o_content = Map.empty\<rparr>"

definition labels_of :: "obj \<Rightarrow> (string \<rightharpoonup> string)" where
  "labels_of ob = (case o_labels ob of None \<Rightarrow> Map.empty | Some m \<Rightarrow> m)"

definition annotations_of :: "obj \<Rightarrow> (string \<rightharpoonup> string)" where
  "annotations_of ob = (case o_annotations ob of None \<Rightarrow> Map.empty | Some m \<Rightarrow> m)"

text \<open>Indexing a Go map of strings: the zero value \<^verbatim>\<open>""\<close> for a missing key.\<close>

definition go_index :: "(string \<rightharpoonup> string) \<Rightarrow> string \<Rightarrow> string" where
  "go_index m k = (case m k of None \<Rightarrow> '''' | Some v \<Rightarrow> v)"

definition apiVersion :: "gvk \<Rightarrow> string" where
  "apiVersion g = (if gvk_group g = '''' then gvk_version g
     else gvk_group g @ ''/'' @ gvk_version g)"

definition terminating :: "obj \<Rightarrow> bool" where
  "terminating ob \<longleftrightarrow> o_deletionTimestamp ob \<noteq> None"

subsection \<open>Nested fields of an unstructured object\<close>

text \<open>\<^verbatim>\<open>NestedMap(obj, f)\<close>: found (and no error) exactly when the field is a map.\<close>

definition nested_map :: "obj \<Rightarrow> string \<Rightarrow> (string \<rightharpoonup> json) option" where
  "nested_map ob f = (case o_content ob f of Some (JObj m) \<Rightarrow> Some m | _ \<Rightarrow> None)"

definition set_nested_map :: "obj \<Rightarrow> string \<Rightarrow> (string \<rightharpoonup> json) \<Rightarrow> obj" where
  "set_nested_map ob f m = ob\<lparr>o_content := (o_content ob)(f \<mapsto> JObj m)\<rparr>"

text \<open>\<^verbatim>\<open>s, _, _ := NestedString(obj, f, k)\<close>: the empty string when absent or of another type.\<close>

definition nested_string :: "obj \<Rightarrow> string \<Rightarrow> string \<Rightarrow> string" where
  "nested_string ob f k =
     (case nested_map ob f of
        None \<Rightarrow> ''''
      | Some m \<Rightarrow> (case m k of Some (JStr s) \<Rightarrow> s | _ \<Rightarrow> ''''))"

text \<open>\<^verbatim>\<open>SetNestedStringMap(obj, data, f)\<close>: a path of one field cannot fail.\<close>

definition set_nested_string_map :: "obj \<Rightarrow> string \<Rightarrow> (string \<rightharpoonup> string) \<Rightarrow> obj" where
  "set_nested_string_map ob f m = set_nested_map ob f (\<lambda>k. map_option JStr (m k))"

section \<open>Clients\<close>

type_synonym selector = "(string \<rightharpoonup> string) \<Rightarrow> bool"

datatype list_option =
    InNamespace string
  | MatchingLabels "(string \<times> string) list"
  | MatchingLabelsSelector selector

fun admits :: "list_option \<Rightarrow> obj \<Rightarrow> bool" where
  "admits (InNamespace n) ob = (n = '''' \<or> o_namespace ob = n)"
| "admits (MatchingLabels kvs) ob = list_all (\<lambda>(k, v). labels_of ob k = Some v) kvs"
| "admits (MatchingLabelsSelector s) ob = s (labels_of ob)"

text \<open>
  \<open>c_list\<close> takes the GVK set on the list object, whose kind may carry the \<^verbatim>\<open>List\<close> suffix;
  \<open>c_apply\<close> takes the field owner and the force flag of a server-side apply.
\<close>

record 'w client =
  c_get :: "gvk \<Rightarrow> string \<Rightarrow> string \<Rightarrow> ('w, error + obj) state"
  c_list :: "gvk \<Rightarrow> list_option list \<Rightarrow> ('w, error + obj list) state"
  c_create :: "obj \<Rightarrow> ('w, error option) state"
  c_update :: "obj \<Rightarrow> ('w, error option) state"
  c_delete :: "obj \<Rightarrow> ('w, error option) state"
  c_apply :: "string \<Rightarrow> bool \<Rightarrow> obj \<Rightarrow> ('w, error option) state"
  c_status_update :: "obj \<Rightarrow> ('w, error option) state"

definition IgnoreNotFound :: "error option \<Rightarrow> error option" where
  "IgnoreNotFound e = (case e of None \<Rightarrow> None | Some x \<Rightarrow> if IsNotFound x then None else Some x)"

definition list_gvk :: "gvk \<Rightarrow> gvk" where
  "list_gvk g = GVK (gvk_group g) (gvk_version g) (gvk_kind g @ ''List'')"

text \<open>The kind a client lists: the client strips one \<^verbatim>\<open>List\<close> suffix of the list's kind.\<close>

definition item_gvk :: "gvk \<Rightarrow> gvk" where
  "item_gvk g = GVK (gvk_group g) (gvk_version g) (TrimSuffix (gvk_kind g) ''List'')"

section \<open>What the code relies on of an API server\<close>

type_synonym objkey = "gvk \<times> string \<times> string"

definition okey :: "obj \<Rightarrow> objkey" where
  "okey ob = (o_gvk ob, o_namespace ob, o_name ob)"

text \<open>Two keys name the same stored object when they differ at most in the API version.\<close>

fun same_object :: "objkey \<Rightarrow> objkey \<Rightarrow> bool" where
  "same_object (g, ns, n) (g', ns', n') \<longleftrightarrow>
     gvk_group g = gvk_group g' \<and> gvk_kind g = gvk_kind g' \<and> ns = ns' \<and> n = n'"

definition configMapGVK :: gvk where
  "configMapGVK = GVK '''' ''v1'' ''ConfigMap''"

text \<open>\<open>gone\<close>: deleted, or already marked for deletion (an object with finalizers lingers so).\<close>

definition gone :: "(objkey \<rightharpoonup> obj) \<Rightarrow> objkey \<Rightarrow> bool" where
  "gone m k \<longleftrightarrow> (\<forall>ob. m k = Some ob \<longrightarrow> terminating ob)"

locale api_plane =
  fixes c :: "'w client"
    and objs :: "'w \<Rightarrow> objkey \<rightharpoonup> obj"
  assumes objs_key: "objs w k = Some ob \<Longrightarrow> okey ob = k"
    and get_frame: "run_state (c_get c g ns n) w = (r, w') \<Longrightarrow> objs w' = objs w"
    and get_found: "run_state (c_get c g ns n) w = (Inr ob, w') \<Longrightarrow> objs w (g, ns, n) = Some ob"
    and get_missing: "run_state (c_get c g ns n) w = (Inl e, w') \<Longrightarrow> IsNotFound e \<Longrightarrow>
          objs w (g, ns, n) = None"
    and list_frame: "run_state (c_list c lg opts) w = (rl, w') \<Longrightarrow> objs w' = objs w"
    and list_found: "run_state (c_list c lg opts) w = (Inr os, w') \<Longrightarrow>
          set os = {ob. objs w (okey ob) = Some ob \<and> o_gvk ob = item_gvk lg \<and>
                       (\<forall>p \<in> set opts. admits p ob)}"
    and delete_frame: "run_state (c_delete c ob) w = (re, w') \<Longrightarrow> \<not> same_object k (okey ob) \<Longrightarrow>
          objs w' k = objs w k"
    and delete_ok: "run_state (c_delete c ob) w = (re, w') \<Longrightarrow> IgnoreNotFound re = None \<Longrightarrow>
          gone (objs w') (okey ob)"
    and delete_keeps: "run_state (c_delete c ob) w = (re, w') \<Longrightarrow> objs w' k = Some ob' \<Longrightarrow>
          \<exists>b. objs w k = Some b \<and> o_labels ob' = o_labels b \<and> (terminating b \<longrightarrow> terminating ob')"
    and delete_finalized: "run_state (c_delete c ob) w = (re, w') \<Longrightarrow> objs w k = Some b \<Longrightarrow>
          o_finalizers b \<noteq> [] \<Longrightarrow> \<exists>b'. objs w' k = Some b' \<and> o_finalizers b' = o_finalizers b"
    and create_frame: "run_state (c_create c ob) w = (re, w') \<Longrightarrow> \<not> same_object k (okey ob) \<Longrightarrow>
          objs w' k = objs w k"
    and create_configmap: "run_state (c_create c ob) w = (None, w') \<Longrightarrow> o_gvk ob = configMapGVK \<Longrightarrow>
          \<exists>ob'. objs w' (okey ob) = Some ob' \<and> o_labels ob' = o_labels ob \<and>
               o_content ob' ''data'' = o_content ob ''data'' \<and> \<not> terminating ob'"
    and update_frame: "run_state (c_update c ob) w = (re, w') \<Longrightarrow> \<not> same_object k (okey ob) \<Longrightarrow>
          objs w' k = objs w k"
    and update_configmap: "run_state (c_update c ob) w = (None, w') \<Longrightarrow> o_gvk ob = configMapGVK \<Longrightarrow>
          \<not> terminating ob \<Longrightarrow>
          \<exists>ob'. objs w' (okey ob) = Some ob' \<and> o_labels ob' = o_labels ob \<and>
               o_content ob' ''data'' = o_content ob ''data'' \<and> \<not> terminating ob'"
    and apply_frame: "run_state (c_apply c fo force ob) w = (re, w') \<Longrightarrow>
          \<not> same_object k (okey ob) \<Longrightarrow> objs w' k = objs w k"
    and apply_labels: "run_state (c_apply c fo force ob) w = (None, w') \<Longrightarrow>
          \<exists>ob'. objs w' (okey ob) = Some ob' \<and> labels_of ob \<subseteq>\<^sub>m labels_of ob'"
    and apply_label_stable: "run_state (c_apply c fo force ob) w = (re, w') \<Longrightarrow>
          objs w (okey ob) = Some b \<Longrightarrow> l \<subseteq>\<^sub>m labels_of ob \<Longrightarrow> l \<subseteq>\<^sub>m labels_of b \<Longrightarrow>
          \<exists>b'. objs w' (okey ob) = Some b' \<and> l \<subseteq>\<^sub>m labels_of b'"
    and status_frame: "run_state (c_status_update c ob) w = (re, w') \<Longrightarrow>
          \<not> same_object k (okey ob) \<Longrightarrow> objs w' k = objs w k"
    and create_present: "run_state (c_create c ob) w = (re, w') \<Longrightarrow> objs w k \<noteq> None \<Longrightarrow>
          objs w' k \<noteq> None"
    and update_present: "run_state (c_update c ob) w = (re, w') \<Longrightarrow> objs w k \<noteq> None \<Longrightarrow>
          \<not> (terminating ob \<and> o_finalizers ob = []) \<Longrightarrow> objs w' k \<noteq> None"
    and apply_present: "run_state (c_apply c fo force ob) w = (re, w') \<Longrightarrow> objs w k \<noteq> None \<Longrightarrow>
          objs w' k \<noteq> None"
    and status_present: "run_state (c_status_update c ob) w = (re, w') \<Longrightarrow> objs w k \<noteq> None \<Longrightarrow>
          objs w' k \<noteq> None"
begin

lemma get_keeps [keeps_intros]: "keeps (\<lambda>w. P (objs w)) (c_get c g ns n)"
  by (rule keepsI) (simp add: get_frame)

lemma list_keeps [keeps_intros]: "keeps (\<lambda>w. P (objs w)) (c_list c lg opts)"
  by (rule keepsI) (simp add: list_frame)

lemma delete_gone_mono:
  assumes "run_state (c_delete c ob) w = (r, w')" and "gone (objs w) k"
  shows "gone (objs w') k"
  using assms delete_keeps [OF assms(1)] by (fastforce simp: gone_def)

lemma delete_no_new:
  assumes "run_state (c_delete c ob) w = (r, w')" and "objs w' k = Some ob'"
  shows "\<exists>b. objs w k = Some b \<and> labels_of ob' = labels_of b"
  using delete_keeps [OF assms] by (auto simp: labels_of_def)

end

section \<open>An in-memory API server\<close>

text \<open>
  The world is one list of objects per plane \<open>'p\<close>. Deleting an object with finalizers marks it;
  an update that leaves a marked object without finalizers removes it, as API servers do. The
  instance serves to evaluate the model on concrete inputs.
\<close>

type_synonym 'p mem = "'p \<Rightarrow> obj list"

definition not_found :: error where
  "not_found = StatusError ReasonNotFound ''not found''"

definition mem_find :: "obj list \<Rightarrow> objkey \<rightharpoonup> obj" where
  "mem_find os k = find (\<lambda>ob. okey ob = k) os"

fun mem_put :: "obj \<Rightarrow> obj list \<Rightarrow> obj list" where
  "mem_put ob [] = [ob]"
| "mem_put ob (x # xs) = (if okey x = okey ob then ob # xs else x # mem_put ob xs)"

definition mem_remove :: "objkey \<Rightarrow> obj list \<Rightarrow> obj list" where
  "mem_remove k os = filter (\<lambda>ob. okey ob \<noteq> k) os"

definition mem_get :: "'p \<Rightarrow> gvk \<Rightarrow> string \<Rightarrow> string \<Rightarrow> ('p mem, error + obj) state" where
  "mem_get p g ns n = State (\<lambda>w.
     (case mem_find (w p) (g, ns, n) of None \<Rightarrow> Inl not_found | Some ob \<Rightarrow> Inr ob, w))"

definition mem_list :: "'p \<Rightarrow> gvk \<Rightarrow> list_option list \<Rightarrow> ('p mem, error + obj list) state" where
  "mem_list p lg opts = State (\<lambda>w.
     (Inr (filter (\<lambda>ob. mem_find (w p) (okey ob) = Some ob \<and> o_gvk ob = item_gvk lg \<and>
        list_all (\<lambda>q. admits q ob) opts) (w p)), w))"

definition mem_create :: "'p \<Rightarrow> obj \<Rightarrow> ('p mem, error option) state" where
  "mem_create p ob = State (\<lambda>w.
     (case mem_find (w p) (okey ob) of
        Some _ \<Rightarrow> (Some (StatusError ReasonAlreadyExists ''already exists''), w)
      | None \<Rightarrow> (None, w(p := mem_put (ob\<lparr>o_deletionTimestamp := None\<rparr>) (w p)))))"

definition mem_update :: "'p \<Rightarrow> obj \<Rightarrow> ('p mem, error option) state" where
  "mem_update p ob = State (\<lambda>w.
     (case mem_find (w p) (okey ob) of
        None \<Rightarrow> (Some not_found, w)
      | Some _ \<Rightarrow>
          (None, if terminating ob \<and> o_finalizers ob = []
                 then w(p := mem_remove (okey ob) (w p)) else w(p := mem_put ob (w p)))))"

definition mem_delete :: "'p \<Rightarrow> obj \<Rightarrow> ('p mem, error option) state" where
  "mem_delete p ob = State (\<lambda>w.
     (case mem_find (w p) (okey ob) of
        None \<Rightarrow> (Some not_found, w)
      | Some b \<Rightarrow>
          (None, if o_finalizers b = [] then w(p := mem_remove (okey ob) (w p))
                 else w(p := mem_put (b\<lparr>o_deletionTimestamp := Some 1\<rparr>) (w p)))))"

definition mem_apply :: "'p \<Rightarrow> string \<Rightarrow> bool \<Rightarrow> obj \<Rightarrow> ('p mem, error option) state" where
  "mem_apply p fo force ob = State (\<lambda>w.
     (case mem_find (w p) (okey ob) of
        None \<Rightarrow> (None, w(p := mem_put ob (w p)))
      | Some b \<Rightarrow>
          (None, w(p := mem_put (b\<lparr>o_labels := Some (labels_of b ++ labels_of ob),
             o_annotations := Some (annotations_of b ++ annotations_of ob),
             o_ownerRefs := o_ownerRefs ob,
             o_content := o_content b ++ o_content ob\<rparr>) (w p)))))"

definition mem_status_update :: "'p \<Rightarrow> obj \<Rightarrow> ('p mem, error option) state" where
  "mem_status_update p ob = State (\<lambda>w.
     (case mem_find (w p) (okey ob) of
        None \<Rightarrow> (Some not_found, w)
      | Some b \<Rightarrow>
          (None, w(p := mem_put (b\<lparr>o_content := (o_content b)(''status'' := o_content ob ''status'')\<rparr>)
             (w p)))))"

definition mem_client :: "'p \<Rightarrow> 'p mem client" where
  "mem_client p = \<lparr>c_get = mem_get p, c_list = mem_list p, c_create = mem_create p,
     c_update = mem_update p, c_delete = mem_delete p, c_apply = mem_apply p,
     c_status_update = mem_status_update p\<rparr>"

lemmas mem_defs = mem_client_def mem_get_def mem_list_def mem_create_def mem_update_def
  mem_delete_def mem_apply_def mem_status_update_def

subsection \<open>It satisfies the laws\<close>

lemma mem_find_Nil [simp]: "mem_find [] k = None"
  by (simp add: mem_find_def)

lemma mem_find_Cons [simp]: "mem_find (x # xs) k = (if okey x = k then Some x else mem_find xs k)"
  by (simp add: mem_find_def)

lemma mem_find_key: "mem_find os k = Some ob \<Longrightarrow> okey ob = k"
  by (induction os) (auto split: if_splits)

lemma mem_find_self: "mem_find os k = Some ob \<Longrightarrow> mem_find os (okey ob) = Some ob"
  using mem_find_key by fastforce

lemma mem_find_in: "mem_find os k = Some ob \<Longrightarrow> ob \<in> set os"
  by (induction os) (auto split: if_splits)

lemma mem_find_put [simp]: "mem_find (mem_put ob os) = (mem_find os)(okey ob \<mapsto> ob)"
  by (induction os) auto

lemma mem_find_remove [simp]: "mem_find (mem_remove k os) = (mem_find os)(k := None)"
  by (induction os) (auto simp: mem_remove_def)

lemma same_object_refl [simp]: "same_object k k"
  by (cases k) simp

lemma okey_updates [simp]:
  "okey (ob\<lparr>o_labels := l\<rparr>) = okey ob"
  "okey (ob\<lparr>o_annotations := a\<rparr>) = okey ob"
  "okey (ob\<lparr>o_ownerRefs := rs\<rparr>) = okey ob"
  "okey (ob\<lparr>o_content := c\<rparr>) = okey ob"
  "okey (ob\<lparr>o_finalizers := fs\<rparr>) = okey ob"
  "okey (ob\<lparr>o_deletionTimestamp := t\<rparr>) = okey ob"
  by (simp_all add: okey_def)

lemma labels_of_updates [simp]:
  "labels_of (ob\<lparr>o_labels := Some l\<rparr>) = l"
  "labels_of (ob\<lparr>o_annotations := a\<rparr>) = labels_of ob"
  "labels_of (ob\<lparr>o_ownerRefs := rs\<rparr>) = labels_of ob"
  "labels_of (ob\<lparr>o_content := c\<rparr>) = labels_of ob"
  "labels_of (ob\<lparr>o_name := n\<rparr>) = labels_of ob"
  "labels_of (ob\<lparr>o_deletionTimestamp := t\<rparr>) = labels_of ob"
  by (simp_all add: labels_of_def)

interpretation mem: api_plane "mem_client p" "\<lambda>w. mem_find (w p)" for p
proof (unfold_locales, goal_cases)
  case (1 w k ob)
  then show ?case by (rule mem_find_key)
next
  case (6 lg opts w os w')
  then show ?case by (auto simp: mem_defs list_all_iff mem_find_in)
next
  case (9 ob w r w' k ob')
  then show ?case
    by (auto simp: mem_defs terminating_def split: option.splits if_splits)
      (metis mem_find_self)
next
  case (10 ob w r w' k b)
  show ?case
  proof (cases "mem_find (w p) (okey ob)")
    case None
    with 10 show ?thesis by (auto simp: mem_defs)
  next
    case (Some x)
    then have "okey x = okey ob" by (rule mem_find_key)
    with 10 Some show ?thesis by (auto simp: mem_defs split: if_splits)
  qed
next
  case (17 fo force ob w r w' b l)
  then show ?case
    by (auto simp: mem_defs split: option.splits dest: mem_find_key
        intro: map_le_trans [OF _ map_le_map_add])
qed (auto simp: mem_defs gone_def terminating_def IgnoreNotFound_def not_found_def
     split: option.splits if_splits dest: mem_find_key)

end
