(* ===== verification/Naming.thy ===== *)
theory Naming
  imports Kube Sha256
begin

text \<open>
  Names, labels and annotations the engine puts on children:
  \<^verbatim>\<open>src/internal/engine/naming.go\<close>, \<^verbatim>\<open>labels.go\<close> and \<^verbatim>\<open>workspace.go\<close>. The hash behind the names is
  the SHA-256 of \<open>Sha256\<close>, so the functions compute the names the controller uses.
\<close>

section \<open>Labels and annotations\<close>

definition LabelInstanceUID :: string where
  "LabelInstanceUID = ''krop.opendefense.cloud/instance-uid''"

definition LabelConsumerCluster :: string where
  "LabelConsumerCluster = ''krop.opendefense.cloud/consumer-cluster''"

definition LabelBlueprint :: string where
  "LabelBlueprint = ''krop.opendefense.cloud/blueprint''"

definition LabelLiveness :: string where
  "LabelLiveness = ''krop.opendefense.cloud/liveness''"

definition Finalizer :: string where
  "Finalizer = ''krop.opendefense.cloud/gc''"

lemmas label_defs = LabelInstanceUID_def LabelConsumerCluster_def LabelBlueprint_def
  LabelLiveness_def

definition GCLabels :: "string \<Rightarrow> string \<Rightarrow> string \<Rightarrow> (string \<rightharpoonup> string)" where
  "GCLabels instanceUID consumerCluster blueprint =
     [LabelInstanceUID \<mapsto> instanceUID, LabelConsumerCluster \<mapsto> consumerCluster,
      LabelBlueprint \<mapsto> blueprint]"

definition AnnotationConsumerCluster :: string where
  "AnnotationConsumerCluster = LabelConsumerCluster"

definition StampConsumerCluster :: "obj \<Rightarrow> string \<Rightarrow> obj" where
  "StampConsumerCluster ob clusterName =
     (let ann = (case o_annotations ob of None \<Rightarrow> Map.empty | Some a \<Rightarrow> a)
      in ob\<lparr>o_annotations := Some (ann(AnnotationConsumerCluster \<mapsto> clusterName))\<rparr>)"

section \<open>Derived names\<close>

definition maxNameLen :: nat where
  "maxNameLen = 253"

abbreviation NUL :: string where
  "NUL \<equiv> [CHR 0x00]"

definition child_digest :: "string \<Rightarrow> string \<Rightarrow> string \<Rightarrow> string" where
  "child_digest clusterName instanceName originalName =
     take 12 (hex_EncodeToString (Sum256 (bytes_of
       (clusterName @ NUL @ instanceName @ NUL @ originalName))))"

definition ProviderChildName :: "string \<Rightarrow> string \<Rightarrow> string \<Rightarrow> string" where
  "ProviderChildName clusterName instanceName originalName =
     (let suffix = child_digest clusterName instanceName originalName;
          base = clusterName @ ''-'' @ instanceName @ ''-'' @ originalName;
          base' = (if length base + 1 + length suffix > maxNameLen
                   then TrimRight (take (maxNameLen - 1 - length suffix) base) ''-.''
                   else base)
      in base' @ ''-'' @ suffix)"

definition record_digest :: "string \<Rightarrow> string \<Rightarrow> string" where
  "record_digest consumerCluster instanceUID =
     take 16 (hex_EncodeToString (Sum256 (bytes_of (consumerCluster @ NUL @ instanceUID))))"

definition LivenessRecordName :: "string \<Rightarrow> string \<Rightarrow> string" where
  "LivenessRecordName consumerCluster instanceUID =
     ''krop-live-'' @ record_digest consumerCluster instanceUID"

section \<open>Valid object names\<close>

text \<open>
  A DNS-1123 subdomain, the syntax Kubernetes requires of most object names: lower-case
  alphanumerics, hyphens and dots, no label empty, and every label starting and ending with an
  alphanumeric. The condition on neighbouring characters says the same of the labels.
\<close>

definition dns_alnum :: "char \<Rightarrow> bool" where
  "dns_alnum c \<longleftrightarrow> (let n = of_char c :: nat in (97 \<le> n \<and> n \<le> 122) \<or> (48 \<le> n \<and> n \<le> 57))"

definition dns_char :: "char \<Rightarrow> bool" where
  "dns_char c \<longleftrightarrow> dns_alnum c \<or> c = CHR ''-'' \<or> c = CHR ''.''"

definition dns_pair :: "char \<Rightarrow> char \<Rightarrow> bool" where
  "dns_pair a b \<longleftrightarrow> (a = CHR ''.'' \<longrightarrow> dns_alnum b) \<and> (b = CHR ''.'' \<longrightarrow> dns_alnum a)"

definition dns1123 :: "string \<Rightarrow> bool" where
  "dns1123 s \<longleftrightarrow> s \<noteq> [] \<and> list_all dns_char s \<and> dns_alnum (hd s) \<and> dns_alnum (last s) \<and>
     successively dns_pair s"

section \<open>Facts about labels\<close>

lemma GCLabels_simps [simp]:
  "GCLabels u c b LabelInstanceUID = Some u"
  "GCLabels u c b LabelConsumerCluster = Some c"
  "GCLabels u c b LabelBlueprint = Some b"
  by (simp_all add: GCLabels_def label_defs)

lemma StampConsumerCluster_frame [simp]:
  "okey (StampConsumerCluster ob c) = okey ob"
  "o_content (StampConsumerCluster ob c) = o_content ob"
  "o_labels (StampConsumerCluster ob c) = o_labels ob"
  by (simp_all add: StampConsumerCluster_def)

lemma StampConsumerCluster_annotations:
  "annotations_of (StampConsumerCluster ob c) =
     (annotations_of ob)(AnnotationConsumerCluster \<mapsto> c)"
  by (simp add: StampConsumerCluster_def annotations_of_def split: option.splits)

section \<open>Facts about derived names\<close>

lemma length_child_digest [simp]: "length (child_digest c i n) = 12"
  by (simp add: child_digest_def)

lemma length_record_digest [simp]: "length (record_digest c u) = 16"
  by (simp add: record_digest_def)

lemma child_digest_hex: "list_all is_hex (child_digest c i n)"
  by (auto simp: child_digest_def list_all_iff dest!: in_set_takeD set_hex)

lemma record_digest_hex: "list_all is_hex (record_digest c u)"
  by (auto simp: record_digest_def list_all_iff dest!: in_set_takeD set_hex)

lemma length_TrimRight: "length (TrimRight s cs) \<le> length s"
  by (simp add: TrimRight_def) (metis length_dropWhile_le length_rev)

lemma TrimRight_prefix: "prefix (TrimRight s cs) s"
proof -
  have "suffix (dropWhile (\<lambda>c. c \<in> set cs) (rev s)) (rev s)"
    by (rule suffix_dropWhile)
  then show ?thesis by (simp add: TrimRight_def suffix_to_prefix)
qed

lemma TrimRight_last: "TrimRight s cs \<noteq> [] \<Longrightarrow> last (TrimRight s cs) \<notin> set cs"
  using hd_dropWhile [of "\<lambda>c. c \<in> set cs" "rev s"] by (simp add: TrimRight_def last_rev)

lemma TrimRight_keeps_first:
  assumes "s \<noteq> []" and "hd s \<notin> set cs"
  shows "TrimRight s cs \<noteq> [] \<and> hd (TrimRight s cs) = hd s"
proof -
  have ne: "TrimRight s cs \<noteq> []"
    using assms by (cases s) (auto simp: TrimRight_def dropWhile_eq_Nil_conv)
  moreover from TrimRight_prefix [of s cs] ne have "hd (TrimRight s cs) = hd s"
    by (metis hd_append prefix_def)
  ultimately show ?thesis ..
qed

lemma is_hex_alnum: "is_hex c \<Longrightarrow> dns_alnum c"
  by (auto simp: is_hex_def dns_alnum_def)

lemma dns_alnum_not_sep [simp]: "\<not> dns_alnum CHR ''-''" "\<not> dns_alnum CHR ''.''"
  by (simp_all add: dns_alnum_def)

lemma dns_pair_alnum [simp]: "dns_alnum a \<Longrightarrow> dns_alnum b \<Longrightarrow> dns_pair a b"
  by (auto simp: dns_pair_def)

lemma dns1123_hex:
  assumes "s \<noteq> []" and "list_all is_hex s"
  shows "dns1123 s"
proof -
  have al: "dns_alnum c" if "c \<in> set s" for c
    using assms that by (auto simp: list_all_iff is_hex_alnum)
  have "successively dns_pair t" if "set t \<subseteq> set s" for t
    using that by (induction t rule: induct_list012) (auto simp: al)
  then have "successively dns_pair s" by simp
  moreover have "list_all dns_char s" using al by (simp add: list_all_iff dns_char_def)
  ultimately show ?thesis using assms(1) al by (simp add: dns1123_def)
qed

text \<open>Joining valid names with a hyphen gives a valid name.\<close>

lemma dns1123_join:
  assumes "dns1123 s" and "dns1123 t"
  shows "dns1123 (s @ ''-'' @ t)"
  using assms
  by (auto simp: dns1123_def successively_append_iff dns_pair_def dns_char_def successively_Cons)

text \<open>Cutting a valid name anywhere and trimming separators leaves a valid name.\<close>

lemma dns1123_cut:
  assumes s: "dns1123 s" and n: "0 < n"
  shows "dns1123 (TrimRight (take n s) ''-.'')"
proof -
  let ?t = "take n s" and ?r = "TrimRight (take n s) ''-.''"
  have pre: "prefix ?r s"
    using TrimRight_prefix [of ?t] take_is_prefix prefix_order.trans by blast
  from s n have "?t \<noteq> []" and "hd ?t = hd s" by (auto simp: dns1123_def hd_take)
  moreover have "hd s \<notin> set ''-.''" using s by (auto simp: dns1123_def)
  ultimately have r: "?r \<noteq> []" "hd ?r = hd s" using TrimRight_keeps_first [of ?t "''-.''"] by auto
  have chars: "list_all dns_char ?r"
    using s pre set_mono_prefix by (fastforce simp: dns1123_def list_all_iff)
  moreover have "dns_alnum (last ?r)"
  proof -
    have "dns_char (last ?r)" using chars r by (auto simp: list_all_iff)
    moreover have "last ?r \<notin> set ''-.''" by (rule TrimRight_last [OF r(1)])
    ultimately show ?thesis by (auto simp: dns_char_def)
  qed
  moreover have "successively dns_pair ?r"
    using s pre by (metis dns1123_def prefix_def successively_append_iff)
  ultimately show ?thesis using s r by (auto simp: dns1123_def)
qed

lemma ProviderChildName_digest:
  "drop (length (ProviderChildName c i n) - 12) (ProviderChildName c i n) = child_digest c i n"
  by (simp add: ProviderChildName_def Let_def)

text \<open>A child never has the name of a liveness record: its hash is shorter.\<close>

lemma child_not_record: "ProviderChildName c i n \<noteq> LivenessRecordName c' u"
proof
  assume eq: "ProviderChildName c i n = LivenessRecordName c' u"
  obtain p where p: "ProviderChildName c i n = p @ ''-'' @ child_digest c i n"
    by (simp add: ProviderChildName_def Let_def)
  with eq have "length (p @ ''-'' @ child_digest c i n) = 26"
    by (simp add: LivenessRecordName_def)
  then have "(p @ ''-'' @ child_digest c i n) ! 13 = CHR ''-''" by (simp add: nth_append)
  with eq p have "record_digest c' u ! 3 = CHR ''-''" by (simp add: LivenessRecordName_def nth_append)
  moreover have "is_hex (record_digest c' u ! 3)"
    using record_digest_hex [of c' u] by (simp add: list_all_length)
  ultimately show False by (simp add: is_hex_def)
qed

section \<open>Properties\<close>

text \<open>Names of provider and host children are valid: at most 253 characters, and DNS-1123 subdomains if their parts are.\<close>

lemma ProviderChildName_length: "length (ProviderChildName c i n) \<le> maxNameLen"
proof -
  have "length (TrimRight (take 240 s) ''-.'') \<le> 240" for s :: string
    using length_TrimRight [of "take 240 s" "''-.''"] by simp
  then show ?thesis
    by (auto simp: ProviderChildName_def Let_def maxNameLen_def simp del: take_append)
qed

lemma ProviderChildName_dns1123:
  assumes "dns1123 c" and "dns1123 i" and "dns1123 n"
  shows "dns1123 (ProviderChildName c i n)"
proof -
  have base: "dns1123 (c @ ''-'' @ i @ ''-'' @ n)"
    using dns1123_join [OF assms(1) dns1123_join [OF assms(2,3)]] by simp
  have digest: "dns1123 (child_digest c i n)"
    by (rule dns1123_hex [OF _ child_digest_hex]) (metis length_child_digest list.size(3) zero_neq_numeral)
  show ?thesis
    using dns1123_join [OF base digest]
      dns1123_join [OF dns1123_cut [OF base, of "maxNameLen - 1 - 12"] digest]
    by (auto simp: ProviderChildName_def Let_def maxNameLen_def)
qed

text \<open>The message a child's digest is taken of, and the part of its name before the digest.\<close>

abbreviation child_message :: "string \<Rightarrow> string \<Rightarrow> string \<Rightarrow> byte list" where
  "child_message c i n \<equiv> bytes_of (c @ NUL @ i @ NUL @ n)"

definition readable_part :: "string \<Rightarrow> string \<Rightarrow> string \<Rightarrow> string" where
  "readable_part c i n =
     (let base = c @ ''-'' @ i @ ''-'' @ n
      in if length base \<le> 240 then base else TrimRight (take 240 base) ''-.'')"

lemma ProviderChildName_parts:
  "ProviderChildName c i n = readable_part c i n @ ''-'' @ hex_EncodeToString (take 6 (Sum256 (child_message c i n)))"
  using take_hex [of 6] by (simp add: ProviderChildName_def readable_part_def child_digest_def maxNameLen_def Let_def not_le)

lemma bytes_of_inject: "bytes_of s = bytes_of t \<longleftrightarrow> s = t"
proof -
  have "inj (of_char :: char \<Rightarrow> byte)"
  proof (rule injI)
    fix a b :: char
    assume "(of_char a :: byte) = of_char b"
    then have "(of_nat (of_char a) :: byte) = of_nat (of_char b)" by (simp only: of_nat_of_char)
    then have "(of_char a :: nat) mod 2 ^ 8 = of_char b mod 2 ^ 8" by (simp add: word_of_nat_eq_iff take_bit_eq_mod)
    then show "a = b" by simp
  qed
  then show ?thesis by (simp add: bytes_of_def inj_map_eq_map)
qed

text \<open>
  C28. When two children get the same name. Cluster and instance names contain no NUL byte. Then the names
  of two children are equal exactly if cluster, instance and template name are the same, or if the readable parts
  of the names agree and, in addition, the null-joined triples, as two different messages, have SHA-256 digests with the same first 48 bits.
  So the readable part alone never makes two names equal.
\<close>

theorem ProviderChildName_collision:
  assumes "CHR 0x00 \<notin> set c \<union> set i \<union> set c' \<union> set i'"
  shows "ProviderChildName c i n = ProviderChildName c' i' n' \<longleftrightarrow> (c, i, n) = (c', i', n') \<or>
    (readable_part c i n = readable_part c' i' n' \<and>
     bytes_of (c @ NUL @ i @ NUL @ n) \<noteq> bytes_of (c' @ NUL @ i' @ NUL @ n') \<and>
     take 6 (Sum256 (bytes_of (c @ NUL @ i @ NUL @ n))) = take 6 (Sum256 (bytes_of (c' @ NUL @ i' @ NUL @ n'))))"
proof -
  have "ProviderChildName c i n = ProviderChildName c' i' n' \<longleftrightarrow> readable_part c i n = readable_part c' i' n' \<and>
      take 6 (Sum256 (child_message c i n)) = take 6 (Sum256 (child_message c' i' n'))"
    by (simp add: ProviderChildName_parts append_eq_append_conv hex_inject)
  moreover have "child_message c i n = child_message c' i' n' \<longleftrightarrow> (c, i, n) = (c', i', n')"
    using assms by (auto simp: bytes_of_inject append_sep_inject)
  ultimately show ?thesis by auto
qed

text \<open>
  C29. The liveness record of an instance always has a valid name, of 26 characters. The consumer clusters' names contain
  no NUL byte. Then two instances share a record name exactly if cluster and uid are the same or the null-joined pairs, as two different
  messages, have SHA-256 digests with the same first 64 bits.
\<close>

theorem LivenessRecordName_valid:
  assumes "CHR 0x00 \<notin> set c \<union> set c'"
  shows "dns1123 (LivenessRecordName c u) \<and> length (LivenessRecordName c u) = 26 \<and>
    (LivenessRecordName c u = LivenessRecordName c' u' \<longleftrightarrow> (c, u) = (c', u') \<or>
      (bytes_of (c @ NUL @ u) \<noteq> bytes_of (c' @ NUL @ u') \<and>
       take 8 (Sum256 (bytes_of (c @ NUL @ u))) = take 8 (Sum256 (bytes_of (c' @ NUL @ u')))))"
proof (intro conjI)
  have "dns1123 (record_digest c u)"
    by (rule dns1123_hex [OF _ record_digest_hex]) (metis length_record_digest list.size(3) zero_neq_numeral)
  moreover have "dns1123 ''krop-live''"
    by (simp add: dns1123_def dns_char_def dns_alnum_def dns_pair_def)
  ultimately have "dns1123 (''krop-live'' @ ''-'' @ record_digest c u)" by (rule dns1123_join [rotated])
  then show "dns1123 (LivenessRecordName c u)" "length (LivenessRecordName c u) = 26" by (simp_all add: LivenessRecordName_def)
  have "LivenessRecordName c u = LivenessRecordName c' u' \<longleftrightarrow>
      take 8 (Sum256 (bytes_of (c @ NUL @ u))) = take 8 (Sum256 (bytes_of (c' @ NUL @ u')))"
    using take_hex [of 8] by (simp add: LivenessRecordName_def record_digest_def hex_inject)
  moreover have "bytes_of (c @ NUL @ u) = bytes_of (c' @ NUL @ u') \<longleftrightarrow> (c, u) = (c', u')"
    using assms by (auto simp: bytes_of_inject append_sep_inject)
  ultimately show "LivenessRecordName c u = LivenessRecordName c' u' \<longleftrightarrow> (c, u) = (c', u') \<or>
      (bytes_of (c @ NUL @ u) \<noteq> bytes_of (c' @ NUL @ u') \<and>
       take 8 (Sum256 (bytes_of (c @ NUL @ u))) = take 8 (Sum256 (bytes_of (c' @ NUL @ u'))))" by auto
qed

end
