(* ===== verification/Appliers.thy ===== *)
theory Appliers
  imports Routing Naming
begin

text \<open>
  The engine's write and read interfaces and their implementations:
  \<^verbatim>\<open>src/internal/engine/apply.go\<close> (\<^verbatim>\<open>Applier\<close> with the server-side-apply writer and the recording,
  qualifying, labelling and owner-reference decorators), \<^verbatim>\<open>src/internal/engine/reader.go\<close>
  (\<^verbatim>\<open>Reader\<close>), and the decorator chains \<^verbatim>\<open>src/internal/controller/reconciler.go\<close> builds per target.

  The Go interface \<^verbatim>\<open>Applier\<close> is the type \<open>applier\<close> together with the locale \<open>applier\<close>, which
  states what the engine and the pruning code rely on; the chains are interpretations of it over
  any API server that satisfies \<open>api_plane\<close>.
\<close>

section \<open>State of one reconcile pass\<close>

datatype child_id = ChildID (ci_gvk: gvk) (ci_namespace: string) (ci_name: string)

text \<open>
  The variables of one pass: the kro runtime, the world behind the clients, and the per-target
  sinks \<^verbatim>\<open>appliedConsumer\<close>, \<^verbatim>\<open>appliedProvider\<close> and \<^verbatim>\<open>appliedHost\<close>.
\<close>

record ('rt, 'w) pass =
  p_rt :: 'rt
  p_world :: 'w
  p_applied :: "target \<Rightarrow> child_id list"

definition lift_world :: "('w, 'a) state \<Rightarrow> (('rt, 'w) pass, 'a) state" where
  "lift_world m = State (\<lambda>p. case run_state m (p_world p) of (a, w) \<Rightarrow> (a, p\<lparr>p_world := w\<rparr>))"

definition lift_rt :: "('rt, 'a) state \<Rightarrow> (('rt, 'w) pass, 'a) state" where
  "lift_rt m = State (\<lambda>p. case run_state m (p_rt p) of (a, r) \<Rightarrow> (a, p\<lparr>p_rt := r\<rparr>))"

text \<open>\<^verbatim>\<open>*r.applied = append(*r.applied, id)\<close> on the sink of a target.\<close>

definition record_child :: "target \<Rightarrow> child_id \<Rightarrow> (('rt, 'w) pass, unit) state" where
  "record_child t i = State (\<lambda>p. ((), p\<lparr>p_applied := (p_applied p)(t := p_applied p t @ [i])\<rparr>))"

section \<open>Appliers\<close>

definition FieldManager :: string where
  "FieldManager = ''krop-controller''"

type_synonym 's applier = "obj \<Rightarrow> ('s, error + obj) state"

definition SSAApplier_Apply :: "'w client \<Rightarrow> 'w applier" where
  "SSAApplier_Apply c ob =
     do {
       err \<leftarrow> c_apply c FieldManager True ob;
       case err of
         Some e \<Rightarrow> ret (Inl e)
       | None \<Rightarrow> c_get c (o_gvk ob) (o_namespace ob) (o_name ob)
     }"

definition child_of :: "obj \<Rightarrow> child_id" where
  "child_of ob = ChildID (o_gvk ob) (o_namespace ob) (o_name ob)"

definition RecordingApplier_Apply ::
    "('rt, 'w) pass applier \<Rightarrow> target \<Rightarrow> ('rt, 'w) pass applier" where
  "RecordingApplier_Apply inner sink ob =
     do {
       r \<leftarrow> inner ob;
       case r of
         Inl e \<Rightarrow> ret (Inl e)
       | Inr observed \<Rightarrow>
           do {
             record_child sink (child_of observed);
             ret (Inr observed)
           }
     }"

definition QualifyingApplier_Apply :: "'s applier \<Rightarrow> (string \<Rightarrow> string) \<Rightarrow> 's applier" where
  "QualifyingApplier_Apply inner rename ob = inner (ob\<lparr>o_name := rename (o_name ob)\<rparr>)"

definition merge_labels :: "(string \<rightharpoonup> string) \<Rightarrow> obj \<Rightarrow> obj" where
  "merge_labels labels ob =
     (let merged = (case o_labels ob of None \<Rightarrow> Map.empty | Some m \<Rightarrow> m)
      in ob\<lparr>o_labels := Some (merged ++ labels)\<rparr>)"

definition LabelingApplier_Apply :: "'s applier \<Rightarrow> (string \<rightharpoonup> string) \<Rightarrow> 's applier" where
  "LabelingApplier_Apply inner labels ob = inner (merge_labels labels ob)"

definition owner_reference :: "obj \<Rightarrow> owner_ref" where
  "owner_reference owner =
     \<lparr>or_apiVersion = apiVersion (o_gvk owner), or_kind = gvk_kind (o_gvk owner),
      or_name = o_name owner, or_uid = o_uid owner\<rparr>"

definition OwnerRefApplier_Apply :: "'s applier \<Rightarrow> obj \<Rightarrow> 's applier" where
  "OwnerRefApplier_Apply inner owner ob = inner (ob\<lparr>o_ownerRefs := [owner_reference owner]\<rparr>)"

subsection \<open>The chains of the reconciler\<close>

definition consumer_applier ::
    "'w client \<Rightarrow> obj \<Rightarrow> (string \<rightharpoonup> string) \<Rightarrow> ('rt, 'w) pass applier" where
  "consumer_applier c inst labels =
     LabelingApplier_Apply
       (OwnerRefApplier_Apply
         (RecordingApplier_Apply (\<lambda>ob. lift_world (SSAApplier_Apply c ob)) TargetConsumer) inst)
       labels"

definition qualified_applier ::
    "'w client \<Rightarrow> target \<Rightarrow> string \<Rightarrow> string \<Rightarrow> (string \<rightharpoonup> string) \<Rightarrow> ('rt, 'w) pass applier" where
  "qualified_applier c t clusterName instanceName labels =
     LabelingApplier_Apply
       (QualifyingApplier_Apply
         (RecordingApplier_Apply (\<lambda>ob. lift_world (SSAApplier_Apply c ob)) t)
         (\<lambda>orig. ProviderChildName clusterName instanceName orig))
       labels"

text \<open>The object each chain sends to the server.\<close>

definition consumer_final :: "obj \<Rightarrow> (string \<rightharpoonup> string) \<Rightarrow> obj \<Rightarrow> obj" where
  "consumer_final inst labels ob =
     (merge_labels labels ob)\<lparr>o_ownerRefs := [owner_reference inst]\<rparr>"

definition qualified_final ::
    "string \<Rightarrow> string \<Rightarrow> (string \<rightharpoonup> string) \<Rightarrow> obj \<Rightarrow> obj" where
  "qualified_final clusterName instanceName labels ob =
     (merge_labels labels ob)\<lparr>o_name := ProviderChildName clusterName instanceName (o_name ob)\<rparr>"

section \<open>Readers\<close>

record 's reader =
  Reader_Get :: "gvk \<Rightarrow> string \<Rightarrow> string \<Rightarrow> ('s, error + obj) state"
  Reader_List :: "gvk \<Rightarrow> string \<Rightarrow> selector option \<Rightarrow> ('s, error + obj list) state"

definition ClientReader_Get :: "'w client \<Rightarrow> gvk \<Rightarrow> string \<Rightarrow> string \<Rightarrow> ('w, error + obj) state" where
  "ClientReader_Get c g ns n = c_get c g ns n"

definition ClientReader_List ::
    "'w client \<Rightarrow> gvk \<Rightarrow> string \<Rightarrow> selector option \<Rightarrow> ('w, error + obj list) state" where
  "ClientReader_List c g ns sel =
     c_list c (list_gvk g)
       ((if ns \<noteq> '''' then [InNamespace ns] else []) @
        (case sel of None \<Rightarrow> [] | Some s \<Rightarrow> [MatchingLabelsSelector s]))"

definition NewClientReader :: "'w client \<Rightarrow> ('rt, 'w) pass reader" where
  "NewClientReader c =
     \<lparr>Reader_Get = (\<lambda>g ns n. lift_world (ClientReader_Get c g ns n)),
      Reader_List = (\<lambda>g ns sel. lift_world (ClientReader_List c g ns sel))\<rparr>"

section \<open>The contract of an applier\<close>

text \<open>
  \<open>final\<close> is the object the chain sends, \<open>objs\<close> the store it writes, \<open>sink\<close> the list it records
  into. A successful call returns the stored object, whose identity is that of the object sent,
  with at least its labels, and records exactly that identity; a failed call records nothing.
\<close>

locale applier =
  fixes app :: "obj \<Rightarrow> ('s, error + obj) state"
    and final :: "obj \<Rightarrow> obj"
    and objs :: "'s \<Rightarrow> objkey \<rightharpoonup> obj"
    and sink :: "'s \<Rightarrow> child_id list"
  assumes apply_frame: "run_state (app ob) s = (r, s') \<Longrightarrow> \<not> same_object k (okey (final ob)) \<Longrightarrow>
            objs s' k = objs s k"
    and apply_result: "run_state (app ob) s = (Inr ob', s') \<Longrightarrow>
            okey ob' = okey (final ob) \<and> objs s' (okey (final ob)) = Some ob' \<and>
            labels_of (final ob) \<subseteq>\<^sub>m labels_of ob' \<and> sink s' = sink s @ [child_of (final ob)]"
    and apply_failed: "run_state (app ob) s = (Inl e, s') \<Longrightarrow> sink s' = sink s"
begin

lemma sink_grows:
  assumes "run_state (app ob) s = (r, s')"
  shows "set (sink s) \<subseteq> set (sink s')"
  using assms apply_result apply_failed by (cases r) fastforce+

end

section \<open>Facts\<close>

lemma run_lift_world [simp]:
  "run_state (lift_world m) p = (case run_state m (p_world p) of (a, w) \<Rightarrow> (a, p\<lparr>p_world := w\<rparr>))"
  by (simp add: lift_world_def)

lemma run_lift_rt [simp]:
  "run_state (lift_rt m) p = (case run_state m (p_rt p) of (a, r) \<Rightarrow> (a, p\<lparr>p_rt := r\<rparr>))"
  by (simp add: lift_rt_def)

lemma run_record_child [simp]:
  "run_state (record_child t i) p = ((), p\<lparr>p_applied := (p_applied p)(t := p_applied p t @ [i])\<rparr>)"
  by (simp add: record_child_def)

lemma keeps_lift_world [keeps_intros]:
  assumes "\<And>r a. keeps (\<lambda>w. I r w a) m"
  shows "keeps (\<lambda>p. I (p_rt p) (p_world p) (p_applied p)) (lift_world m)"
proof (rule keepsI)
  fix p x q
  assume "I (p_rt p) (p_world p) (p_applied p)" and "run_state (lift_world m) p = (x, q)"
  then show "I (p_rt q) (p_world q) (p_applied q)"
    using keepsD [OF assms [of "p_rt p" "p_applied p"]] by (auto split: prod.splits)
qed

lemma keeps_lift_rt [keeps_intros]: "keeps (\<lambda>p. I (p_world p) (p_applied p)) (lift_rt m)"
  by (rule keepsI) (auto split: prod.splits)

lemma okey_final [simp]:
  "okey (consumer_final inst labels ob) = okey ob"
  "okey (qualified_final cn inn labels ob) =
     (o_gvk ob, o_namespace ob, ProviderChildName cn inn (o_name ob))"
  by (simp_all add: consumer_final_def qualified_final_def merge_labels_def Let_def okey_def)

lemma labels_of_merge_labels [simp]: "labels_of (merge_labels labels ob) = labels_of ob ++ labels"
  by (simp add: merge_labels_def Let_def labels_of_def)

lemma labels_of_final [simp]:
  "labels_of (consumer_final inst labels ob) = labels_of ob ++ labels"
  "labels_of (qualified_final cn inn labels ob) = labels_of ob ++ labels"
  by (simp_all add: consumer_final_def qualified_final_def)

lemma consumer_applier_alt:
  "consumer_applier c inst labels ob =
     RecordingApplier_Apply (\<lambda>ob. lift_world (SSAApplier_Apply c ob)) TargetConsumer
       (consumer_final inst labels ob)"
  by (simp add: consumer_applier_def LabelingApplier_Apply_def OwnerRefApplier_Apply_def
      consumer_final_def)

lemma qualified_applier_alt:
  "qualified_applier c t cn inn labels ob =
     RecordingApplier_Apply (\<lambda>ob. lift_world (SSAApplier_Apply c ob)) t
       (qualified_final cn inn labels ob)"
  by (simp add: qualified_applier_def LabelingApplier_Apply_def QualifyingApplier_Apply_def
      qualified_final_def merge_labels_def Let_def)

lemma child_of_okey: "okey a = okey b \<Longrightarrow> child_of a = child_of b"
  by (simp add: okey_def child_of_def)

text \<open>The innermost pair of every chain, the recorder around the server-side-apply writer.\<close>

lemma SSA_cases:
  assumes "run_state (SSAApplier_Apply c ob) w = (r, w')"
  obtains (apply_error) e where "run_state (c_apply c FieldManager True ob) w = (Some e, w')" "r = Inl e"
  | (applied) w1 where "run_state (c_apply c FieldManager True ob) w = (None, w1)"
      "run_state (c_get c (o_gvk ob) (o_namespace ob) (o_name ob)) w1 = (r, w')"
  using assms by (auto simp: SSAApplier_Apply_def split: prod.splits option.splits)

context api_plane
begin

lemma SSA_frame:
  assumes "run_state (SSAApplier_Apply c ob) w = (r, w')" and "\<not> same_object k (okey ob)"
  shows "objs w' k = objs w k"
  using assms(1) by (cases rule: SSA_cases) (auto simp: get_frame apply_frame [OF _ assms(2)])

lemma SSA_result:
  assumes "run_state (SSAApplier_Apply c ob) w = (Inr ob', w')"
  shows "okey ob' = okey ob \<and> objs w' (okey ob) = Some ob' \<and> labels_of ob \<subseteq>\<^sub>m labels_of ob'"
  using assms
proof (cases rule: SSA_cases)
  case (applied w1)
  from apply_labels [OF applied(1)] obtain b where b: "objs w1 (okey ob) = Some b"
    and l: "labels_of ob \<subseteq>\<^sub>m labels_of b" by blast
  from get_found [OF applied(2)] b have "b = ob'" by (simp add: okey_def)
  with get_frame [OF applied(2)] b l objs_key [OF b] show ?thesis by simp
qed simp

lemma recorded_applier:
  "applier (\<lambda>ob. RecordingApplier_Apply (\<lambda>ob. lift_world (SSAApplier_Apply c ob)) t (fin ob))
     fin (\<lambda>p :: ('rt, 'w) pass. objs (p_world p)) (\<lambda>p. p_applied p t)"
proof (unfold_locales, goal_cases)
  case (1 ob s r s' k)
  then show ?case
    by (auto simp: RecordingApplier_Apply_def SSA_frame split: prod.splits sum.splits)
next
  case (2 ob s ob' s')
  then obtain w where run: "run_state (SSAApplier_Apply c (fin ob)) (p_world s) = (Inr ob', w)"
    and s': "s' = s\<lparr>p_world := w, p_applied := (p_applied s)(t := p_applied s t @ [child_of ob'])\<rparr>"
    by (auto simp: RecordingApplier_Apply_def split: prod.splits sum.splits)
  with SSA_result [OF run] show ?case by (auto dest: child_of_okey)
next
  case (3 ob s e s')
  then show ?case by (auto simp: RecordingApplier_Apply_def split: prod.splits sum.splits)
qed

end

sublocale api_plane \<subseteq> cons: applier "consumer_applier c inst labels" "consumer_final inst labels"
    "\<lambda>p :: ('rt, 'w) pass. objs (p_world p)" "\<lambda>p. p_applied p TargetConsumer" for inst labels
  using recorded_applier [of TargetConsumer "consumer_final inst labels"]
  by (simp flip: consumer_applier_alt)

sublocale api_plane \<subseteq> qual: applier "qualified_applier c t cn inn labels"
    "qualified_final cn inn labels" "\<lambda>p :: ('rt, 'w) pass. objs (p_world p)" "\<lambda>p. p_applied p t"
    for t cn inn labels
  using recorded_applier [of t "qualified_final cn inn labels"]
  by (simp flip: qualified_applier_alt)

end
