(* ===== verification/Engine.thy ===== *)
theory Engine
  imports Appliers
begin

text \<open>
  The reconcile core: \<^verbatim>\<open>src/internal/engine/engine.go\<close> and \<^verbatim>\<open>status.go\<close>.

  kro's client-free runtime is code outside the repository: \<open>runtime\<close> is the record of the calls
  the engine makes on it, each acting on the state \<open>'s\<close>. The engine is polymorphic in \<open>'s\<close>, as the
  Go code is in what lies behind its \<^verbatim>\<open>Applier\<close> and \<^verbatim>\<open>Reader\<close> interfaces.
\<close>

section \<open>Nodes, runtime, result\<close>

datatype node_type =
    NodeTypeResource
  | NodeTypeCollection
  | NodeTypeExternal
  | NodeTypeExternalCollection
  | NodeTypeInstance

record node =
  nd_id :: string
  nd_type :: node_type
  nd_namespaced :: bool
  nd_gvr :: gvr
  nd_gvk :: gvk

text \<open>
  What the controller reads of a compiled \<^verbatim>\<open>graph.Graph\<close>: its nodes (a Go map; the list is one
  order of iterating over it), the resource of the instance, and the generated CRD (nil when
  absent).
\<close>

record crd =
  crd_name :: string
  crd_group :: string
  crd_plural :: string
  crd_kind :: string
  crd_versions :: "string list"

record graph =
  g_nodes :: "node list"
  g_instance_gvr :: gvr
  g_crd :: "crd option"

definition is_external :: "node \<Rightarrow> bool" where
  "is_external n \<longleftrightarrow> nd_type n = NodeTypeExternal \<or> nd_type n = NodeTypeExternalCollection"

record 's runtime =
  rt_Nodes :: "node list"
  rt_IsIgnored :: "node \<Rightarrow> ('s, error + bool) state"
  rt_GetDesired :: "node \<Rightarrow> ('s, error + obj list) state"
  rt_SetObserved :: "node \<Rightarrow> obj list \<Rightarrow> ('s, unit) state"
  rt_CheckReadiness :: "node \<Rightarrow> ('s, error option) state"
  rt_InstanceDesired :: "('s, error + obj list) state"

record result =
  Ready :: bool
  Requeue :: bool
  Complete :: bool

text \<open>\<^verbatim>\<open>kropengine.Result{}\<close>\<close>

definition zero_result :: result where
  "zero_result = \<lparr>Ready = False, Requeue = False, Complete = False\<rparr>"

definition not_ready :: "result \<Rightarrow> result" where
  "not_ready res = res\<lparr>Ready := False, Requeue := True\<rparr>"

text \<open>How one iteration of the node loop ends: with the next iteration or by returning.\<close>

datatype flow = Continue result | Return result "error option"

section \<open>External collection selectors\<close>

text \<open>
  \<^verbatim>\<open>metav1.LabelSelector\<close> and its two conversions belong to apimachinery; the conversions are
  parameters of the model.
\<close>

record label_selector =
  ls_matchLabels :: "string \<rightharpoonup> string"
  ls_matchExpressions :: "(string \<times> string \<times> string list) list"

record selector_lib =
  FromUnstructured_selector :: "(string \<rightharpoonup> json) \<Rightarrow> error + label_selector"
  LabelSelectorAsSelector :: "label_selector \<Rightarrow> error + selector"

definition labels_Everything :: selector where
  "labels_Everything = (\<lambda>_. True)"

definition externalCollectionSelector :: "selector_lib \<Rightarrow> obj \<Rightarrow> error + selector" where
  "externalCollectionSelector lib desired =
     (case o_selector desired of
        Some (JObj raw) \<Rightarrow>
          (case FromUnstructured_selector lib raw of
             Inl e \<Rightarrow> Inl (Wrapped ''converting external collection selector: '' e)
           | Inr ls \<Rightarrow>
               (case LabelSelectorAsSelector lib ls of
                  Inl e \<Rightarrow> Inl (Wrapped ''invalid external collection selector: '' e)
                | Inr sel \<Rightarrow> Inr sel))
      | _ \<Rightarrow> Inr labels_Everything)"

section \<open>The node loop\<close>

definition check_ready :: "'s runtime \<Rightarrow> node \<Rightarrow> result \<Rightarrow> ('s, flow) state" where
  "check_ready rt n res =
     do {
       err \<leftarrow> rt_CheckReadiness rt n;
       ret (Continue (if err \<noteq> None then not_ready res else res))
     }"

definition node_error :: "node \<Rightarrow> string \<Rightarrow> string" where
  "node_error n msg = ''node '' @ nd_id n @ '': '' @ msg"

definition reconcile_external ::
    "'s runtime \<Rightarrow> 's reader option \<Rightarrow> target \<Rightarrow> node \<Rightarrow> obj list \<Rightarrow> result \<Rightarrow> ('s, flow) state" where
  "reconcile_external rt reader t n desired res =
     (case reader of
        None \<Rightarrow> ret (Return res (Some (ErrorString (node_error n
                  (''no reader configured for target '' @ go_quote (target_string t))))))
      | Some rd \<Rightarrow>
          (case desired of
             [] \<Rightarrow> ret (Continue res)
           | d # _ \<Rightarrow>
               do {
                 r \<leftarrow> Reader_Get rd (o_gvk d) (o_namespace d) (o_name d);
                 case r of
                   Inl e \<Rightarrow>
                     if IsNotFound e then ret (Return (not_ready res) None)
                     else ret (Return res (Some (Wrapped (node_error n ''external get: '') e)))
                 | Inr ob \<Rightarrow>
                     do {
                       rt_SetObserved rt n [ob];
                       check_ready rt n res
                     }
               }))"

definition reconcile_external_collection ::
    "selector_lib \<Rightarrow> 's runtime \<Rightarrow> 's reader option \<Rightarrow> target \<Rightarrow> node \<Rightarrow> obj list \<Rightarrow> result \<Rightarrow>
     ('s, flow) state" where
  "reconcile_external_collection lib rt reader t n desired res =
     (case reader of
        None \<Rightarrow> ret (Return res (Some (ErrorString (node_error n
                  (''no reader configured for target '' @ go_quote (target_string t))))))
      | Some rd \<Rightarrow>
          (case desired of
             [] \<Rightarrow> ret (Continue res)
           | d # _ \<Rightarrow>
               (case externalCollectionSelector lib d of
                  Inl e \<Rightarrow> ret (Return res (Some (Wrapped (node_error n '''') e)))
                | Inr sel \<Rightarrow>
                    do {
                      r \<leftarrow> Reader_List rd (o_gvk d)
                             (if nd_namespaced n then o_namespace d else '''') (Some sel);
                      case r of
                        Inl e \<Rightarrow>
                          ret (Return res (Some (Wrapped (node_error n ''external list: '') e)))
                      | Inr items \<Rightarrow>
                          do {
                            rt_SetObserved rt n items;
                            check_ready rt n res
                          }
                    })))"

fun apply_all :: "'s applier \<Rightarrow> obj list \<Rightarrow> obj list \<Rightarrow> ('s, error + obj list) state" where
  "apply_all ap [] observed = ret (Inr observed)"
| "apply_all ap (ob # obs) observed =
     do {
       r \<leftarrow> ap ob;
       case r of
         Inl e \<Rightarrow> ret (Inl e)
       | Inr o1 \<Rightarrow> apply_all ap obs (observed @ [o1])
     }"

definition reconcile_template ::
    "'s runtime \<Rightarrow> 's applier option \<Rightarrow> target \<Rightarrow> node \<Rightarrow> obj list \<Rightarrow> result \<Rightarrow> ('s, flow) state" where
  "reconcile_template rt app t n desired res =
     (case app of
        None \<Rightarrow> ret (Return res (Some (ErrorString (node_error n
                  (''no applier configured for target '' @ go_quote (target_string t))))))
      | Some ap \<Rightarrow>
          do {
            r \<leftarrow> apply_all ap desired [];
            case r of
              Inl e \<Rightarrow>
                ret (Return res (Some (Wrapped (node_error n
                  (''apply to '' @ target_string t @ '': '')) e)))
            | Inr observed \<Rightarrow>
                do {
                  rt_SetObserved rt n observed;
                  check_ready rt n res
                }
          })"

definition reconcile_node ::
    "selector_lib \<Rightarrow> 's runtime \<Rightarrow> (target \<rightharpoonup> 's applier) \<Rightarrow> (target \<rightharpoonup> 's reader) \<Rightarrow>
     (string \<rightharpoonup> target) \<Rightarrow> node \<Rightarrow> result \<Rightarrow> ('s, flow) state" where
  "reconcile_node lib rt appliers readers routing n res =
     do {
       ignored \<leftarrow> rt_IsIgnored rt n;
       case ignored of
         Inl e \<Rightarrow> ret (Return res (Some (Wrapped (node_error n ''includeWhen: '') e)))
       | Inr True \<Rightarrow> ret (Continue res)
       | Inr False \<Rightarrow>
           do {
             r \<leftarrow> rt_GetDesired rt n;
             case r of
               Inl e \<Rightarrow>
                 if errors_Is e ErrDataPending then ret (Return (not_ready res) None)
                 else ret (Return res (Some (Wrapped (node_error n '''') e)))
             | Inr desired \<Rightarrow>
                 (let t = TargetForNode (nd_id n) routing in
                  case nd_type n of
                    NodeTypeExternal \<Rightarrow> reconcile_external rt (readers t) t n desired res
                  | NodeTypeExternalCollection \<Rightarrow>
                      reconcile_external_collection lib rt (readers t) t n desired res
                  | _ \<Rightarrow> reconcile_template rt (appliers t) t n desired res)
           }
     }"

fun reconcile_loop ::
    "selector_lib \<Rightarrow> 's runtime \<Rightarrow> (target \<rightharpoonup> 's applier) \<Rightarrow> (target \<rightharpoonup> 's reader) \<Rightarrow>
     (string \<rightharpoonup> target) \<Rightarrow> node list \<Rightarrow> result \<Rightarrow> ('s, flow) state" where
  "reconcile_loop lib rt appliers readers routing [] res = ret (Continue res)"
| "reconcile_loop lib rt appliers readers routing (n # ns) res =
     do {
       f \<leftarrow> reconcile_node lib rt appliers readers routing n res;
       case f of
         Continue res' \<Rightarrow> reconcile_loop lib rt appliers readers routing ns res'
       | Return res' err \<Rightarrow> ret (Return res' err)
     }"

definition Engine_Reconcile ::
    "selector_lib \<Rightarrow> 's runtime \<Rightarrow> (target \<rightharpoonup> 's applier) \<Rightarrow> (target \<rightharpoonup> 's reader) \<Rightarrow>
     (string \<rightharpoonup> target) \<Rightarrow> ('s, result \<times> error option) state" where
  "Engine_Reconcile lib rt appliers readers routing =
     do {
       f \<leftarrow> reconcile_loop lib rt appliers readers routing (rt_Nodes rt) (zero_result\<lparr>Ready := True\<rparr>);
       case f of
         Continue res \<Rightarrow> ret (res\<lparr>Complete := True\<rparr>, None)
       | Return res err \<Rightarrow> ret (res, err)
     }"

section \<open>Status projection\<close>

definition ProjectStatus :: "'s runtime \<Rightarrow> ('s, error + obj) state" where
  "ProjectStatus rt =
     do {
       r \<leftarrow> rt_InstanceDesired rt;
       case r of
         Inl e \<Rightarrow> ret (Inl e)
       | Inr desired \<Rightarrow>
           (case desired of
              [] \<Rightarrow> ret (Inl (ErrorString ''instance produced no desired object''))
            | d # _ \<Rightarrow> ret (Inr d))
     }"

section \<open>The objects of a pass\<close>

text \<open>
  \<open>desired_at rt n s\<close>: the objects the runtime answers with when the loop reaches the template node
  \<open>n\<close> in state \<open>s\<close>. \<open>asked\<close> collects them, with their nodes, along the run of the loop, up to and
  including the node at which it ends early.
\<close>

definition desired_at :: "'s runtime \<Rightarrow> node \<Rightarrow> 's \<Rightarrow> obj list" where
  "desired_at rt n s =
     (if is_external n then []
      else case run_state (rt_IsIgnored rt n) s of
        (Inr False, s1) \<Rightarrow>
          (case run_state (rt_GetDesired rt n) s1 of (Inr ds, _) \<Rightarrow> ds | _ \<Rightarrow> [])
      | _ \<Rightarrow> [])"

fun asked ::
    "selector_lib \<Rightarrow> 's runtime \<Rightarrow> (target \<rightharpoonup> 's applier) \<Rightarrow> (target \<rightharpoonup> 's reader) \<Rightarrow>
     (string \<rightharpoonup> target) \<Rightarrow> node list \<Rightarrow> result \<Rightarrow> 's \<Rightarrow> (node \<times> obj) list" where
  "asked lib rt appliers readers routing [] res s = []"
| "asked lib rt appliers readers routing (n # ns) res s =
     map (Pair n) (desired_at rt n s) @
     (case run_state (reconcile_node lib rt appliers readers routing n res) s of
        (Continue res', s') \<Rightarrow> asked lib rt appliers readers routing ns res' s'
      | (Return res' err, s') \<Rightarrow> [])"

definition pass_objects ::
    "selector_lib \<Rightarrow> 's runtime \<Rightarrow> (target \<rightharpoonup> 's applier) \<Rightarrow> (target \<rightharpoonup> 's reader) \<Rightarrow>
     (string \<rightharpoonup> target) \<Rightarrow> 's \<Rightarrow> (node \<times> obj) list" where
  "pass_objects lib rt appliers readers routing s =
     asked lib rt appliers readers routing (rt_Nodes rt) (zero_result\<lparr>Ready := True\<rparr>) s"

lemma desired_at_in:
  assumes "\<not> is_external n" and "run_state (rt_IsIgnored rt n) s = (Inr False, s1)"
    and "run_state (rt_GetDesired rt n) s1 = (Inr ds, s2)"
  shows "desired_at rt n s = ds"
  using assms by (simp add: desired_at_def)

lemma asked_node: "(n, d) \<in> set (asked lib rt appliers readers routing ns res s) \<Longrightarrow>
    n \<in> set ns \<and> \<not> is_external n \<and> (\<exists>s. d \<in> set (desired_at rt n s))"
proof (induction ns arbitrary: res s)
  case Nil
  then show ?case by simp
next
  case (Cons m ns res s)
  have "\<not> is_external m" if "d \<in> set (desired_at rt m s)" using that by (auto simp: desired_at_def split: if_splits)
  with Cons.prems Cons.IH show ?case by (fastforce split: prod.splits flow.splits)
qed

section \<open>What the engine does to the state\<close>

text \<open>
  The engine touches the state only through the runtime, the readers, and the appliers of the
  targets its template nodes are routed to: whatever those calls preserve, the engine preserves.
  Appliers are only called on objects the runtime asked for (\<open>D\<close> contains them), and external nodes
  call no applier at all.
\<close>

locale engine_run =
  fixes rt :: "'s runtime"
    and appliers :: "target \<rightharpoonup> 's applier"
    and readers :: "target \<rightharpoonup> 's reader"
    and routing :: "string \<rightharpoonup> target"
    and D :: "(node \<times> obj) set"
    and I :: "'s \<Rightarrow> bool"
  assumes keeps_IsIgnored: "keeps I (rt_IsIgnored rt n)"
    and keeps_GetDesired: "keeps I (rt_GetDesired rt n)"
    and keeps_SetObserved: "keeps I (rt_SetObserved rt n obs)"
    and keeps_CheckReadiness: "keeps I (rt_CheckReadiness rt n)"
    and keeps_readers: "readers t = Some rd \<Longrightarrow>
          keeps I (Reader_Get rd g ns nm) \<and> keeps I (Reader_List rd g ns sel)"
    and keeps_appliers: "(n, ob) \<in> D \<Longrightarrow> appliers (TargetForNode (nd_id n) routing) = Some ap \<Longrightarrow>
          keeps I (ap ob)"
begin

lemmas keeps_calls = keeps_IsIgnored keeps_GetDesired keeps_SetObserved keeps_CheckReadiness
  keeps_readers [THEN conjunct1] keeps_readers [THEN conjunct2]

lemma keeps_check_ready: "keeps I (check_ready rt n res)"
  unfolding check_ready_def by (intro keeps_intros keeps_calls)

lemma keeps_external: "keeps I (reconcile_external rt (readers t) t n desired res)"
  unfolding reconcile_external_def
  by (intro keeps_intros keeps_calls keeps_check_ready)

lemma keeps_external_collection:
  "keeps I (reconcile_external_collection lib rt (readers t) t n desired res)"
  unfolding reconcile_external_collection_def
  by (intro keeps_intros keeps_calls keeps_check_ready)

lemma keeps_apply_all:
  assumes "\<And>ob. ob \<in> set obs \<Longrightarrow> keeps I (ap ob)"
  shows "keeps I (apply_all ap obs acc)"
  using assms by (induction ap obs acc rule: apply_all.induct) (auto intro!: keeps_intros)

lemma keeps_template:
  assumes "Pair n ` set desired \<subseteq> D"
  shows "keeps I (reconcile_template rt (appliers (TargetForNode (nd_id n) routing)) t n desired res)"
  unfolding reconcile_template_def
  using assms
  by (intro keeps_intros keeps_calls keeps_check_ready keeps_apply_all keeps_appliers) auto

lemma node_keeps:
  assumes I: "I s" and D: "Pair n ` set (desired_at rt n s) \<subseteq> D"
    and run: "run_state (reconcile_node lib rt appliers readers routing n res) s = (f, s')"
  shows "I s'"
proof -
  obtain b s1 where b: "run_state (rt_IsIgnored rt n) s = (b, s1)" by fastforce
  obtain ds s2 where ds: "run_state (rt_GetDesired rt n) s1 = (ds, s2)" by fastforce
  have I1: "I s1" by (rule keepsD [OF keeps_IsIgnored I b])
  have I2: "I s2" by (rule keepsD [OF keeps_GetDesired I1 ds])
  let ?t = "TargetForNode (nd_id n) routing"
  have ext: "I u" if "run_state (reconcile_external rt (readers ?t) ?t n d res) s2 = (f, u)" for d u
    by (rule keepsD [OF keeps_external I2 that])
  have col: "I u" if "run_state (reconcile_external_collection lib rt (readers ?t) ?t n d res) s2 = (f, u)"
    for d u
    by (rule keepsD [OF keeps_external_collection I2 that])
  have tmp: "I u" if "run_state (reconcile_template rt (appliers ?t) ?t n d res) s2 = (f, u)"
      "b = Inr False" "ds = Inr d" "\<not> is_external n" for d u
    using that desired_at_in [of n rt s s1 d s2] b ds D
    by (intro keepsD [OF keeps_template I2 that(1)]) auto
  from run show "I s'"
    using I1 I2
    by (auto simp: reconcile_node_def b ds is_external_def Let_def dest: ext col tmp
        split: sum.splits bool.splits if_splits node_type.splits)
qed

lemma loop_keeps:
  assumes "I s" and "set (asked lib rt appliers readers routing ns res s) \<subseteq> D"
    and "run_state (reconcile_loop lib rt appliers readers routing ns res) s = (f, s')"
  shows "I s'"
  using assms
proof (induction ns arbitrary: res s)
  case Nil
  then show ?case by simp
next
  case (Cons n ns res s)
  obtain g s1 where node: "run_state (reconcile_node lib rt appliers readers routing n res) s = (g, s1)"
    by fastforce
  have "I s1" using node_keeps [OF Cons.prems(1) _ node] Cons.prems(2) by auto
  with Cons.IH Cons.prems node show ?case by (auto split: flow.splits)
qed

lemma Engine_keeps:
  assumes "I s" and "set (pass_objects lib rt appliers readers routing s) \<subseteq> D"
    and "run_state (Engine_Reconcile lib rt appliers readers routing) s = (r, s')"
  shows "I s'"
proof -
  obtain f s1 where f: "run_state (reconcile_loop lib rt appliers readers routing (rt_Nodes rt)
      (zero_result\<lparr>Ready := True\<rparr>)) s = (f, s1)" by fastforce
  with loop_keeps [OF assms(1) _ f] assms(2,3) show ?thesis
    by (auto simp: Engine_Reconcile_def pass_objects_def split: flow.splits)
qed

end

section \<open>The result of a pass\<close>

fun flow_ok :: "flow \<Rightarrow> bool" where
  "flow_ok (Continue res) \<longleftrightarrow> \<not> Complete res \<and> (Ready res \<longleftrightarrow> \<not> Requeue res)"
| "flow_ok (Return res err) \<longleftrightarrow> \<not> Complete res \<and> (Ready res \<longleftrightarrow> \<not> Requeue res) \<and>
     (err = None \<longrightarrow> \<not> Ready res)"

lemma not_ready_simps [simp]:
  "Ready (not_ready res) = False" "Requeue (not_ready res) = True"
  "Complete (not_ready res) = Complete res"
  by (simp_all add: not_ready_def)

lemma wp_check_ready:
  "flow_ok (Continue res) \<Longrightarrow> wp (check_ready rt n res) (\<lambda>f _. flow_ok f) s"
  unfolding check_ready_def by (auto intro!: wpI split: prod.splits if_splits)

lemma wp_node_flow_ok:
  assumes "flow_ok (Continue res)"
  shows "wp (reconcile_node lib rt appliers readers routing n res) (\<lambda>f _. flow_ok f) s"
proof -
  have cr: "flow_ok f" if "run_state (check_ready rt n res) s = (f, s')" for s f s'
    using wpD [OF wp_check_ready [OF assms] that] .
  from assms show ?thesis
    unfolding reconcile_node_def reconcile_external_def reconcile_external_collection_def
      reconcile_template_def Let_def
    by (intro wpI)
      (auto dest!: cr split: prod.splits sum.splits bool.splits if_splits node_type.splits
        option.splits list.splits)
qed

lemma wp_loop_flow_ok:
  "flow_ok (Continue res) \<Longrightarrow>
   wp (reconcile_loop lib rt appliers readers routing ns res) (\<lambda>f _. flow_ok f) s"
proof (induction ns arbitrary: res s)
  case Nil
  then show ?case by simp
next
  case (Cons n ns res s)
  have "wp (reconcile_node lib rt appliers readers routing n res)
      (\<lambda>f. wp (case f of Continue res' \<Rightarrow> reconcile_loop lib rt appliers readers routing ns res'
        | Return res' err \<Rightarrow> ret (Return res' err)) (\<lambda>f _. flow_ok f)) s"
    by (rule wp_mono [OF wp_node_flow_ok [OF Cons.prems]]) (auto intro: Cons.IH split: flow.splits)
  then show ?case by simp
qed

text \<open>
  C24. The result of a pass is consistent, for every runtime, applier and reader: a pass is complete
  only without an error, it is ready exactly when it asks for no requeue, and a pass that ended
  early without an error (a pending dependency, a missing external object) is not ready and
  requeues.
\<close>

theorem Engine_Reconcile_result:
  "case run_state (Engine_Reconcile lib rt appliers readers routing) s of ((res, err), s') \<Rightarrow>
     (Complete res \<longrightarrow> err = None) \<and> (Ready res \<longleftrightarrow> \<not> Requeue res) \<and>
     (err = None \<and> \<not> Complete res \<longrightarrow> \<not> Ready res)"
proof -
  have "flow_ok (Continue (zero_result\<lparr>Ready := True\<rparr>))" by (simp add: zero_result_def)
  from wp_loop_flow_ok [OF this, of lib rt appliers readers routing "rt_Nodes rt" s]
  show ?thesis
    by (auto simp: wp_def Engine_Reconcile_def split: prod.splits flow.splits)
qed

section \<open>What a complete pass has recorded\<close>

text \<open>
  \<open>rec s t\<close> is the set of identities recorded for target \<open>t\<close>; every call keeps what is recorded,
  and a successful apply records the identity of the object it sent (\<open>fin\<close>).
\<close>

locale engine_cover =
  fixes rt :: "'s runtime"
    and appliers :: "target \<rightharpoonup> 's applier"
    and readers :: "target \<rightharpoonup> 's reader"
    and routing :: "string \<rightharpoonup> target"
    and D :: "(node \<times> obj) set"
    and rec :: "'s \<Rightarrow> target \<Rightarrow> child_id set"
    and fin :: "target \<Rightarrow> obj \<Rightarrow> obj"
  assumes mono: "engine_run rt appliers readers routing D (\<lambda>s. x \<in> rec s t)"
    and recorded: "(n, ob) \<in> D \<Longrightarrow> t = TargetForNode (nd_id n) routing \<Longrightarrow> appliers t = Some ap \<Longrightarrow>
          run_state (ap ob) s = (Inr ob', s') \<Longrightarrow> child_of (fin t ob) \<in> rec s' t"
begin

definition covered :: "(node \<times> obj) list \<Rightarrow> 's \<Rightarrow> bool" where
  "covered ps s \<longleftrightarrow> (\<forall>(n, d) \<in> set ps. let t = TargetForNode (nd_id n) routing in
     child_of (fin t d) \<in> rec s t)"

lemma covered_append: "covered (ps @ qs) s \<longleftrightarrow> covered ps s \<and> covered qs s"
  by (auto simp: covered_def)

lemma covered_mono:
  assumes "\<And>x t. x \<in> rec s t \<Longrightarrow> x \<in> rec s' t" and "covered ps s"
  shows "covered ps s'"
  using assms by (auto simp: covered_def Let_def)

lemma apply_all_covered:
  assumes ap: "appliers (TargetForNode (nd_id n) routing) = Some ap"
    and D: "Pair n ` set obs \<subseteq> D"
    and run: "run_state (apply_all ap obs acc) s = (Inr os, s')"
  shows "covered (map (Pair n) obs) s'"
  using D run
proof (induction obs arbitrary: acc s)
  case Nil
  then show ?case by (simp add: covered_def)
next
  case (Cons ob obs)
  let ?t = "TargetForNode (nd_id n) routing"
  from Cons.prems(2) obtain o1 s1 where ob: "run_state (ap ob) s = (Inr o1, s1)"
    and rest: "run_state (apply_all ap obs (acc @ [o1])) s1 = (Inr os, s')"
    by (auto split: prod.splits sum.splits)
  have r: "child_of (fin ?t ob) \<in> rec s1 ?t"
    using recorded [OF _ refl ap ob] Cons.prems(1) by simp
  have "keeps (\<lambda>s. child_of (fin ?t ob) \<in> rec s ?t) (apply_all ap obs (acc @ [o1]))"
    using engine_run.keeps_appliers [OF mono _ ap] Cons.prems(1)
    by (intro engine_run.keeps_apply_all [OF mono]) auto
  from keepsD [OF this r rest] Cons.IH [OF _ rest] Cons.prems(1) show ?case
    by (simp add: covered_def)
qed

lemma node_covered:
  assumes D: "Pair n ` set (desired_at rt n s) \<subseteq> D"
    and run: "run_state (reconcile_node lib rt appliers readers routing n res) s = (Continue res', s')"
  shows "covered (map (Pair n) (desired_at rt n s)) s'"
proof (cases "desired_at rt n s = []")
  case True
  then show ?thesis by (simp add: covered_def)
next
  case False
  let ?t = "TargetForNode (nd_id n) routing"
  from False obtain s1 ds s2 where ext: "\<not> is_external n"
    and b: "run_state (rt_IsIgnored rt n) s = (Inr False, s1)"
    and ds: "run_state (rt_GetDesired rt n) s1 = (Inr ds, s2)"
    by (auto simp: desired_at_def split: if_splits prod.splits sum.splits bool.splits)
  note dn = desired_at_in [OF ext b ds]
  from run b ds ext have "run_state (reconcile_template rt (appliers ?t) ?t n ds res) s2 = (Continue res', s')"
    by (auto simp: reconcile_node_def is_external_def Let_def split: node_type.splits)
  then obtain ap os s3 s4 where ap: "appliers ?t = Some ap"
    and all: "run_state (apply_all ap ds []) s2 = (Inr os, s3)"
    and obs: "run_state (rt_SetObserved rt n os) s3 = ((), s4)"
    and cr: "run_state (check_ready rt n res) s4 = (Continue res', s')"
    by (auto simp: reconcile_template_def split: option.splits prod.splits sum.splits)
  have "x \<in> rec s' t" if "x \<in> rec s3 t" for x t
    using keepsD [OF engine_run.keeps_SetObserved [OF mono] that obs]
      keepsD [OF engine_run.keeps_check_ready [OF mono] _ cr] by blast
  from covered_mono [OF this] apply_all_covered [OF ap _ all] D dn show ?thesis by simp
qed

lemma loop_covered:
  assumes "set (asked lib rt appliers readers routing ns res s) \<subseteq> D"
    and "run_state (reconcile_loop lib rt appliers readers routing ns res) s = (Continue res', s')"
  shows "covered (asked lib rt appliers readers routing ns res s) s'"
  using assms
proof (induction ns arbitrary: res s)
  case Nil
  then show ?case by (simp add: covered_def)
next
  case (Cons n ns res s)
  then obtain res1 s1
    where node: "run_state (reconcile_node lib rt appliers readers routing n res) s = (Continue res1, s1)"
      and rest: "run_state (reconcile_loop lib rt appliers readers routing ns res1) s1 = (Continue res', s')"
    by (auto split: prod.splits flow.splits)
  from Cons.prems(1) node have D: "Pair n ` set (desired_at rt n s) \<subseteq> D"
    "set (asked lib rt appliers readers routing ns res1 s1) \<subseteq> D" by auto
  have "x \<in> rec s' t" if "x \<in> rec s1 t" for x t
    by (rule engine_run.loop_keeps [OF mono that D(2) rest])
  from covered_mono [OF this node_covered [OF D(1) node]] Cons.IH [OF D(2) rest]
  show ?case by (simp add: covered_append node)
qed

lemma complete_covered:
  assumes "set (pass_objects lib rt appliers readers routing s) \<subseteq> D"
    and "run_state (Engine_Reconcile lib rt appliers readers routing) s = ((res, err), s')"
    and "Complete res"
  shows "covered (pass_objects lib rt appliers readers routing s) s'"
proof -
  let ?init = "zero_result\<lparr>Ready := True\<rparr>"
  obtain f s1 where f: "run_state (reconcile_loop lib rt appliers readers routing (rt_Nodes rt) ?init) s = (f, s1)"
    by fastforce
  have "flow_ok f"
    by (rule wpD [OF wp_loop_flow_ok f]) (simp add: zero_result_def)
  with assms(2,3) f obtain res' where "f = Continue res'" and "s1 = s'"
    by (cases f) (auto simp: Engine_Reconcile_def)
  with loop_covered assms(1) f show ?thesis unfolding pass_objects_def by blast
qed

end

end
