(* ===== verification/GC.thy ===== *)
theory GC
  imports Engine
begin

text \<open>
  Deleting by label: the loop that the instance reconciler (on delete and on prune) and the orphan
  sweeper run over a list of kinds. For each kind it lists the objects with a label selector and
  deletes those that are not to be kept, ignoring not-found, and stops at the first other error.
  The facts about it are proved once, for any API server that satisfies \<open>api_plane\<close>.
\<close>

fun delete_each :: "'w client \<Rightarrow> (obj \<Rightarrow> string) \<Rightarrow> obj list \<Rightarrow> ('w, error option) state" where
  "delete_each c msg [] = ret None"
| "delete_each c msg (ob # obs) =
     do {
       err \<leftarrow> c_delete c ob;
       case IgnoreNotFound err of
         Some e \<Rightarrow> ret (Some (Wrapped (msg ob) e))
       | None \<Rightarrow> delete_each c msg obs
     }"

text \<open>
  \<open>lgvk\<close> is the GVK put on the list, \<open>lmsg\<close> and \<open>dmsg\<close> are the error texts, \<open>keep\<close> says which
  listed objects stay.
\<close>

fun gc_kinds ::
    "'w client \<Rightarrow> (gvk \<Rightarrow> gvk) \<Rightarrow> (gvk \<Rightarrow> string) \<Rightarrow> (gvk \<Rightarrow> obj \<Rightarrow> string) \<Rightarrow> (gvk \<Rightarrow> obj \<Rightarrow> bool) \<Rightarrow>
     list_option list \<Rightarrow> gvk list \<Rightarrow> ('w, error option) state" where
  "gc_kinds c lgvk lmsg dmsg keep opts [] = ret None"
| "gc_kinds c lgvk lmsg dmsg keep opts (g # gs) =
     do {
       r \<leftarrow> c_list c (lgvk g) opts;
       case r of
         Inl e \<Rightarrow> ret (Some (Wrapped (lmsg g) e))
       | Inr items \<Rightarrow>
           do {
             err \<leftarrow> delete_each c (dmsg g) (filter (\<lambda>i. \<not> keep g i) items);
             case err of
               Some e \<Rightarrow> ret (Some e)
             | None \<Rightarrow> gc_kinds c lgvk lmsg dmsg keep opts gs
           }
     }"

text \<open>
  The outer loop over the planes, \<^verbatim>\<open>for target, cl := range clients\<close>: targets without a client are
  not in the map.
\<close>

fun for_targets ::
    "(target \<rightharpoonup> 'w client) \<Rightarrow> (target \<Rightarrow> 'w client \<Rightarrow> ('w, error option) state) \<Rightarrow> target list \<Rightarrow>
     ('w, error option) state" where
  "for_targets clients body [] = ret None"
| "for_targets clients body (t # ts) =
     (case clients t of
        None \<Rightarrow> for_targets clients body ts
      | Some cl \<Rightarrow>
          do {
            err \<leftarrow> body t cl;
            case err of
              Some e \<Rightarrow> ret (Some e)
            | None \<Rightarrow> for_targets clients body ts
          })"

section \<open>Calls made\<close>

lemma keeps_delete_each:
  assumes "\<And>ob. ob \<in> set obs \<Longrightarrow> keeps I (c_delete c ob)"
  shows "keeps I (delete_each c msg obs)"
  using assms by (induction c msg obs rule: delete_each.induct) (auto intro!: keeps_intros)

lemma keeps_gc_kinds:
  assumes "\<And>lg. keeps I (c_list c lg opts)" and "\<And>ob. keeps I (c_delete c ob)"
  shows "keeps I (gc_kinds c lgvk lmsg dmsg keep opts gs)"
  using assms by (induction gs) (auto intro!: keeps_intros keeps_delete_each)

lemma keeps_for_targets:
  assumes "\<And>t cl. clients t = Some cl \<Longrightarrow> keeps I (body t cl)"
  shows "keeps I (for_targets clients body ts)"
  using assms by (induction ts) (auto intro!: keeps_intros split: option.splits)

text \<open>
  When the body for one plane leaves the stores of the other planes alone, every plane is processed
  once, from the store it had at the start.
\<close>

lemma for_targets_each:
  assumes apart: "\<And>t cl t' m. clients t = Some cl \<Longrightarrow> t' \<noteq> t \<Longrightarrow> keeps (\<lambda>w. objs t' w = m) (body t cl)"
    and body: "\<And>t cl w w'. clients t = Some cl \<Longrightarrow> run_state (body t cl) w = (None, w') \<Longrightarrow>
      P t (objs t w) (objs t w')"
    and "distinct ts" and "run_state (for_targets clients body ts) w = (None, w')"
    and "t \<in> set ts" and "clients t = Some cl"
  shows "P t (objs t w) (objs t w')"
  using assms(3-6)
proof (induction ts arbitrary: w)
  case Nil
  then show ?case by simp
next
  case (Cons u ts)
  show ?case
  proof (cases "clients u")
    case None
    with Cons show ?thesis by (auto split: if_splits)
  next
    case (Some cu)
    with Cons.prems obtain w1 where b: "run_state (body u cu) w = (None, w1)"
      and rest: "run_state (for_targets clients body ts) w1 = (None, w')"
      by (auto split: prod.splits option.splits)
    show ?thesis
    proof (cases "u = t")
      case True
      have "keeps (\<lambda>w. objs t w = objs t w1) (for_targets (clients(t := None)) body ts)"
        by (rule keeps_for_targets) (auto intro: apart split: if_splits)
      moreover have "for_targets (clients(t := None)) body ts = for_targets clients body ts"
        using Cons.prems(1) True by (induction ts) (auto split: option.splits)
      ultimately have "objs t w' = objs t w1" using rest by (auto dest: keepsD)
      with body [OF Some b] True show ?thesis by simp
    next
      case False
      with apart [OF Some, of t "objs t w"] b have "objs t w1 = objs t w" by (auto dest: keepsD)
      with Cons.IH [OF _ rest] Cons.prems False show ?thesis by auto
    qed
  qed
qed

section \<open>Servers that do not fail\<close>

text \<open>A client whose list and delete calls never fail (not-found apart).\<close>

definition reliable :: "'w client \<Rightarrow> bool" where
  "reliable cl \<longleftrightarrow> (\<forall>lg opts w. \<exists>os w'. run_state (c_list cl lg opts) w = (Inr os, w')) \<and>
     (\<forall>ob w. IgnoreNotFound (fst (run_state (c_delete cl ob) w)) = None)"

lemma reliable_delete_each:
  assumes "reliable cl"
  shows "fst (run_state (delete_each cl msg obs) w) = None"
proof (induction obs arbitrary: w)
  case (Cons ob obs)
  obtain e w1 where d: "run_state (c_delete cl ob) w = (e, w1)" by fastforce
  with assms have "IgnoreNotFound e = None" unfolding reliable_def by (metis fst_conv)
  with d Cons.IH [of w1] show ?case by simp
qed simp

lemma reliable_gc_kinds:
  assumes "reliable cl"
  shows "fst (run_state (gc_kinds cl lgvk lmsg dmsg keep opts gs) w) = None"
proof (induction gs arbitrary: w)
  case (Cons g gs)
  obtain items w1 where l: "run_state (c_list cl (lgvk g) opts) w = (Inr items, w1)"
    using assms unfolding reliable_def by blast
  obtain e w2 where d: "run_state (delete_each cl (dmsg g) (filter (\<lambda>i. \<not> keep g i) items)) w1 = (e, w2)"
    by fastforce
  with reliable_delete_each [OF assms, of "dmsg g" "filter (\<lambda>i. \<not> keep g i) items" w1] have "e = None" by simp
  with l d Cons.IH [of w2] show ?case by simp
qed simp

section \<open>Effect on the store\<close>

text \<open>\<open>selected opts g m ob\<close>: the store \<open>m\<close> holds \<open>ob\<close>, of kind \<open>g\<close>, and the options admit it.\<close>

definition selected :: "list_option list \<Rightarrow> gvk \<Rightarrow> (objkey \<rightharpoonup> obj) \<Rightarrow> obj \<Rightarrow> bool" where
  "selected opts g m ob \<longleftrightarrow> m (okey ob) = Some ob \<and> o_gvk ob = g \<and> (\<forall>p \<in> set opts. admits p ob)"

text \<open>
  \<open>shrinks m m'\<close>: going from \<open>m\<close> to \<open>m'\<close> objects may disappear or be marked for deletion, but none
  appears, none is relabelled and none is revived.
\<close>

definition shrinks :: "(objkey \<rightharpoonup> obj) \<Rightarrow> (objkey \<rightharpoonup> obj) \<Rightarrow> bool" where
  "shrinks m m' \<longleftrightarrow> (\<forall>k ob'. m' k = Some ob' \<longrightarrow>
     (\<exists>ob. m k = Some ob \<and> o_labels ob' = o_labels ob \<and> (terminating ob \<longrightarrow> terminating ob')))"

lemma shrinks_refl [simp]: "shrinks m m"
  by (simp add: shrinks_def)

lemma shrinks_trans: "shrinks m m' \<Longrightarrow> shrinks m' m'' \<Longrightarrow> shrinks m m''"
  by (fastforce simp: shrinks_def)

lemma shrinksE:
  assumes "shrinks m m'" and "m' k = Some ob'"
  obtains ob where "m k = Some ob" "o_labels ob' = o_labels ob" "terminating ob \<Longrightarrow> terminating ob'"
  using assms unfolding shrinks_def by blast

lemma shrinks_gone: "shrinks m m' \<Longrightarrow> gone m k \<Longrightarrow> gone m' k"
  unfolding gone_def by (metis shrinksE)

lemma admits_labels:
  assumes "labels_of a = labels_of b" and "okey a = okey b"
  shows "admits p a = admits p b"
  using assms by (cases p) (auto simp: okey_def)

context api_plane
begin

lemma delete_shrinks:
  "run_state (c_delete c ob) w = (r, w') \<Longrightarrow> shrinks (objs w) (objs w')"
  using delete_keeps unfolding shrinks_def by blast

lemma delete_each_Cons:
  assumes "run_state (delete_each c msg (ob # obs)) w = (r, w')"
  obtains (stopped) e x where "run_state (c_delete c ob) w = (Some e, w')" "IgnoreNotFound (Some e) = Some x"
      "r = Some (Wrapped (msg ob) x)"
  | (deleted) e w1 where "run_state (c_delete c ob) w = (e, w1)" "IgnoreNotFound e = None"
      "run_state (delete_each c msg obs) w1 = (r, w')"
  using assms
  by (auto split: prod.splits option.splits) (metis IgnoreNotFound_def option.collapse option.simps(4))

lemma delete_each_shrinks:
  "run_state (delete_each c msg obs) w = (r, w') \<Longrightarrow> shrinks (objs w) (objs w')"
proof (induction obs arbitrary: w)
  case Nil
  then show ?case by simp
next
  case (Cons ob obs)
  from Cons.prems show ?case
    by (cases rule: delete_each_Cons) (blast intro: delete_shrinks shrinks_trans Cons.IH)+
qed

lemma delete_each_gone:
  "run_state (delete_each c msg obs) w = (None, w') \<Longrightarrow> \<forall>ob \<in> set obs. gone (objs w') (okey ob)"
proof (induction obs arbitrary: w)
  case Nil
  then show ?case by simp
next
  case (Cons ob obs)
  from Cons.prems show ?case
  proof (cases rule: delete_each_Cons)
    case (deleted e w1)
    with Cons.IH [OF deleted(3)] delete_ok [OF deleted(1,2)] delete_each_shrinks [OF deleted(3)]
    show ?thesis by (auto intro: shrinks_gone)
  qed simp
qed

lemma delete_each_frame:
  "run_state (delete_each c msg obs) w = (r, w') \<Longrightarrow>
   (\<And>ob. ob \<in> set obs \<Longrightarrow> \<not> same_object k (okey ob)) \<Longrightarrow> objs w' k = objs w k"
proof (induction obs arbitrary: w)
  case Nil
  then show ?case by simp
next
  case (Cons ob obs)
  from Cons.prems(1) show ?case
  proof (cases rule: delete_each_Cons)
    case (stopped e x)
    then show ?thesis using delete_frame Cons.prems(2) by simp
  next
    case (deleted e w1)
    with Cons.IH [OF deleted(3)] Cons.prems(2) delete_frame [OF deleted(1), of k] show ?thesis by simp
  qed
qed

lemma gc_kinds_Cons:
  assumes "run_state (gc_kinds c lgvk lmsg dmsg keep opts (g # gs)) w = (r, w')"
  obtains (list_failed) e where "run_state (c_list c (lgvk g) opts) w = (Inl e, w')" "r = Some (Wrapped (lmsg g) e)"
  | (delete_failed) items e w1 where "run_state (c_list c (lgvk g) opts) w = (Inr items, w1)"
      "run_state (delete_each c (dmsg g) (filter (\<lambda>i. \<not> keep g i) items)) w1 = (Some e, w')" "r = Some e"
  | (next_kind) items w1 w2 where "run_state (c_list c (lgvk g) opts) w = (Inr items, w1)"
      "run_state (delete_each c (dmsg g) (filter (\<lambda>i. \<not> keep g i) items)) w1 = (None, w2)"
      "run_state (gc_kinds c lgvk lmsg dmsg keep opts gs) w2 = (r, w')"
  using assms by (auto split: prod.splits sum.splits option.splits)

lemma gc_kinds_shrinks:
  "run_state (gc_kinds c lgvk lmsg dmsg keep opts gs) w = (r, w') \<Longrightarrow> shrinks (objs w) (objs w')"
proof (induction gs arbitrary: w)
  case Nil
  then show ?case by simp
next
  case (Cons g gs)
  from Cons.prems show ?case
  proof (cases rule: gc_kinds_Cons)
    case (list_failed e)
    then show ?thesis by (simp add: list_frame)
  next
    case (delete_failed items e w1)
    then show ?thesis using delete_each_shrinks list_frame by metis
  next
    case (next_kind items w1 w2)
    then show ?thesis using delete_each_shrinks list_frame Cons.IH shrinks_trans by metis
  qed
qed

text \<open>
  After an error-free run, an object of one of the kinds that the selector still admits is marked
  for deletion or one of those to keep.
\<close>

lemma gc_kinds_done:
  assumes key: "\<And>g a b. okey a = okey b \<Longrightarrow> keep g a = keep g b"
    and "run_state (gc_kinds c lgvk lmsg dmsg keep opts gs) w = (None, w')"
    and "g \<in> set gs" and sel: "selected opts (item_gvk (lgvk g)) (objs w') ob"
  shows "terminating ob \<or> keep g ob"
  using assms(2,3)
proof (induction gs arbitrary: w)
  case Nil
  then show ?case by simp
next
  case (Cons h gs)
  from Cons.prems(1) show ?case
  proof (cases rule: gc_kinds_Cons)
    case (next_kind items w1 w2)
    show ?thesis
    proof (cases "g \<in> set gs")
      case True
      then show ?thesis using Cons.IH next_kind by blast
    next
      case False
      with Cons.prems have g: "h = g" by simp
      have sh2: "shrinks (objs w2) (objs w')" by (rule gc_kinds_shrinks [OF next_kind(3)])
      have "shrinks (objs w1) (objs w2)" by (rule delete_each_shrinks [OF next_kind(2)])
      with sh2 have "shrinks (objs w) (objs w')"
        using list_frame [OF next_kind(1)] shrinks_trans by metis
      then obtain b where b: "objs w (okey ob) = Some b" "o_labels ob = o_labels b"
        using sel by (elim shrinksE) (auto simp: selected_def)
      then have bo: "okey b = okey ob" by (simp add: objs_key)
      then have "b \<in> set items"
        using list_found [OF next_kind(1)] b sel g admits_labels [of ob b]
        by (auto simp: selected_def labels_of_def okey_def)
      with delete_each_gone [OF next_kind(2)] bo g have "keep g b \<or> gone (objs w2) (okey ob)" by auto
      then have "keep g ob \<or> gone (objs w') (okey ob)"
        using key [OF bo] shrinks_gone [OF sh2, of "okey ob"] by blast
      with sel show ?thesis by (auto simp: gone_def selected_def)
    qed
  qed auto
qed

text \<open>An object that is not among those to delete (under any API version) is left as it is.\<close>

lemma gc_kinds_frame:
  assumes key: "\<And>g a b. okey a = okey b \<Longrightarrow> keep g a = keep g b"
    and "run_state (gc_kinds c lgvk lmsg dmsg keep opts gs) w = (r, w')"
    and "\<And>g ob. g \<in> set gs \<Longrightarrow> selected opts (item_gvk (lgvk g)) (objs w) ob \<Longrightarrow> \<not> keep g ob \<Longrightarrow>
           \<not> same_object k (okey ob)"
  shows "objs w' k = objs w k"
  using assms(2,3)
proof (induction gs arbitrary: w)
  case Nil
  then show ?case by simp
next
  case (Cons g gs)
  have hit: "\<not> same_object k (okey ob)"
    if "run_state (c_list c (lgvk g) opts) w = (Inr items, w1)"
      "ob \<in> set (filter (\<lambda>i. \<not> keep g i) items)" for items w1 ob
    using that list_found [OF that(1)] Cons.prems(2) [of g ob] by (auto simp: selected_def)
  from Cons.prems(1) show ?case
  proof (cases rule: gc_kinds_Cons)
    case (list_failed e)
    then show ?thesis by (simp add: list_frame)
  next
    case (delete_failed items e w1)
    with delete_each_frame [OF delete_failed(2) hit [OF delete_failed(1)]] show ?thesis
      by (simp add: list_frame)
  next
    case (next_kind items w1 w2)
    have eq: "objs w2 k = objs w k"
      using delete_each_frame [OF next_kind(2) hit [OF next_kind(1)]] list_frame [OF next_kind(1)] by simp
    have sh: "shrinks (objs w) (objs w2)"
      using delete_each_shrinks [OF next_kind(2)] list_frame [OF next_kind(1)] by simp
    have "\<not> same_object k (okey ob)"
      if h: "h \<in> set gs" "selected opts (item_gvk (lgvk h)) (objs w2) ob" "\<not> keep h ob" for h ob
    proof -
      from sh obtain b where b: "objs w (okey ob) = Some b" "o_labels ob = o_labels b"
        using h(2) by (elim shrinksE) (auto simp: selected_def)
      then have bo: "okey b = okey ob" by (simp add: objs_key)
      with b h have "selected opts (item_gvk (lgvk h)) (objs w) b" "\<not> keep h b"
        using admits_labels [of ob b] key [OF bo]
        by (auto simp: selected_def labels_of_def okey_def)
      with Cons.prems(2) [of h b] h(1) bo show ?thesis by simp
    qed
    with Cons.IH [OF next_kind(3)] eq show ?thesis by simp
  qed
qed

end

end
