(* ===== verification/Reconciler.thy ===== *)
theory Reconciler
  imports GC
begin

text \<open>
  The instance reconciler: \<^verbatim>\<open>src/internal/controller/reconciler.go\<close>. One call of \<open>Reconcile\<close> is one
  pass over one instance: finalizer handling, deletion with cross-workspace garbage collection, the
  engine run over the per-target applier chains, the liveness record, pruning, status projection
  and conditions.

  \<open>env\<close> collects what the code calls outside the repository: kro's \<^verbatim>\<open>runtime.FromGraph\<close>, the label
  selector conversions, the clock, \<^verbatim>\<open>meta.SetStatusCondition\<close> and the conversion of conditions to
  and from unstructured content. \<open>env_order\<close> is the order in which Go iterates over a map keyed by
  target.
\<close>

section \<open>State and environment\<close>

record condition =
  cond_type :: string
  cond_status :: string
  cond_observedGeneration :: int
  cond_lastTransitionTime :: time
  cond_reason :: string
  cond_message :: string

record ('rt, 'w) env =
  env_FromGraph :: "graph \<Rightarrow> obj \<Rightarrow> error + ('rt runtime \<times> 'rt)"
  env_selectors :: selector_lib
  env_Now :: "('w, time) state"
  env_SetStatusCondition :: "condition list \<Rightarrow> condition \<Rightarrow> ('w, condition list) state"
  env_decode_condition :: "(string \<rightharpoonup> json) \<Rightarrow> error + condition"
  env_encode_condition :: "condition \<Rightarrow> error + json"
  env_order :: "target list"

record 'w reconciler =
  rc_Graph :: graph
  rc_ProviderClient :: "'w client"
  rc_HostClient :: "'w client option"
  rc_InstanceGVK :: gvk
  rc_BlueprintName :: string
  rc_RecordNamespace :: string
  rc_Routing :: "string \<rightharpoonup> target"

definition defaultRecordNamespace :: string where
  "defaultRecordNamespace = ''default''"

definition recordNamespace :: "'w reconciler \<Rightarrow> string" where
  "recordNamespace r =
     (if rc_RecordNamespace r \<noteq> '''' then rc_RecordNamespace r else defaultRecordNamespace)"

section \<open>Child kinds\<close>

fun childGVKs_loop :: "(string \<rightharpoonup> target) \<Rightarrow> target \<Rightarrow> node list \<Rightarrow> gvk list \<Rightarrow> gvk list" where
  "childGVKs_loop routing t [] out = out"
| "childGVKs_loop routing t (n # ns) out =
     (if nd_type n = NodeTypeExternal \<or> nd_type n = NodeTypeExternalCollection
      then childGVKs_loop routing t ns out
      else if TargetForNode (nd_id n) routing \<noteq> t then childGVKs_loop routing t ns out
      else if nd_gvk n \<in> set out then childGVKs_loop routing t ns out
      else childGVKs_loop routing t ns (out @ [nd_gvk n]))"

definition childGVKs :: "'w reconciler \<Rightarrow> target \<Rightarrow> gvk list" where
  "childGVKs r t = childGVKs_loop (rc_Routing r) t (g_nodes (rc_Graph r)) []"

definition gvk_token :: "gvk \<Rightarrow> string" where
  "gvk_token g = gvk_group g @ ''/'' @ gvk_version g @ ''/'' @ gvk_kind g"

definition childGVKString :: "'w reconciler \<Rightarrow> target \<Rightarrow> string" where
  "childGVKString r t = go_join '','' (map gvk_token (childGVKs r t))"

section \<open>Deleting and pruning children\<close>

definition target_clients :: "'w reconciler \<Rightarrow> 'w client \<Rightarrow> (target \<rightharpoonup> 'w client)" where
  "target_clients r cc =
     (case rc_HostClient r of
        None \<Rightarrow> [TargetConsumer \<mapsto> cc, TargetProvider \<mapsto> rc_ProviderClient r]
      | Some hc \<Rightarrow> [TargetConsumer \<mapsto> cc, TargetProvider \<mapsto> rc_ProviderClient r, TargetHost \<mapsto> hc])"

definition uid_selector :: "string \<Rightarrow> list_option list" where
  "uid_selector instanceUID = [MatchingLabels [(LabelInstanceUID, instanceUID)]]"

definition deleteChildren ::
    "('rt, 'w) env \<Rightarrow> 'w reconciler \<Rightarrow> 'w client \<Rightarrow> string \<Rightarrow> ('w, error option) state" where
  "deleteChildren env r cc uid =
     for_targets (target_clients r cc)
       (\<lambda>t cl. gc_kinds cl (\<lambda>g. g)
          (\<lambda>g. ''listing '' @ gvk_kind g @ '' children: '')
          (\<lambda>g ob. ''deleting '' @ gvk_kind g @ '' '' @ o_name ob @ '': '')
          (\<lambda>g ob. False) (uid_selector uid) (childGVKs r t))
       (env_order env)"

definition pruneChildren ::
    "('rt, 'w) env \<Rightarrow> 'w reconciler \<Rightarrow> 'w client \<Rightarrow> string \<Rightarrow> (target \<Rightarrow> child_id list) \<Rightarrow>
     ('w, error option) state" where
  "pruneChildren env r cc uid applied =
     for_targets (target_clients r cc)
       (\<lambda>t cl. gc_kinds cl (\<lambda>g. g)
          (\<lambda>g. ''listing '' @ gvk_kind g @ '' children for prune: '')
          (\<lambda>g ob. ''pruning '' @ gvk_kind g @ '' '' @ o_name ob @ '': '')
          (\<lambda>g ob. ChildID g (o_namespace ob) (o_name ob) \<in> set (applied t))
          (uid_selector uid) (childGVKs r t))
       (env_order env)"

section \<open>The liveness record\<close>

definition record_labels :: "'w reconciler \<Rightarrow> string \<Rightarrow> string \<Rightarrow> (string \<rightharpoonup> string)" where
  "record_labels r clusterName instanceUID =
     [LabelInstanceUID \<mapsto> instanceUID, LabelConsumerCluster \<mapsto> clusterName,
      LabelBlueprint \<mapsto> rc_BlueprintName r, LabelLiveness \<mapsto> ''true'']"

definition record_data :: "'w reconciler \<Rightarrow> time \<Rightarrow> (string \<rightharpoonup> string)" where
  "record_data r now =
     [''lastReconciled'' \<mapsto> format_RFC3339 now,
      ''providerChildGVKs'' \<mapsto> childGVKString r TargetProvider,
      ''hostChildGVKs'' \<mapsto> childGVKString r TargetHost]"

definition writeLivenessRecord ::
    "('rt, 'w) env \<Rightarrow> 'w reconciler \<Rightarrow> string \<Rightarrow> string \<Rightarrow> ('w, error option) state" where
  "writeLivenessRecord env r clusterName instanceUID =
     do {
       now \<leftarrow> env_Now env;
       let labels = record_labels r clusterName instanceUID;
       let data = record_data r now;
       let ns = recordNamespace r;
       let name = LivenessRecordName clusterName instanceUID;
       g \<leftarrow> c_get (rc_ProviderClient r) configMapGVK ns name;
       case g of
         Inl e \<Rightarrow>
           if IsNotFound e then
             do {
               err \<leftarrow> c_create (rc_ProviderClient r) (set_nested_string_map
                        ((new_obj configMapGVK)\<lparr>o_namespace := ns, o_name := name,
                           o_labels := Some labels\<rparr>) ''data'' data);
               ret (map_option (Wrapped (''creating liveness record '' @ name @ '': '')) err)
             }
           else ret (Some (Wrapped (''getting liveness record '' @ name @ '': '') e))
       | Inr existing \<Rightarrow>
           do {
             err \<leftarrow> c_update (rc_ProviderClient r) (set_nested_string_map
                      (existing\<lparr>o_labels := Some labels\<rparr>) ''data'' data);
             ret (map_option (Wrapped (''updating liveness record '' @ name @ '': '')) err)
           }
     }"

definition deleteLivenessRecord :: "'w reconciler \<Rightarrow> string \<Rightarrow> string \<Rightarrow> ('w, error option) state" where
  "deleteLivenessRecord r clusterName instanceUID =
     do {
       let name = LivenessRecordName clusterName instanceUID;
       err \<leftarrow> c_delete (rc_ProviderClient r)
                ((new_obj configMapGVK)\<lparr>o_namespace := recordNamespace r, o_name := name\<rparr>);
       ret (map_option (Wrapped (''deleting liveness record '' @ name @ '': '')) (IgnoreNotFound err))
     }"

section \<open>Conditions\<close>

definition conditionReady :: string where "conditionReady = ''Ready''"
definition conditionProgressing :: string where "conditionProgressing = ''Progressing''"
definition reasonReady :: string where "reasonReady = ''Ready''"
definition reasonProgressing :: string where "reasonProgressing = ''Progressing''"
definition reasonReconciled :: string where "reasonReconciled = ''Reconciled''"

lemmas condition_names = conditionReady_def conditionProgressing_def reasonReady_def
  reasonProgressing_def reasonReconciled_def

text \<open>The two conditions computed from the engine result.\<close>

definition ready_condition :: "result \<Rightarrow> int \<Rightarrow> condition" where
  "ready_condition res generation =
     \<lparr>cond_type = conditionReady,
      cond_status = (if Ready res then ''True'' else ''False''),
      cond_observedGeneration = generation, cond_lastTransitionTime = 0,
      cond_reason = (if Ready res then reasonReady else reasonProgressing),
      cond_message = (if Ready res then ''all resources are ready''
                      else ''waiting for resources to become ready'')\<rparr>"

definition progressing_condition :: "result \<Rightarrow> int \<Rightarrow> condition" where
  "progressing_condition res generation =
     \<lparr>cond_type = conditionProgressing,
      cond_status = (if Ready res then ''False'' else ''True''),
      cond_observedGeneration = generation, cond_lastTransitionTime = 0,
      cond_reason = (if Ready res then reasonReconciled else reasonProgressing),
      cond_message = (if Ready res then ''reconcile complete'' else ''reconcile in progress'')\<rparr>"

definition applyResultConditions ::
    "('rt, 'w) env \<Rightarrow> condition list \<Rightarrow> result \<Rightarrow> int \<Rightarrow> ('w, condition list) state" where
  "applyResultConditions env conditions res generation =
     do {
       c1 \<leftarrow> env_SetStatusCondition env conditions (ready_condition res generation);
       env_SetStatusCondition env c1 (progressing_condition res generation)
     }"

definition nested_conditions :: "obj \<Rightarrow> json list option" where
  "nested_conditions inst =
     (case nested_map inst ''status'' of
        None \<Rightarrow> None
      | Some m \<Rightarrow> (case m ''conditions'' of Some (JArr raw) \<Rightarrow> Some raw | _ \<Rightarrow> None))"

fun decode_conditions :: "('rt, 'w) env \<Rightarrow> json list \<Rightarrow> condition list" where
  "decode_conditions env [] = []"
| "decode_conditions env (item # items) =
     (case item of
        JObj m \<Rightarrow>
          (case env_decode_condition env m of
             Inl _ \<Rightarrow> decode_conditions env items
           | Inr c \<Rightarrow> c # decode_conditions env items)
      | _ \<Rightarrow> decode_conditions env items)"

definition readConditions :: "('rt, 'w) env \<Rightarrow> obj \<Rightarrow> condition list" where
  "readConditions env inst =
     (case nested_conditions inst of None \<Rightarrow> [] | Some raw \<Rightarrow> decode_conditions env raw)"

fun encode_conditions :: "('rt, 'w) env \<Rightarrow> condition list \<Rightarrow> error + json list" where
  "encode_conditions env [] = Inr []"
| "encode_conditions env (c # cs) =
     (case env_encode_condition env c of
        Inl e \<Rightarrow> Inl (Wrapped ''encoding condition: '' e)
      | Inr m \<Rightarrow> (case encode_conditions env cs of Inl e \<Rightarrow> Inl e | Inr ms \<Rightarrow> Inr (m # ms)))"

text \<open>\<^verbatim>\<open>SetNestedSlice\<close> creates a missing status and fails when the status is not a map.\<close>

definition writeConditions :: "('rt, 'w) env \<Rightarrow> obj \<Rightarrow> condition list \<Rightarrow> error + obj" where
  "writeConditions env inst conditions =
     (case encode_conditions env conditions of
        Inl e \<Rightarrow> Inl e
      | Inr raw \<Rightarrow>
          (case o_content inst ''status'' of
             None \<Rightarrow> Inr (set_nested_map inst ''status'' [''conditions'' \<mapsto> JArr raw])
           | Some (JObj m) \<Rightarrow> Inr (set_nested_map inst ''status'' (m(''conditions'' \<mapsto> JArr raw)))
           | Some _ \<Rightarrow> Inl (ErrorString ''status is not a map'')))"

section \<open>The reconcile pass\<close>

definition removeString :: "string list \<Rightarrow> string \<Rightarrow> string list" where
  "removeString s v = filter (\<lambda>x. x \<noteq> v) s"

definition lift_runtime :: "'rt runtime \<Rightarrow> ('rt, 'w) pass runtime" where
  "lift_runtime rt =
     \<lparr>rt_Nodes = rt_Nodes rt,
      rt_IsIgnored = (\<lambda>n. lift_rt (rt_IsIgnored rt n)),
      rt_GetDesired = (\<lambda>n. lift_rt (rt_GetDesired rt n)),
      rt_SetObserved = (\<lambda>n obs. lift_rt (rt_SetObserved rt n obs)),
      rt_CheckReadiness = (\<lambda>n. lift_rt (rt_CheckReadiness rt n)),
      rt_InstanceDesired = lift_rt (rt_InstanceDesired rt)\<rparr>"

definition pass_appliers ::
    "'w reconciler \<Rightarrow> 'w client \<Rightarrow> string \<Rightarrow> obj \<Rightarrow> (target \<rightharpoonup> ('rt, 'w) pass applier)" where
  "pass_appliers r cc clusterName inst =
     (let labels = GCLabels (o_uid inst) clusterName (rc_BlueprintName r);
          base = [TargetConsumer \<mapsto> consumer_applier cc inst labels,
                  TargetProvider \<mapsto> qualified_applier (rc_ProviderClient r) TargetProvider
                    clusterName (o_name inst) labels]
      in case rc_HostClient r of
           None \<Rightarrow> base
         | Some hc \<Rightarrow> base(TargetHost \<mapsto>
             qualified_applier hc TargetHost clusterName (o_name inst) labels))"

definition pass_readers :: "'w reconciler \<Rightarrow> 'w client \<Rightarrow> (target \<rightharpoonup> ('rt, 'w) pass reader)" where
  "pass_readers r cc =
     (let base = [TargetConsumer \<mapsto> NewClientReader cc,
                  TargetProvider \<mapsto> NewClientReader (rc_ProviderClient r)]
      in case rc_HostClient r of
           None \<Rightarrow> base
         | Some hc \<Rightarrow> base(TargetHost \<mapsto> NewClientReader hc))"

text \<open>Run the engine with fresh sinks; the runtime and the sinks are local to the pass.\<close>

definition run_pass :: "(('rt, 'w) pass, 'a) state \<Rightarrow> 'rt \<Rightarrow>
    ('w, 'a \<times> 'rt \<times> (target \<Rightarrow> child_id list)) state" where
  "run_pass m rt0 = State (\<lambda>w.
     (case run_state m \<lparr>p_rt = rt0, p_world = w, p_applied = (\<lambda>_. [])\<rparr> of
        (a, p) \<Rightarrow> ((a, p_rt p, p_applied p), p_world p)))"

definition project_status :: "'rt runtime \<Rightarrow> 'rt \<Rightarrow> obj \<Rightarrow> obj" where
  "project_status rt rt1 inst =
     (case fst (run_state (ProjectStatus rt) rt1) of
        Inl _ \<Rightarrow> inst
      | Inr desired \<Rightarrow>
          (case nested_map desired ''status'' of
             None \<Rightarrow> inst
           | Some status \<Rightarrow> set_nested_map inst ''status'' status))"

definition finish_pass ::
    "('rt, 'w) env \<Rightarrow> 'w client \<Rightarrow> obj \<Rightarrow> 'rt runtime \<Rightarrow> 'rt \<Rightarrow> result \<Rightarrow>
     ('w, result \<times> error option) state" where
  "finish_pass env cc inst rt rt1 res0 =
     do {
       let res = res0\<lparr>Requeue := True\<rparr>;
       let conditions = readConditions env inst;
       let inst1 = project_status rt rt1 inst;
       conditions' \<leftarrow> applyResultConditions env conditions res (o_generation inst1);
       let inst2 = (case writeConditions env inst1 conditions' of Inl _ \<Rightarrow> inst1 | Inr i \<Rightarrow> i);
       _ \<leftarrow> c_status_update cc inst2;
       ret (res, None)
     }"

definition reconcile_apply ::
    "('rt, 'w) env \<Rightarrow> 'w reconciler \<Rightarrow> 'w client \<Rightarrow> string \<Rightarrow> obj \<Rightarrow>
     ('w, result \<times> error option) state" where
  "reconcile_apply env r cc clusterName inst =
     (case env_FromGraph env (rc_Graph r) (StampConsumerCluster inst clusterName) of
        Inl e \<Rightarrow> ret (zero_result, Some (Wrapped ''runtime: '' e))
      | Inr (rt, rt0) \<Rightarrow>
          do {
            (re, rt1, applied) \<leftarrow>
              run_pass (Engine_Reconcile (env_selectors env) (lift_runtime rt)
                (pass_appliers r cc clusterName inst) (pass_readers r cc) (rc_Routing r)) rt0;
            case re of
              (res, Some e) \<Rightarrow> ret (res, Some e)
            | (res, None) \<Rightarrow>
                do {
                  werr \<leftarrow> writeLivenessRecord env r clusterName (o_uid inst);
                  case werr of
                    Some e \<Rightarrow> ret (res, Some e)
                  | None \<Rightarrow>
                      do {
                        perr \<leftarrow> (if Complete res \<and> o_deletionTimestamp inst = None
                                 then pruneChildren env r cc (o_uid inst) applied
                                 else ret None);
                        case perr of
                          Some e \<Rightarrow> ret (res, Some e)
                        | None \<Rightarrow> finish_pass env cc inst rt rt1 res
                      }
                }
          })"

definition reconcile_deleting ::
    "('rt, 'w) env \<Rightarrow> 'w reconciler \<Rightarrow> 'w client \<Rightarrow> string \<Rightarrow> obj \<Rightarrow>
     ('w, result \<times> error option) state" where
  "reconcile_deleting env r cc clusterName inst =
     (if Finalizer \<in> set (o_finalizers inst) then
        do {
          err \<leftarrow> deleteChildren env r cc (o_uid inst);
          case err of
            Some e \<Rightarrow> ret (zero_result, Some e)
          | None \<Rightarrow>
              do {
                err2 \<leftarrow> deleteLivenessRecord r clusterName (o_uid inst);
                case err2 of
                  Some e \<Rightarrow> ret (zero_result, Some e)
                | None \<Rightarrow>
                    do {
                      err3 \<leftarrow> c_update cc
                        (inst\<lparr>o_finalizers := removeString (o_finalizers inst) Finalizer\<rparr>);
                      ret (zero_result, err3)
                    }
              }
        }
      else ret (zero_result, None))"

definition Reconcile ::
    "('rt, 'w) env \<Rightarrow> 'w reconciler \<Rightarrow> 'w client \<Rightarrow> string \<Rightarrow> string \<Rightarrow> string \<Rightarrow>
     ('w, result \<times> error option) state" where
  "Reconcile env r cc clusterName ns name =
     do {
       g \<leftarrow> c_get cc (rc_InstanceGVK r) ns name;
       case g of
         Inl e \<Rightarrow> ret (zero_result, IgnoreNotFound (Some e))
       | Inr inst \<Rightarrow>
           if o_deletionTimestamp inst \<noteq> None
           then reconcile_deleting env r cc clusterName inst
           else if Finalizer \<notin> set (o_finalizers inst)
           then do {
             err \<leftarrow> c_update cc (inst\<lparr>o_finalizers := o_finalizers inst @ [Finalizer]\<rparr>);
             ret (zero_result, err)
           }
           else reconcile_apply env r cc clusterName inst
     }"

end
