(* ===== verification/Planes.thy ===== *)
theory Planes
  imports Reconciler
begin

text \<open>
  What one reconciler relies on, put together. \<open>planes\<close> says that each configured client is an API
  server (\<open>api_plane\<close>), that the planes are separate (a call on one leaves the stores of the others
  alone), that the clock and the condition helper touch no store, and that a map keyed by target is
  iterated over in some order. The facts proved in it follow one pass through the stores: what each
  call keeps, what the applier chains do, and what the engine does through them.
\<close>

section \<open>The planes of a reconciler\<close>

definition leaves_store :: "('w \<Rightarrow> objkey \<rightharpoonup> obj) \<Rightarrow> ('w, 'a) state \<Rightarrow> bool" where
  "leaves_store ob m \<longleftrightarrow> (\<forall>v. keeps (\<lambda>w. ob w = v) m)"

definition client_leaves_store :: "('w \<Rightarrow> objkey \<rightharpoonup> obj) \<Rightarrow> 'w client \<Rightarrow> bool" where
  "client_leaves_store ob c \<longleftrightarrow>
     (\<forall>g ns n. leaves_store ob (c_get c g ns n)) \<and> (\<forall>lg opts. leaves_store ob (c_list c lg opts)) \<and>
     (\<forall>x. leaves_store ob (c_create c x)) \<and> (\<forall>x. leaves_store ob (c_update c x)) \<and>
     (\<forall>x. leaves_store ob (c_delete c x)) \<and> (\<forall>fo f x. leaves_store ob (c_apply c fo f x)) \<and>
     (\<forall>x. leaves_store ob (c_status_update c x))"

locale planes =
  fixes env :: "('rt, 'w) env"
    and r :: "'w reconciler"
    and cc :: "'w client"
    and objs :: "target \<Rightarrow> 'w \<Rightarrow> objkey \<rightharpoonup> obj"
  assumes plane: "target_clients r cc t = Some cl \<Longrightarrow> api_plane cl (objs t)"
    and apart: "target_clients r cc t = Some cl \<Longrightarrow> t' \<noteq> t \<Longrightarrow> client_leaves_store (objs t') cl"
    and order: "set (env_order env) = UNIV" "distinct (env_order env)"
    and clock: "leaves_store (objs t) (env_Now env)"
    and set_condition: "leaves_store (objs t) (env_SetStatusCondition env cs cnd)"

lemma leaves_storeD:
  assumes "leaves_store ob m" and "run_state m w = (a, w')"
  shows "ob w' = ob w"
proof -
  from assms(1) have "keeps (\<lambda>v. ob v = ob w) m" by (simp add: leaves_store_def)
  from keepsD [OF this refl assms(2)] show ?thesis .
qed

lemma leaves_storeI:
  assumes "\<And>w a w'. run_state m w = (a, w') \<Longrightarrow> ob w' = ob w"
  shows "leaves_store ob m"
  unfolding leaves_store_def
proof (intro allI keepsI)
  fix v w a w'
  assume "ob w = v" and "run_state m w = (a, w')"
  with assms show "ob w' = v" by blast
qed

lemma client_leaves:
  assumes "client_leaves_store ob c"
  shows "leaves_store ob (c_get c g ns n)" "leaves_store ob (c_list c lg opts)"
    "leaves_store ob (c_create c x)" "leaves_store ob (c_update c x)" "leaves_store ob (c_delete c x)"
    "leaves_store ob (c_apply c fo force x)" "leaves_store ob (c_status_update c x)"
  using assms by (simp_all add: client_leaves_store_def)

lemma target_clients_simps [simp]:
  "target_clients r cc TargetConsumer = Some cc"
  "target_clients r cc TargetProvider = Some (rc_ProviderClient r)"
  "target_clients r cc TargetHost = rc_HostClient r"
  by (auto simp: target_clients_def split: option.splits)

lemma item_gvk_id: "\<not> suffix ''List'' (gvk_kind g) \<Longrightarrow> item_gvk g = g"
  by (simp add: item_gvk_def TrimSuffix_def)

lemma selected_uid:
  "selected (uid_selector u) g m ob \<longleftrightarrow>
     m (okey ob) = Some ob \<and> o_gvk ob = g \<and> labels_of ob LabelInstanceUID = Some u"
  by (simp add: selected_def uid_selector_def)

lemma leaves_keeps: "leaves_store ob m \<Longrightarrow> keeps (\<lambda>w. Q (ob w)) m"
  by (rule keepsI) (simp add: leaves_storeD)

section \<open>Chains and readers per target\<close>

text \<open>The object the chain of target \<open>t\<close> sends for a desired object.\<close>

definition pass_final :: "'w reconciler \<Rightarrow> string \<Rightarrow> obj \<Rightarrow> target \<Rightarrow> obj \<Rightarrow> obj" where
  "pass_final r cn inst t ob =
     (let labels = GCLabels (o_uid inst) cn (rc_BlueprintName r) in
      if t = TargetConsumer then consumer_final inst labels ob
      else qualified_final cn (o_name inst) labels ob)"

lemma pass_final_labels: "GCLabels (o_uid inst) cn (rc_BlueprintName r) \<subseteq>\<^sub>m labels_of (pass_final r cn inst t ob)"
  by (simp add: pass_final_def Let_def)

lemma pass_final_kind: "fst (okey (pass_final r cn inst t ob)) = o_gvk ob"
  by (simp add: pass_final_def Let_def) (simp add: okey_def)

lemma pass_readers_client:
  "pass_readers r cc t = map_option NewClientReader (target_clients r cc t)"
  by (cases t) (auto simp: pass_readers_def Let_def split: option.splits)

lemma pass_appliers_client:
  "pass_appliers r cc cn inst t =
     map_option (\<lambda>cl ob. RecordingApplier_Apply (\<lambda>ob. lift_world (SSAApplier_Apply cl ob)) t
       (pass_final r cn inst t ob)) (target_clients r cc t)"
  by (cases t) (auto simp: pass_appliers_def pass_final_def Let_def consumer_applier_alt
      qualified_applier_alt fun_eq_iff split: option.splits)

section \<open>What each call keeps\<close>

context planes
begin

lemma get_leaves:
  assumes "target_clients r cc t = Some cl"
  shows "leaves_store (objs u) (c_get cl g ns n)"
  using apart [OF assms, of u] api_plane.get_frame [OF plane [OF assms]]
  by (cases "u = t") (auto simp: client_leaves_store_def intro!: leaves_storeI)

lemma list_leaves:
  assumes "target_clients r cc t = Some cl"
  shows "leaves_store (objs u) (c_list cl g opts)"
  using apart [OF assms, of u] api_plane.list_frame [OF plane [OF assms]]
  by (cases "u = t") (auto simp: client_leaves_store_def intro!: leaves_storeI)

lemma SSA_apart:
  assumes "target_clients r cc t = Some cl" and "u \<noteq> t"
  shows "leaves_store (objs u) (SSAApplier_Apply cl ob)"
  using apart [OF assms] unfolding client_leaves_store_def leaves_store_def SSAApplier_Apply_def
  by (intro allI keeps_intros) blast+

lemma applier_apart:
  assumes "pass_appliers r cc cn inst t = Some ap" and "u \<noteq> t" and "run_state (ap ob) p = (x, q)"
  shows "objs u (p_world q) = objs u (p_world p) \<and> p_applied q u = p_applied p u"
proof -
  from assms(1) obtain cl where cl: "target_clients r cc t = Some cl"
    and ap: "ap = (\<lambda>ob. RecordingApplier_Apply (\<lambda>ob. lift_world (SSAApplier_Apply cl ob)) t
       (pass_final r cn inst t ob))"
    by (auto simp: pass_appliers_client)
  show ?thesis
    using assms(3) leaves_storeD [OF SSA_apart [OF cl assms(2)]] assms(2)
    by (auto simp: ap RecordingApplier_Apply_def split: prod.splits sum.splits)
qed

lemma pass_applier:
  assumes "pass_appliers r cc cn inst t = Some ap"
  shows "applier ap (pass_final r cn inst t) (\<lambda>p. objs t (p_world p)) (\<lambda>p. p_applied p t)"
  using assms api_plane.recorded_applier [OF plane]
  by (auto simp: pass_appliers_client)

lemma reader_keeps:
  fixes rd :: "('rt, 'w) pass reader"
  assumes "pass_readers r cc t = Some rd"
  shows "keeps (\<lambda>p. Q (objs u (p_world p)) (p_applied p)) (Reader_Get rd g ns nm) \<and>
    keeps (\<lambda>p. Q (objs u (p_world p)) (p_applied p)) (Reader_List rd g ns sel)"
proof -
  from assms obtain cl where cl: "target_clients r cc t = Some cl" and rd: "rd = NewClientReader cl"
    by (auto simp: pass_readers_client)
  show ?thesis
    using keeps_lift_world [where I = "\<lambda>(_ :: 'rt) w a. Q (objs u w) a", OF leaves_keeps [OF get_leaves [OF cl]]]
      keeps_lift_world [where I = "\<lambda>(_ :: 'rt) w a. Q (objs u w) a", OF leaves_keeps [OF list_leaves [OF cl]]]
    by (simp add: rd NewClientReader_def ClientReader_Get_def ClientReader_List_def)
qed

text \<open>
  The engine run of a pass keeps a predicate on one store and the sinks when the applier chains
  keep it on the objects of the pass.
\<close>

lemma engine_runI:
  assumes "\<And>n ob (ap :: ('rt, 'w) pass applier). (n, ob) \<in> D \<Longrightarrow>
      pass_appliers r cc cn inst (TargetForNode (nd_id n) (rc_Routing r)) = Some ap \<Longrightarrow>
      keeps (\<lambda>p. Q (objs u (p_world p)) (p_applied p)) (ap ob)"
  shows "engine_run (lift_runtime rt) (pass_appliers r cc cn inst) (pass_readers r cc) (rc_Routing r) D
    (\<lambda>p :: ('rt, 'w) pass. Q (objs u (p_world p)) (p_applied p))"
  using assms reader_keeps
  by unfold_locales (auto 0 3 simp: lift_runtime_def intro!: keeps_lift_rt [where I = "\<lambda>w a. Q (objs u w) a"])

lemma present_apply:
  assumes t: "target_clients r cc t = Some cl"
  shows "keeps (\<lambda>w. objs u w k \<noteq> None) (c_apply cl fo force ob)"
proof (cases "u = t")
  case True
  show ?thesis
    by (rule keepsI) (use True api_plane.apply_present [OF plane [OF t]] in blast)
next
  case False
  show ?thesis by (rule leaves_keeps [OF client_leaves(6) [OF apart [OF t False]]])
qed

lemma present_SSA:
  assumes t: "target_clients r cc t = Some cl"
  shows "keeps (\<lambda>w. objs u w k \<noteq> None) (SSAApplier_Apply cl ob)"
  unfolding SSAApplier_Apply_def
  by (intro keeps_intros present_apply [OF t] leaves_keeps [OF get_leaves [OF t]])

lemma present_applier:
  fixes ap :: "('rt, 'w) pass applier"
  assumes "pass_appliers r cc cn inst t = Some ap"
  shows "keeps (\<lambda>p. objs u (p_world p) k \<noteq> None) (ap ob)"
proof -
  from assms obtain cl where cl: "target_clients r cc t = Some cl"
    and ap: "ap = (\<lambda>ob. RecordingApplier_Apply (\<lambda>ob. lift_world (SSAApplier_Apply cl ob)) t
       (pass_final r cn inst t ob))"
    by (auto simp: pass_appliers_client)
  have rc: "keeps (\<lambda>p :: ('rt, 'w) pass. objs u (p_world p) k \<noteq> None) (record_child t i)" for i
    by (rule keepsI) auto
  have "keeps (\<lambda>p :: ('rt, 'w) pass. objs u (p_world p) k \<noteq> None) (lift_world (SSAApplier_Apply cl x))" for x
    using keeps_lift_world [where I = "\<lambda>(_ :: 'rt) w _. objs u w k \<noteq> None"] present_SSA [OF cl] by blast
  with rc show ?thesis unfolding ap RecordingApplier_Apply_def
    by (intro keeps_bind keeps_case_sum keeps_return)
qed

end

text \<open>Whatever the runtime asks for, the engine run of a pass removes no object from any store.\<close>

sublocale planes \<subseteq> present: engine_run "lift_runtime rt" "pass_appliers r cc cn inst"
    "pass_readers r cc" "rc_Routing r" UNIV "\<lambda>p :: ('rt, 'w) pass. objs u (p_world p) k \<noteq> None" for rt cn inst u k
  by (rule engine_runI [where Q = "\<lambda>m _. m k \<noteq> None"]) (rule present_applier)

text \<open>Whatever the runtime asks for, a complete run has recorded it.\<close>

sublocale planes \<subseteq> recorded: engine_cover "lift_runtime rt" "pass_appliers r cc cn inst"
    "pass_readers r cc" "rc_Routing r" UNIV "\<lambda>(p :: ('rt, 'w) pass) t. set (p_applied p t)" "pass_final r cn inst"
    for rt cn inst
proof (rule engine_cover.intro)
  fix x t
  have "keeps (\<lambda>p. x \<in> set (p_applied p t)) (ap ob)"
    if "pass_appliers r cc cn inst t' = Some ap" for ap :: "('rt, 'w) pass applier" and t' ob
  proof (rule keepsI)
    fix p y q
    assume "x \<in> set (p_applied p t)" and run: "run_state (ap ob) p = (y, q)"
    then show "x \<in> set (p_applied q t)"
      using applier.sink_grows [OF pass_applier [OF that] run] applier_apart [OF that _ run, of t]
      by (cases "t = t'") auto
  qed
  then show "engine_run (lift_runtime rt) (pass_appliers r cc cn inst) (pass_readers r cc) (rc_Routing r)
      UNIV (\<lambda>p :: ('rt, 'w) pass. x \<in> set (p_applied p t))"
    by (intro engine_runI [where Q = "\<lambda>_ a. x \<in> set (a t)"]) blast
next
  fix n ob t ap s ob' s'
  assume ap: "pass_appliers r cc cn inst t = Some ap" and run: "run_state (ap ob) s = (Inr ob', s')"
  from applier.apply_result [OF pass_applier [OF ap] run]
  show "child_of (pass_final r cn inst t ob) \<in> set (p_applied s' t)" by simp
qed

section \<open>The record and the status write\<close>

abbreviation record_key :: "'w reconciler \<Rightarrow> string \<Rightarrow> string \<Rightarrow> objkey" where
  "record_key r cn uid \<equiv> (configMapGVK, recordNamespace r, LivenessRecordName cn uid)"

lemma okey_status [simp]:
  "okey (project_status rt rt1 inst) = okey inst"
  "writeConditions env inst cs = Inr i \<Longrightarrow> okey i = okey inst"
  by (auto simp: project_status_def writeConditions_def set_nested_map_def
      split: sum.splits option.splits json.splits)

lemma finish_pass_cases:
  assumes "run_state (finish_pass env cc inst rt rt1 res0) w = (x, w')"
  obtains i cs w1 e where "run_state (applyResultConditions env (readConditions env inst)
      (res0\<lparr>Requeue := True\<rparr>) (o_generation (project_status rt rt1 inst))) w = (cs, w1)"
    "run_state (c_status_update cc i) w1 = (e, w')" "okey i = okey inst"
    "i = (case writeConditions env (project_status rt rt1 inst) cs of
            Inl _ \<Rightarrow> project_status rt rt1 inst | Inr i \<Rightarrow> i)"
    "x = (res0\<lparr>Requeue := True\<rparr>, None)"
  using assms by (auto simp: finish_pass_def Let_def split: prod.splits sum.splits)

lemma writeLivenessRecord_cases:
  assumes "run_state (writeLivenessRecord env r cn uid) w = (x, w')"
  obtains (get_failed) now w1 e where "run_state (env_Now env) w = (now, w1)"
      "run_state (c_get (rc_ProviderClient r) configMapGVK (recordNamespace r) (LivenessRecordName cn uid)) w1
        = (Inl e, w')" "x \<noteq> None"
  | (create) now w1 w2 e y where "run_state (env_Now env) w = (now, w1)"
      "run_state (c_get (rc_ProviderClient r) configMapGVK (recordNamespace r) (LivenessRecordName cn uid)) w1
        = (Inl e, w2)"
      "run_state (c_create (rc_ProviderClient r) (set_nested_string_map
         ((new_obj configMapGVK)\<lparr>o_namespace := recordNamespace r, o_name := LivenessRecordName cn uid,
            o_labels := Some (record_labels r cn uid)\<rparr>) ''data'' (record_data r now))) w2 = (y, w')"
      "x = None \<longleftrightarrow> y = None"
  | (update) now w1 w2 ex y where "run_state (env_Now env) w = (now, w1)"
      "run_state (c_get (rc_ProviderClient r) configMapGVK (recordNamespace r) (LivenessRecordName cn uid)) w1
        = (Inr ex, w2)"
      "run_state (c_update (rc_ProviderClient r) (set_nested_string_map
         (ex\<lparr>o_labels := Some (record_labels r cn uid)\<rparr>) ''data'' (record_data r now))) w2 = (y, w')"
      "x = None \<longleftrightarrow> y = None"
  using assms
  by (auto simp: writeLivenessRecord_def Let_def split: prod.splits sum.splits if_splits)

context planes
begin

lemma clock_frame: "run_state (env_Now env) w = (now, w') \<Longrightarrow> objs t w' = objs t w"
  by (rule leaves_storeD [OF clock])

lemma conditions_frame:
  "run_state (applyResultConditions env cs res gen) w = (cs', w') \<Longrightarrow> objs t w' = objs t w"
  using leaves_storeD [OF set_condition [of t]] unfolding applyResultConditions_def
  by (auto split: prod.splits)

text \<open>The liveness record write changes no object but the record.\<close>

lemma record_frame:
  assumes run: "run_state (writeLivenessRecord env r cn uid) w = (x, w')"
    and k: "\<not> (t = TargetProvider \<and> same_object k (record_key r cn uid))"
  shows "objs t w' k = objs t w k"
proof -
  note prov = target_clients_simps(2) [of r cc]
  note get = leaves_storeD [OF get_leaves [OF prov]]
  show ?thesis
    using run
  proof (cases rule: writeLivenessRecord_cases)
    case (get_failed now w1 e)
    then show ?thesis by (simp add: clock_frame get)
  next
    case (create now w1 w2 e y)
    have "objs t w' k = objs t w2 k"
      using k api_plane.create_frame [OF plane [OF prov] create(3), of k]
        leaves_storeD [OF client_leaves(3) [OF apart [OF prov]] create(3), of t]
      by (cases "t = TargetProvider") (auto simp: set_nested_string_map_def set_nested_map_def okey_def new_obj_def)
    with create(1,2) show ?thesis by (simp add: clock_frame get)
  next
    case (update now w1 w2 ex y)
    have "okey ex = record_key r cn uid"
      using api_plane.get_found [OF plane [OF prov] update(2)] api_plane.objs_key [OF plane [OF prov]] by blast
    then have "objs t w' k = objs t w2 k"
      using k api_plane.update_frame [OF plane [OF prov] update(3), of k]
        leaves_storeD [OF client_leaves(4) [OF apart [OF prov]] update(3), of t]
      by (cases "t = TargetProvider") (auto simp: set_nested_string_map_def set_nested_map_def)
    with update(1,2) show ?thesis by (simp add: clock_frame get)
  qed
qed

text \<open>Status projection writes the instance only, and removes nothing.\<close>

lemma finish_frame:
  assumes run: "run_state (finish_pass env cc inst rt rt1 res0) w = (x, w')"
    and k: "\<not> (t = TargetConsumer \<and> same_object k (okey inst))"
  shows "objs t w' k = objs t w k"
proof -
  note cons = target_clients_simps(1) [of r cc]
  from run obtain i cs w1 e where c: "run_state (applyResultConditions env (readConditions env inst)
      (res0\<lparr>Requeue := True\<rparr>) (o_generation (project_status rt rt1 inst))) w = (cs, w1)"
    and u: "run_state (c_status_update cc i) w1 = (e, w')" and i: "okey i = okey inst"
    by (rule finish_pass_cases)
  have "objs t w' k = objs t w1 k"
    using k i api_plane.status_frame [OF plane [OF cons] u, of k]
      leaves_storeD [OF client_leaves(7) [OF apart [OF cons]] u, of t]
    by (cases "t = TargetConsumer") auto
  with conditions_frame [OF c, of t] show ?thesis by simp
qed

lemma finish_present:
  assumes run: "run_state (finish_pass env cc inst rt rt1 res0) w = (x, w')" and "objs t w k \<noteq> None"
  shows "objs t w' k \<noteq> None"
proof (cases "t = TargetConsumer")
  case True
  from run obtain i cs w1 e where c: "run_state (applyResultConditions env (readConditions env inst)
      (res0\<lparr>Requeue := True\<rparr>) (o_generation (project_status rt rt1 inst))) w = (cs, w1)"
    and u: "run_state (c_status_update cc i) w1 = (e, w')"
    by (rule finish_pass_cases)
  from assms(2) conditions_frame [OF c, of t] have "objs t w1 k \<noteq> None" by simp
  with api_plane.status_present [OF plane [OF target_clients_simps(1)] u] True show ?thesis by blast
next
  case False
  with finish_frame [OF run] assms(2) show ?thesis by simp
qed

end

end
