(* ===== verification/Fixture.thy ===== *)
theory Fixture
  imports Planes
begin

text \<open>
  A concrete controller to evaluate the model on: one in-memory API server per plane
  (\<open>Kube.mem_client\<close>), a kro runtime with a fixed desired object per node, a constant clock and
  an executable stand-in for the condition helpers. The properties are instantiated on it, which
  shows that their hypotheses can hold together.
\<close>

section \<open>Environment\<close>

definition fixed_runtime :: "graph \<Rightarrow> (node \<Rightarrow> obj list) \<Rightarrow> unit runtime" where
  "fixed_runtime gr des =
     \<lparr>rt_Nodes = g_nodes gr,
      rt_IsIgnored = (\<lambda>n. ret (Inr False)),
      rt_GetDesired = (\<lambda>n. ret (Inr (des n))),
      rt_SetObserved = (\<lambda>n obs. ret ()),
      rt_CheckReadiness = (\<lambda>n. ret None),
      rt_InstanceDesired = ret (Inr [])\<rparr>"

text \<open>A runtime whose nodes all still wait for data.\<close>

definition pending_runtime :: "graph \<Rightarrow> unit runtime" where
  "pending_runtime gr = (fixed_runtime gr (\<lambda>_. []))\<lparr>rt_GetDesired := (\<lambda>n. ret (Inl ErrDataPending))\<rparr>"

definition lib0 :: selector_lib where
  "lib0 = \<lparr>FromUnstructured_selector = (\<lambda>_. Inr \<lparr>ls_matchLabels = Map.empty, ls_matchExpressions = []\<rparr>),
     LabelSelectorAsSelector = (\<lambda>_. Inr labels_Everything)\<rparr>"

fun put_condition :: "condition list \<Rightarrow> condition \<Rightarrow> condition list" where
  "put_condition [] c = [c]"
| "put_condition (x # xs) c = (if cond_type x = cond_type c then c # xs else x # put_condition xs c)"

text \<open>Conditions as unstructured content: like \<^verbatim>\<open>metav1.Time\<close>, the transition time is an RFC 3339 string.\<close>

definition condition_json :: "condition \<Rightarrow> (string \<rightharpoonup> json)" where
  "condition_json c = [''type'' \<mapsto> JStr (cond_type c), ''status'' \<mapsto> JStr (cond_status c),
     ''observedGeneration'' \<mapsto> JInt (cond_observedGeneration c),
     ''lastTransitionTime'' \<mapsto> JStr (format_RFC3339 (cond_lastTransitionTime c)),
     ''reason'' \<mapsto> JStr (cond_reason c), ''message'' \<mapsto> JStr (cond_message c)]"

fun json_string :: "json option \<Rightarrow> string" where
  "json_string (Some (JStr s)) = s"
| "json_string _ = ''''"

fun json_int :: "json option \<Rightarrow> int" where
  "json_int (Some (JInt i)) = i"
| "json_int _ = 0"

definition decode_condition :: "(string \<rightharpoonup> json) \<Rightarrow> error + condition" where
  "decode_condition m =
     (case parse_RFC3339 (json_string (m ''lastTransitionTime'')) of
        Inl e \<Rightarrow> Inl e
      | Inr t \<Rightarrow>
          if \<not> time_ok t then Inl (ErrorString ''time out of range'')
          else Inr \<lparr>cond_type = json_string (m ''type''), cond_status = json_string (m ''status''),
            cond_observedGeneration = json_int (m ''observedGeneration''), cond_lastTransitionTime = t,
            cond_reason = json_string (m ''reason''), cond_message = json_string (m ''message'')\<rparr>)"

definition mem_env :: "(graph \<Rightarrow> unit runtime) \<Rightarrow> time \<Rightarrow> (unit, target mem) env" where
  "mem_env mk now =
     \<lparr>env_FromGraph = (\<lambda>gr inst. Inr (mk gr, ())),
      env_selectors = lib0,
      env_Now = ret now,
      env_SetStatusCondition = (\<lambda>cs c. ret (put_condition cs c)),
      env_decode_condition = decode_condition,
      env_encode_condition = (\<lambda>c. Inr (JObj (condition_json c))),
      env_order = [TargetConsumer, TargetProvider, TargetHost]\<rparr>"

section \<open>A blueprint with one template per target\<close>

definition widgetGVK :: gvk where "widgetGVK = GVK ''krop.example'' ''v1'' ''Widget''"
definition secretGVK :: gvk where "secretGVK = GVK '''' ''v1'' ''Secret''"
definition jobGVK :: gvk where "jobGVK = GVK ''batch'' ''v1'' ''Job''"

definition template_node :: "string \<Rightarrow> gvk \<Rightarrow> node" where
  "template_node nid g = \<lparr>nd_id = nid, nd_type = NodeTypeResource, nd_namespaced = True,
     nd_gvr = GVR (gvk_group g) (gvk_version g) ''things'', nd_gvk = g\<rparr>"

definition demo_graph :: "gvk \<Rightarrow> graph" where
  "demo_graph pg = \<lparr>g_nodes = [template_node ''token'' secretGVK, template_node ''agent'' pg],
     g_instance_gvr = GVR ''krop.example'' ''v1'' ''widgets'', g_crd = None\<rparr>"

definition demo_desired :: "node \<Rightarrow> obj list" where
  "demo_desired n = [(new_obj (nd_gvk n))\<lparr>o_namespace := ''default'', o_name := nd_id n\<rparr>]"

definition demo_runtime :: "graph \<Rightarrow> unit runtime" where
  "demo_runtime gr = fixed_runtime gr demo_desired"

definition demo_reconciler :: "gvk \<Rightarrow> target mem reconciler" where
  "demo_reconciler pg = \<lparr>rc_Graph = demo_graph pg, rc_ProviderClient = mem_client TargetProvider,
     rc_HostClient = Some (mem_client TargetHost), rc_InstanceGVK = widgetGVK,
     rc_BlueprintName = ''widgets'', rc_RecordNamespace = '''',
     rc_Routing = [''agent'' \<mapsto> TargetProvider]\<rparr>"

definition demo_instance :: "time option \<Rightarrow> obj" where
  "demo_instance del = (new_obj widgetGVK)\<lparr>o_namespace := ''default'', o_name := ''w1'',
     o_uid := ''u-1'', o_deletionTimestamp := del, o_finalizers := [Finalizer]\<rparr>"

text \<open>A child an earlier pass left behind.\<close>

definition stale_child :: "gvk \<Rightarrow> obj" where
  "stale_child g = (new_obj g)\<lparr>o_namespace := ''default'', o_name := ''old'',
     o_labels := Some (GCLabels ''u-1'' ''c1'' ''widgets'')\<rparr>"

definition demo_world :: "time option \<Rightarrow> gvk \<Rightarrow> target mem" where
  "demo_world del pg = (\<lambda>_. [])(TargetConsumer := [demo_instance del, stale_child secretGVK],
     TargetProvider := [stale_child pg])"

definition demo_pass :: "(unit, target mem) pass" where
  "demo_pass = \<lparr>p_rt = (), p_world = (\<lambda>_. []), p_applied = (\<lambda>_. [])\<rparr>"

section \<open>Projections\<close>

lemma mem_client_simps [simp]:
  "c_get (mem_client p) = mem_get p" "c_list (mem_client p) = mem_list p"
  "c_create (mem_client p) = mem_create p" "c_update (mem_client p) = mem_update p"
  "c_delete (mem_client p) = mem_delete p" "c_apply (mem_client p) = mem_apply p"
  "c_status_update (mem_client p) = mem_status_update p"
  by (simp_all add: mem_client_def)

lemma mem_env_simps [simp]:
  "env_FromGraph (mem_env mk now) gr i = Inr (mk gr, ())"
  "env_Now (mem_env mk now) = ret now"
  "env_SetStatusCondition (mem_env mk now) cs c = ret (put_condition cs c)"
  "env_order (mem_env mk now) = [TargetConsumer, TargetProvider, TargetHost]"
  by (simp_all add: mem_env_def)

lemma demo_reconciler_simps [simp]:
  "rc_Graph (demo_reconciler pg) = demo_graph pg"
  "rc_ProviderClient (demo_reconciler pg) = mem_client TargetProvider"
  "rc_HostClient (demo_reconciler pg) = Some (mem_client TargetHost)"
  "rc_InstanceGVK (demo_reconciler pg) = widgetGVK"
  "rc_BlueprintName (demo_reconciler pg) = ''widgets''"
  "recordNamespace (demo_reconciler pg) = ''default''"
  "TargetForNode nid (rc_Routing (demo_reconciler pg)) =
     (if nid = ''agent'' then TargetProvider else TargetConsumer)"
  by (simp_all add: demo_reconciler_def recordNamespace_def defaultRecordNamespace_def TargetForNode_def)

lemma demo_node_simps [simp]:
  "nd_id (template_node nid g) = nid" "nd_type (template_node nid g) = NodeTypeResource"
  "nd_gvk (template_node nid g) = g"
  "g_nodes (demo_graph pg) = [template_node ''token'' secretGVK, template_node ''agent'' pg]"
  by (simp_all add: template_node_def demo_graph_def)

lemma demo_childGVKs [simp]:
  "childGVKs (demo_reconciler pg) TargetConsumer = [secretGVK]"
  "childGVKs (demo_reconciler pg) TargetProvider = [pg]"
  "childGVKs (demo_reconciler pg) TargetHost = []"
  by (simp_all add: childGVKs_def)

lemma demo_obj_simps [simp]:
  "okey (demo_instance d) = (widgetGVK, ''default'', ''w1'')" "o_uid (demo_instance d) = ''u-1''"
  "o_deletionTimestamp (demo_instance d) = d" "o_finalizers (demo_instance d) = [Finalizer]"
  "okey (stale_child g) = (g, ''default'', ''old'')"
  "labels_of (stale_child g) = GCLabels ''u-1'' ''c1'' ''widgets''"
  "terminating (demo_instance d) \<longleftrightarrow> d \<noteq> None" "\<not> terminating (stale_child g)"
  by (simp_all add: demo_instance_def stale_child_def new_obj_def labels_of_def okey_def terminating_def)

lemma demo_get:
  "run_state (mem_get TargetConsumer widgetGVK ''default'' ''w1'') (demo_world del pg) =
     (Inr (demo_instance del), demo_world del pg)"
  by (simp add: mem_get_def demo_world_def)

lemma demo_no_record:
  "mem_find (demo_world del pg TargetProvider) (g, ns, LivenessRecordName cn uid) = None"
  by (simp add: demo_world_def LivenessRecordName_def)

lemmas demo_kind_defs = widgetGVK_def secretGVK_def jobGVK_def configMapGVK_def

section \<open>Passes on it end without an error\<close>

text \<open>The in-memory servers accept every call the controller makes, from any state.\<close>

lemma mem_reliable: "reliable (mem_client p)"
  by (auto simp: reliable_def mem_list_def mem_delete_def IgnoreNotFound_def not_found_def split: option.splits)

lemma for_targets_ok:
  assumes "\<And>t cl w. clients t = Some cl \<Longrightarrow> fst (run_state (body t cl) w) = None"
  shows "fst (run_state (for_targets clients body ts) w) = None"
proof (induction ts arbitrary: w)
  case (Cons t ts)
  show ?case
  proof (cases "clients t")
    case None
    with Cons.IH show ?thesis by simp
  next
    case (Some cl)
    obtain e w1 where b: "run_state (body t cl) w = (e, w1)" by fastforce
    with assms [OF Some, of w] have "e = None" by simp
    with b Some Cons.IH [of w1] show ?thesis by simp
  qed
qed simp

lemma demo_client: "target_clients (demo_reconciler pg) (mem_client TargetConsumer) t = Some (mem_client t)"
  by (cases t) simp_all

lemma demo_deleteChildren_ok:
  "fst (run_state (deleteChildren (mem_env mk now) (demo_reconciler pg) (mem_client TargetConsumer) uid) w) = None"
  unfolding deleteChildren_def by (rule for_targets_ok) (auto simp: demo_client reliable_gc_kinds [OF mem_reliable])

lemma demo_pruneChildren_ok:
  "fst (run_state (pruneChildren (mem_env mk now) (demo_reconciler pg) (mem_client TargetConsumer) uid applied) w) = None"
  unfolding pruneChildren_def by (rule for_targets_ok) (auto simp: demo_client reliable_gc_kinds [OF mem_reliable])

lemma demo_deleteLivenessRecord_ok:
  "fst (run_state (deleteLivenessRecord (demo_reconciler pg) cn uid) w) = None"
  by (simp add: deleteLivenessRecord_def Let_def mem_delete_def IgnoreNotFound_def not_found_def
      split: option.splits)

lemma demo_writeLivenessRecord_ok:
  "fst (run_state (writeLivenessRecord (mem_env mk now) (demo_reconciler pg) cn uid) w) = None"
proof (cases "mem_find (w TargetProvider) (configMapGVK, ''default'', LivenessRecordName cn uid)")
  case None
  then show ?thesis
    by (simp add: writeLivenessRecord_def Let_def mem_get_def mem_create_def not_found_def okey_def
        new_obj_def set_nested_string_map_def set_nested_map_def)
next
  case (Some ob)
  from mem_find_self [OF Some] Some show ?thesis
    by (simp add: writeLivenessRecord_def Let_def mem_get_def mem_update_def
        set_nested_string_map_def set_nested_map_def)
qed

lemma mem_SSA_ok: "\<exists>ob'. fst (run_state (SSAApplier_Apply (mem_client p) ob) w) = Inr ob'"
  by (auto simp: SSAApplier_Apply_def mem_apply_def mem_get_def split: option.splits)
    (auto simp: okey_def dest!: mem_find_key)

lemma demo_node_ok:
  assumes "nd_type n = NodeTypeResource"
  shows "fst (run_state (reconcile_node lib (lift_runtime (demo_runtime gr))
    (pass_appliers (demo_reconciler pg) (mem_client TargetConsumer) cn inst) readers routing n res) p) = Continue res"
proof -
  let ?t = "TargetForNode (nd_id n) routing"
  let ?ob = "pass_final (demo_reconciler pg) cn inst ?t (hd (demo_desired n))"
  obtain ob' w' where "run_state (SSAApplier_Apply (mem_client ?t) ?ob) (p_world p) = (Inr ob', w')"
    using mem_SSA_ok [of ?t ?ob "p_world p"] by (metis prod.collapse)
  then show ?thesis
    using assms by (simp add: reconcile_node_def lift_runtime_def demo_runtime_def fixed_runtime_def
        reconcile_template_def pass_appliers_client demo_client demo_desired_def RecordingApplier_Apply_def
        check_ready_def Let_def)
qed

lemma demo_engine_ok:
  "fst (run_state (Engine_Reconcile lib (lift_runtime (demo_runtime (demo_graph pg)))
     (pass_appliers (demo_reconciler pg) (mem_client TargetConsumer) cn inst) readers routing) p) =
   (\<lparr>Ready = True, Requeue = False, Complete = True\<rparr>, None)"
proof -
  have "fst (run_state (reconcile_loop lib (lift_runtime (demo_runtime (demo_graph pg)))
      (pass_appliers (demo_reconciler pg) (mem_client TargetConsumer) cn inst) readers routing ns res) p) = Continue res"
    if "\<forall>n \<in> set ns. nd_type n = NodeTypeResource" for ns res p
    using that
  proof (induction ns arbitrary: p)
    case (Cons n ns)
    then show ?case
      using demo_node_ok [of n lib "demo_graph pg" pg cn inst readers routing res p]
      by (auto split: prod.splits)
  qed simp
  from this [of "rt_Nodes (lift_runtime (demo_runtime (demo_graph pg)))" "zero_result\<lparr>Ready := True\<rparr>" p]
  show ?thesis
    by (auto simp: Engine_Reconcile_def lift_runtime_def demo_runtime_def fixed_runtime_def zero_result_def
        split: prod.splits)
qed

lemma pending_engine_ok:
  "fst (run_state (Engine_Reconcile lib (lift_runtime (pending_runtime (demo_graph pg))) appliers readers routing) p) =
   (\<lparr>Ready = False, Requeue = True, Complete = False\<rparr>, None)"
  by (simp add: Engine_Reconcile_def lift_runtime_def pending_runtime_def fixed_runtime_def zero_result_def
      reconcile_node_def not_ready_def)

theorem Engine_Reconcile_result_witness:
  "Ready (fst (fst (run_state (Engine_Reconcile lib0 (lift_runtime (pending_runtime (demo_graph jobGVK)))
     Map.empty Map.empty Map.empty) demo_pass))) = False"
  using Engine_Reconcile_result [of lib0 "lift_runtime (pending_runtime (demo_graph jobGVK))" Map.empty Map.empty
      Map.empty demo_pass] pending_engine_ok [of lib0 jobGVK Map.empty Map.empty Map.empty demo_pass]
  by (auto split: prod.splits)

lemma demo_apply_ok:
  assumes "\<And>lib readers routing p. fst (run_state (Engine_Reconcile lib (lift_runtime (mk (demo_graph pg)))
      (pass_appliers (demo_reconciler pg) (mem_client TargetConsumer) cn (demo_instance None)) readers routing) p) =
        (res, None)"
  shows "fst (run_state (reconcile_apply (mem_env mk now) (demo_reconciler pg) (mem_client TargetConsumer) cn
    (demo_instance None)) w) = (res\<lparr>Requeue := True\<rparr>, None)"
proof -
  let ?env = "mem_env mk now" and ?r = "demo_reconciler pg" and ?cc = "mem_client TargetConsumer"
  let ?i = "demo_instance None"
  obtain p where eng: "run_state (Engine_Reconcile (env_selectors ?env) (lift_runtime (mk (demo_graph pg)))
      (pass_appliers ?r ?cc cn ?i) (pass_readers ?r ?cc) (rc_Routing ?r))
      \<lparr>p_rt = (), p_world = w, p_applied = (\<lambda>_. [])\<rparr> = ((res, None), p)"
    using assms by (metis prod.collapse)
  obtain w2 where wr: "run_state (writeLivenessRecord ?env ?r cn ''u-1'') (p_world p) = (None, w2)"
    using demo_writeLivenessRecord_ok by (metis prod.collapse)
  obtain w3 where pr: "run_state (pruneChildren ?env ?r ?cc ''u-1'' (p_applied p)) w2 = (None, w3)"
    using demo_pruneChildren_ok by (metis prod.collapse)
  have "fst (run_state (finish_pass ?env ?cc ?i (mk (demo_graph pg)) (p_rt p) res) v) = (res\<lparr>Requeue := True\<rparr>, None)" for v
    by (auto simp: finish_pass_def Let_def split: prod.splits)
  with eng wr pr show ?thesis by (simp add: reconcile_apply_def run_pass_def)
qed

lemma demo_Reconcile_ok:
  "fst (run_state (Reconcile (mem_env demo_runtime now) (demo_reconciler pg) (mem_client TargetConsumer) cn
     ''default'' ''w1'') (demo_world None pg)) = (\<lparr>Ready = True, Requeue = True, Complete = True\<rparr>, None)"
  using demo_apply_ok [of demo_runtime pg cn, OF demo_engine_ok ]
  by (simp add: Reconcile_def demo_get)

lemma pending_Reconcile_ok:
  "fst (run_state (Reconcile (mem_env pending_runtime now) (demo_reconciler pg) (mem_client TargetConsumer) cn
     ''default'' ''w1'') (demo_world None pg)) = (\<lparr>Ready = False, Requeue = True, Complete = False\<rparr>, None)"
  using demo_apply_ok [of pending_runtime pg cn, OF pending_engine_ok]
  by (simp add: Reconcile_def demo_get)

text \<open>The state a pass over the demo instance leaves, and its runs.\<close>

definition demo_after :: "(graph \<Rightarrow> unit runtime) \<Rightarrow> time option \<Rightarrow> gvk \<Rightarrow> target mem" where
  "demo_after mk del pg = snd (run_state (Reconcile (mem_env mk 0) (demo_reconciler pg)
     (mem_client TargetConsumer) ''c1'' ''default'' ''w1'') (demo_world del pg))"

lemma demo_run:
  "run_state (Reconcile (mem_env demo_runtime 0) (demo_reconciler pg) (mem_client TargetConsumer) ''c1''
     ''default'' ''w1'') (demo_world None pg) =
   ((\<lparr>Ready = True, Requeue = True, Complete = True\<rparr>, None), demo_after demo_runtime None pg)"
  by (rule prod_eqI) (simp_all add: demo_Reconcile_ok demo_after_def)

lemma pending_run:
  "run_state (Reconcile (mem_env pending_runtime 0) (demo_reconciler pg) (mem_client TargetConsumer) ''c1''
     ''default'' ''w1'') (demo_world None pg) =
   ((\<lparr>Ready = False, Requeue = True, Complete = False\<rparr>, None), demo_after pending_runtime None pg)"
  by (rule prod_eqI) (simp_all add: pending_Reconcile_ok demo_after_def)

section \<open>It satisfies the assumptions\<close>

lemma mem_apart: "p \<noteq> q \<Longrightarrow> client_leaves_store (\<lambda>w. mem_find (w q)) (mem_client p)"
  unfolding client_leaves_store_def
  by (intro conjI allI leaves_storeI) (auto simp: mem_defs split: option.splits)

lemma mem_planes:
  assumes "rc_ProviderClient r = mem_client TargetProvider"
    and "rc_HostClient r = None \<or> rc_HostClient r = Some (mem_client TargetHost)"
  shows "planes (mem_env mk now) r (mem_client TargetConsumer) (\<lambda>t w. mem_find (w t))"
proof (rule planes.intro)
  have cl: "cl = mem_client t" if "target_clients r (mem_client TargetConsumer) t = Some cl" for t cl
    using that assms by (cases t) auto
  show "api_plane cl (\<lambda>w. mem_find (w t))" if "target_clients r (mem_client TargetConsumer) t = Some cl" for t cl
    using cl [OF that] mem.api_plane_axioms by simp
  show "client_leaves_store (\<lambda>w. mem_find (w t')) cl"
    if "target_clients r (mem_client TargetConsumer) t = Some cl" and "t' \<noteq> t" for t cl t'
    using cl [OF that(1)] mem_apart [of t t'] that(2) by simp
  show "set (env_order (mem_env mk now)) = UNIV"
    using target.exhaust by (auto simp: mem_env_def)
qed (auto simp: mem_env_def intro!: leaves_storeI)

interpretation demo: planes "mem_env mk now" "demo_reconciler pg" "mem_client TargetConsumer"
    "\<lambda>t w. mem_find (w t)" for mk now pg
  by (rule mem_planes) (simp_all add: demo_reconciler_def)

end
