(* ===== verification/InstanceGC.thy ===== *)
theory InstanceGC
  imports Fixture
begin

text \<open>
  Correctness of the instance reconciler against API servers: what a pass, a deletion and an
  incomplete pass leave in the stores of the planes.
\<close>

section \<open>Runs of a pass\<close>

lemma Reconcile_found:
  assumes "run_state (Reconcile env r cc cn ns nm) w = (out, w')"
    and "run_state (c_get cc (rc_InstanceGVK r) ns nm) w = (Inr inst, w0)"
  shows "run_state
     (if o_deletionTimestamp inst \<noteq> None then reconcile_deleting env r cc cn inst
      else if Finalizer \<notin> set (o_finalizers inst)
      then do { err \<leftarrow> c_update cc (inst\<lparr>o_finalizers := o_finalizers inst @ [Finalizer]\<rparr>);
                ret (zero_result, err) }
      else reconcile_apply env r cc cn inst) w0 = (out, w')"
  using assms by (simp add: Reconcile_def)

lemma run_pass_cases:
  assumes "run_state (run_pass m rt0) w = ((a, rt1, applied), w')"
  obtains p where "run_state m \<lparr>p_rt = rt0, p_world = w, p_applied = (\<lambda>_. [])\<rparr> = (a, p)"
    "rt1 = p_rt p" "applied = p_applied p" "w' = p_world p"
  using assms by (auto simp: run_pass_def split: prod.splits)

lemma finish_pass_result:
  assumes "run_state (finish_pass env cc inst rt rt1 res0) w = ((res, err), w')"
  shows "res = res0\<lparr>Requeue := True\<rparr>" "err = None"
  using assms by (auto simp: finish_pass_def Let_def split: prod.splits)

lemma reconcile_apply_ok:
  assumes "run_state (reconcile_apply env r cc cn inst) w = ((res, None), w')"
    and "o_deletionTimestamp inst = None"
  obtains rt rt0 res0 p w2 w3 where
    "env_FromGraph env (rc_Graph r) (StampConsumerCluster inst cn) = Inr (rt, rt0)"
    "run_state (Engine_Reconcile (env_selectors env) (lift_runtime rt) (pass_appliers r cc cn inst)
       (pass_readers r cc) (rc_Routing r)) \<lparr>p_rt = rt0, p_world = w, p_applied = (\<lambda>_. [])\<rparr> = ((res0, None), p)"
    "run_state (writeLivenessRecord env r cn (o_uid inst)) (p_world p) = (None, w2)"
    "run_state (if Complete res0 then pruneChildren env r cc (o_uid inst) (p_applied p) else ret None) w2
       = (None, w3)"
    "run_state (finish_pass env cc inst rt (p_rt p) res0) w3 = ((res, None), w')"
    "res = res0\<lparr>Requeue := True\<rparr>"
proof -
  from assms(1) obtain rt rt0 where fg: "env_FromGraph env (rc_Graph r) (StampConsumerCluster inst cn) = Inr (rt, rt0)"
    by (auto simp: reconcile_apply_def split: sum.splits)
  let ?eng = "Engine_Reconcile (env_selectors env) (lift_runtime rt) (pass_appliers r cc cn inst)
    (pass_readers r cc) (rc_Routing r)"
  obtain re p where eng: "run_state ?eng \<lparr>p_rt = rt0, p_world = w, p_applied = (\<lambda>_. [])\<rparr> = (re, p)"
    by fastforce
  then have rp: "run_state (run_pass ?eng rt0) w = ((re, p_rt p, p_applied p), p_world p)"
    by (simp add: run_pass_def)
  from assms(1) fg rp obtain res0 w2 w3 where "re = (res0, None)"
    and "run_state (writeLivenessRecord env r cn (o_uid inst)) (p_world p) = (None, w2)"
    and "run_state (if Complete res0 then pruneChildren env r cc (o_uid inst) (p_applied p) else ret None) w2
       = (None, w3)"
    and fin: "run_state (finish_pass env cc inst rt (p_rt p) res0) w3 = ((res, None), w')"
    by (auto simp: reconcile_apply_def assms(2) split: prod.splits option.splits)
  with that [OF fg] eng finish_pass_result [OF fin] show ?thesis by simp
qed

lemma pass_requeues:
  assumes "run_state (Reconcile env r cc cn ns nm) w = ((res, None), w')"
    and "run_state (c_get cc (rc_InstanceGVK r) ns nm) w = (Inr inst, w0)"
    and "o_deletionTimestamp inst = None" and "Finalizer \<in> set (o_finalizers inst)"
  shows "Requeue res"
proof -
  from Reconcile_found [OF assms(1,2)] assms(3,4)
  have "run_state (reconcile_apply env r cc cn inst) w0 = ((res, None), w')" by simp
  then show ?thesis by (rule reconcile_apply_ok [OF _ assms(3)]) simp
qed

section \<open>Deletion\<close>

text \<open>The object stored under \<open>k\<close> carries the controller's finalizer.\<close>

definition finalized :: "objkey \<Rightarrow> (objkey \<rightharpoonup> obj) \<Rightarrow> bool" where
  "finalized k m \<longleftrightarrow> (\<exists>i. m k = Some i \<and> Finalizer \<in> set (o_finalizers i))"

context planes
begin

lemma gc_kinds_apart:
  assumes "target_clients r cc t = Some cl" and "t' \<noteq> t"
  shows "keeps (\<lambda>w. objs t' w = m) (gc_kinds cl lgvk lmsg dmsg keep opts gs)"
  using apart [OF assms] unfolding client_leaves_store_def leaves_store_def
  by (intro keeps_gc_kinds) blast+

lemma deleteChildren_done:
  assumes run: "run_state (deleteChildren env r cc uid) w = (None, w')"
    and t: "target_clients r cc t = Some cl" and g: "g \<in> set (childGVKs r t)"
      "\<not> suffix ''List'' (gvk_kind g)"
    and sel: "selected (uid_selector uid) g (objs t w') ob"
  shows "terminating ob"
proof -
  let ?body = "\<lambda>t cl. gc_kinds cl (\<lambda>g. g) (\<lambda>g. ''listing '' @ gvk_kind g @ '' children: '')
    (\<lambda>g ob. ''deleting '' @ gvk_kind g @ '' '' @ o_name ob @ '': '') (\<lambda>g ob. False)
    (uid_selector uid) (childGVKs r t)"
  let ?P = "\<lambda>t m m'. \<forall>g \<in> set (childGVKs r t). \<forall>ob. selected (uid_selector uid) (item_gvk g) m' ob \<longrightarrow>
    terminating ob"
  have "?P t (objs t w) (objs t w')"
  proof (rule for_targets_each [where body = ?body and P = ?P])
    show "run_state (for_targets (target_clients r cc) ?body (env_order env)) w = (None, w')"
      using run by (simp add: deleteChildren_def)
    show "?P t (objs t v) (objs t v')"
      if "target_clients r cc t = Some cl" "run_state (?body t cl) v = (None, v')" for t cl v v'
      using api_plane.gc_kinds_done [OF plane [OF that(1)] _ that(2)] by auto
  qed (use t order gc_kinds_apart in auto)
  with g sel show ?thesis by (simp add: item_gvk_id)
qed

lemma delete_finalized_keeps:
  assumes t: "target_clients r cc t = Some cl"
  shows "keeps (\<lambda>w. finalized k (objs u w)) (c_delete cl ob)"
proof (cases "u = t")
  case True
  show ?thesis
  proof (rule keepsI)
    fix w x w'
    assume "finalized k (objs u w)" and "run_state (c_delete cl ob) w = (x, w')"
    then show "finalized k (objs u w')"
      using api_plane.delete_finalized [OF plane [OF t]] True unfolding finalized_def by fastforce
  qed
next
  case False
  with apart [OF t] show ?thesis by (auto simp: client_leaves_store_def intro: leaves_keeps)
qed

lemma deleteChildren_finalized: "keeps (\<lambda>w. finalized k (objs u w)) (deleteChildren env r cc uid)"
  unfolding deleteChildren_def
  by (intro keeps_for_targets keeps_gc_kinds leaves_keeps [OF list_leaves] delete_finalized_keeps)

lemma deleteLivenessRecord_finalized:
  "keeps (\<lambda>w. finalized k (objs u w)) (deleteLivenessRecord r cn uid)"
  unfolding deleteLivenessRecord_def
  by (intro keeps_intros delete_finalized_keeps [of TargetProvider]) simp_all

lemma deleteLivenessRecord_done:
  assumes "run_state (deleteLivenessRecord r cn uid) w = (None, w')"
  shows "gone (objs TargetProvider w') (configMapGVK, recordNamespace r, LivenessRecordName cn uid)"
  using assms api_plane.delete_ok [OF plane [OF target_clients_simps(2)]]
  by (fastforce simp: deleteLivenessRecord_def Let_def okey_def new_obj_def split: prod.splits)

lemma deleteLivenessRecord_shrinks:
  assumes "run_state (deleteLivenessRecord r cn uid) w = (x, w')"
  shows "shrinks (objs t w) (objs t w')"
proof (cases "t = TargetProvider")
  case True
  with assms api_plane.delete_shrinks [OF plane [OF target_clients_simps(2)]] show ?thesis
    by (fastforce simp: deleteLivenessRecord_def Let_def split: prod.splits)
next
  case False
  then have "leaves_store (objs t) (deleteLivenessRecord r cn uid)"
    using apart [OF target_clients_simps(2)] unfolding deleteLivenessRecord_def leaves_store_def
    by (auto simp: client_leaves_store_def leaves_store_def intro!: keeps_intros)
  with assms show ?thesis by (simp add: leaves_storeD)
qed

end

lemma reconcile_deleting_cases:
  assumes "run_state (reconcile_deleting env r cc cn inst) w = ((res, err), w')"
    and "Finalizer \<in> set (o_finalizers inst)"
  obtains (children_failed) e where "run_state (deleteChildren env r cc (o_uid inst)) w = (Some e, w')"
      "err = Some e"
  | (record_failed) w1 e where "run_state (deleteChildren env r cc (o_uid inst)) w = (None, w1)"
      "run_state (deleteLivenessRecord r cn (o_uid inst)) w1 = (Some e, w')" "err = Some e"
  | (released) w1 w2 where "run_state (deleteChildren env r cc (o_uid inst)) w = (None, w1)"
      "run_state (deleteLivenessRecord r cn (o_uid inst)) w1 = (None, w2)"
      "run_state (c_update cc (inst\<lparr>o_finalizers := removeString (o_finalizers inst) Finalizer\<rparr>)) w2 =
        (err, w')"
  using assms by (auto simp: reconcile_deleting_def split: prod.splits option.splits)

context planes
begin

lemma release_clean:
  assumes run: "run_state (reconcile_deleting env r cc cn inst) w0 = ((res, err), w')"
    and inst: "objs TargetConsumer w0 (okey inst) = Some inst" "Finalizer \<in> set (o_finalizers inst)"
    and out: "err = None \<or> \<not> finalized (okey inst) (objs TargetConsumer w')"
  obtains w1 w2 where "run_state (deleteChildren env r cc (o_uid inst)) w0 = (None, w1)"
      "run_state (deleteLivenessRecord r cn (o_uid inst)) w1 = (None, w2)"
      "\<And>t k. \<not> (t = TargetConsumer \<and> same_object k (okey inst)) \<Longrightarrow> objs t w' k = objs t w2 k"
  using run inst(2)
proof (cases rule: reconcile_deleting_cases)
  case (children_failed e)
  with keepsD [OF deleteChildren_finalized _ children_failed(1), of "okey inst" TargetConsumer] inst out
  show ?thesis by (auto simp: finalized_def)
next
  case (record_failed w1 e)
  with keepsD [OF deleteChildren_finalized _ record_failed(1), of "okey inst" TargetConsumer]
    keepsD [OF deleteLivenessRecord_finalized _ record_failed(2), of "okey inst" TargetConsumer] inst out
  show ?thesis by (auto simp: finalized_def)
next
  case (released w1 w2)
  have "objs t w' k = objs t w2 k" if "\<not> (t = TargetConsumer \<and> same_object k (okey inst))" for t k
  proof (cases "t = TargetConsumer")
    case True
    with that api_plane.update_frame [OF plane [OF target_clients_simps(1)] released(3)] show ?thesis by simp
  next
    case False
    from apart [OF target_clients_simps(1) False] show ?thesis
      using leaves_storeD [OF _ released(3)] by (simp add: client_leaves_store_def)
  qed
  with that released(1,2) show ?thesis by blast
qed

lemma deletion_done:
  assumes run: "run_state (Reconcile env r cc cn ns nm) w = ((res, err), w')"
    and inst: "objs TargetConsumer w (rc_InstanceGVK r, ns, nm) = Some inst"
      "terminating inst" "Finalizer \<in> set (o_finalizers inst)"
    and out: "err = None \<or> \<not> finalized (rc_InstanceGVK r, ns, nm) (objs TargetConsumer w')"
  shows "gone (objs TargetProvider w') (configMapGVK, recordNamespace r, LivenessRecordName cn (o_uid inst)) \<and>
    (\<forall>t g k ob. target_clients r cc t \<noteq> None \<and> g \<in> set (childGVKs r t) \<and> \<not> suffix ''List'' (gvk_kind g) \<and>
       \<not> (t = TargetConsumer \<and> same_object k (okey inst)) \<and> objs t w' k = Some ob \<and> fst k = g \<and>
       labels_of ob LabelInstanceUID = Some (o_uid inst) \<longrightarrow> terminating ob)"
proof -
  note cons = plane [OF target_clients_simps(1)]
  have key: "okey inst = (rc_InstanceGVK r, ns, nm)"
    using api_plane.objs_key [OF cons inst(1)] .
  obtain x w0 where get: "run_state (c_get cc (rc_InstanceGVK r) ns nm) w = (x, w0)" by fastforce
  have eq0: "objs t w0 = objs t w" for t
    using leaves_storeD [OF get_leaves [OF target_clients_simps(1)] get] .
  have x: "x = Inr inst"
  proof (cases x)
    case (Inl e)
    with run get have "err = IgnoreNotFound (Some e)" "w' = w0" by (auto simp: Reconcile_def)
    moreover have "finalized (rc_InstanceGVK r, ns, nm) (objs TargetConsumer w0)"
      using inst by (auto simp: eq0 finalized_def)
    ultimately have "IsNotFound e" using out by (auto simp: IgnoreNotFound_def split: if_splits)
    with api_plane.get_missing [OF cons] get Inl inst(1) show ?thesis by fastforce
  next
    case (Inr i)
    with api_plane.get_found [OF cons] get inst(1) show ?thesis by fastforce
  qed
  from Reconcile_found [OF run get [unfolded x]] inst(2)
  have "run_state (reconcile_deleting env r cc cn inst) w0 = ((res, err), w')"
    by (simp add: terminating_def)
  then obtain w1 w2 where ch: "run_state (deleteChildren env r cc (o_uid inst)) w0 = (None, w1)"
    and rec: "run_state (deleteLivenessRecord r cn (o_uid inst)) w1 = (None, w2)"
    and same: "\<And>t k. \<not> (t = TargetConsumer \<and> same_object k (okey inst)) \<Longrightarrow> objs t w' k = objs t w2 k"
    by (rule release_clean) (use inst out key in \<open>auto simp: eq0\<close>)
  have "gone (objs TargetProvider w') (configMapGVK, recordNamespace r, LivenessRecordName cn (o_uid inst))"
    using deleteLivenessRecord_done [OF rec] same [of TargetProvider] by (simp add: gone_def)
  moreover have "terminating ob"
    if t: "target_clients r cc t \<noteq> None" "g \<in> set (childGVKs r t)" "\<not> suffix ''List'' (gvk_kind g)"
      and k: "\<not> (t = TargetConsumer \<and> same_object k (okey inst))" "objs t w' k = Some ob" "fst k = g"
      and l: "labels_of ob LabelInstanceUID = Some (o_uid inst)" for t g k ob
  proof -
    from t obtain cl where cl: "target_clients r cc t = Some cl" by blast
    have "objs t w2 k = Some ob" using same [OF k(1)] k(2) by simp
    from shrinksE [OF deleteLivenessRecord_shrinks [OF rec] this] obtain b
      where b: "objs t w1 k = Some b" "o_labels ob = o_labels b" "terminating b \<Longrightarrow> terminating ob"
      by blast
    from api_plane.objs_key [OF plane [OF cl] b(1)] have "okey b = k" .
    with b k l have "selected (uid_selector (o_uid inst)) g (objs t w1) b"
      by (auto simp: selected_uid labels_of_def okey_def)
    from deleteChildren_done [OF ch cl t(2,3) this] b(3) show ?thesis by simp
  qed
  ultimately show ?thesis by blast
qed

end

lemma demo_deleting_ok:
  "fst (run_state (Reconcile (mem_env demo_runtime now) (demo_reconciler pg) (mem_client TargetConsumer) cn
     ''default'' ''w1'') (demo_world (Some 1) pg)) = (zero_result, None)"
proof -
  let ?r = "demo_reconciler pg" and ?cc = "mem_client TargetConsumer" and ?w = "demo_world (Some 1) pg"
  let ?F = "\<lambda>w :: target mem. finalized (widgetGVK, ''default'', ''w1'') (mem_find (w TargetConsumer))"
  obtain w1 where dc: "run_state (deleteChildren (mem_env demo_runtime now) ?r ?cc ''u-1'') ?w = (None, w1)"
    using demo_deleteChildren_ok by (metis prod.collapse)
  obtain w2 where dl: "run_state (deleteLivenessRecord ?r cn ''u-1'') w1 = (None, w2)"
    using demo_deleteLivenessRecord_ok by (metis prod.collapse)
  have "?F ?w" by (simp add: finalized_def demo_world_def)
  then have "?F w1" by (rule keepsD [OF demo.deleteChildren_finalized _ dc])
  then have "?F w2" by (rule keepsD [OF demo.deleteLivenessRecord_finalized _ dl])
  then obtain i where "mem_find (w2 TargetConsumer) (widgetGVK, ''default'', ''w1'') = Some i"
    by (auto simp: finalized_def)
  with dc dl show ?thesis by (simp add: Reconcile_def demo_get reconcile_deleting_def mem_update_def)
qed

text \<open>
  C2. Cross-workspace garbage collection. Take an instance under deletion that carries the
  finalizer. Whenever a pass ends without an error, or the finalizer is no longer on the stored
  instance, every object of a templated kind that carries the instance's uid label is deleted or
  marked for deletion in every plane the controller has a client for, and so is the liveness
  record: the finalizer is released last. (The instance itself is not counted, and a kind whose
  name ends in \<^verbatim>\<open>List\<close> is listed under a shortened name.)
\<close>

theorem Reconcile_deletion:
  assumes "planes env r cc objs"
    and "run_state (Reconcile env r cc cn ns nm) w = ((res, err), w')"
    and "objs TargetConsumer w (rc_InstanceGVK r, ns, nm) = Some inst"
    and "terminating inst" and "Finalizer \<in> set (o_finalizers inst)"
    and "err = None \<or> \<not> finalized (rc_InstanceGVK r, ns, nm) (objs TargetConsumer w')"
  shows "gone (objs TargetProvider w') (configMapGVK, recordNamespace r, LivenessRecordName cn (o_uid inst)) \<and>
    (\<forall>t g k ob. target_clients r cc t \<noteq> None \<and> g \<in> set (childGVKs r t) \<and> \<not> suffix ''List'' (gvk_kind g) \<and>
       \<not> (t = TargetConsumer \<and> same_object k (okey inst)) \<and> objs t w' k = Some ob \<and> fst k = g \<and>
       labels_of ob LabelInstanceUID = Some (o_uid inst) \<longrightarrow> terminating ob)"
  by (rule planes.deletion_done [OF assms])

theorem Reconcile_deletion_witness:
  "gone (mem_find (demo_after demo_runtime (Some 1) jobGVK TargetProvider))
     (configMapGVK, ''default'', LivenessRecordName ''c1'' ''u-1'') \<and>
   {ob. mem_find (demo_after demo_runtime (Some 1) jobGVK TargetProvider) (jobGVK, ''default'', ''old'') = Some ob \<and>
     labels_of ob LabelInstanceUID = Some ''u-1'' \<and> \<not> terminating ob} = {}"
proof -
  have run: "run_state (Reconcile (mem_env demo_runtime 0) (demo_reconciler jobGVK) (mem_client TargetConsumer)
      ''c1'' ''default'' ''w1'') (demo_world (Some 1) jobGVK) =
    ((zero_result, None), demo_after demo_runtime (Some 1) jobGVK)"
    by (rule prod_eqI) (simp_all add: demo_deleting_ok demo_after_def)
  have d: "gone (mem_find (demo_after demo_runtime (Some 1) jobGVK TargetProvider))
      (configMapGVK, recordNamespace (demo_reconciler jobGVK), LivenessRecordName ''c1'' (o_uid (demo_instance (Some 1)))) \<and>
    (\<forall>t g k ob. target_clients (demo_reconciler jobGVK) (mem_client TargetConsumer) t \<noteq> None \<and>
       g \<in> set (childGVKs (demo_reconciler jobGVK) t) \<and> \<not> suffix ''List'' (gvk_kind g) \<and>
       \<not> (t = TargetConsumer \<and> same_object k (okey (demo_instance (Some 1)))) \<and>
       mem_find (demo_after demo_runtime (Some 1) jobGVK t) k = Some ob \<and> fst k = g \<and>
       labels_of ob LabelInstanceUID = Some (o_uid (demo_instance (Some 1))) \<longrightarrow> terminating ob)"
    by (rule Reconcile_deletion [OF demo.planes_axioms run]) (simp_all add: demo_world_def)
  have "\<not> suffix ''List'' (gvk_kind jobGVK)" by (simp add: jobGVK_def suffix_def)
  with d [THEN conjunct1] d [THEN conjunct2, rule_format, of TargetProvider jobGVK "(jobGVK, ''default'', ''old'')"]
  show ?thesis by (auto simp: demo_client)
qed


text \<open>
  A server that answers: it lists and deletes without error, returns what is stored, and an update of a
  stored object succeeds and leaves the object with the given finalizers or gone.
\<close>

definition answers :: "'w client \<Rightarrow> ('w \<Rightarrow> objkey \<rightharpoonup> obj) \<Rightarrow> bool" where
  "answers cl ob \<longleftrightarrow> reliable cl \<and>
     (\<forall>g ns n w b. ob w (g, ns, n) = Some b \<longrightarrow> (\<exists>w'. run_state (c_get cl g ns n) w = (Inr b, w'))) \<and>
     (\<forall>i w. ob w (okey i) \<noteq> None \<longrightarrow> (\<exists>w'. run_state (c_update cl i) w = (None, w') \<and>
        (\<forall>b. ob w' (okey i) = Some b \<longrightarrow> o_finalizers b = o_finalizers i)))"

lemma answersD:
  assumes "answers cl ob"
  shows "ob w (g, ns, n) = Some b \<Longrightarrow> \<exists>w'. run_state (c_get cl g ns n) w = (Inr b, w')"
    and "ob w (okey i) \<noteq> None \<Longrightarrow> \<exists>w'. run_state (c_update cl i) w = (None, w') \<and>
        (\<forall>b. ob w' (okey i) = Some b \<longrightarrow> o_finalizers b = o_finalizers i)"
  using assms unfolding answers_def by blast+

context planes
begin

lemma deletion_progress:
  assumes "answers cc (objs TargetConsumer)" and "\<And>t cl. target_clients r cc t = Some cl \<Longrightarrow> reliable cl"
    and inst: "objs TargetConsumer w (rc_InstanceGVK r, ns, nm) = Some inst" "terminating inst" "Finalizer \<in> set (o_finalizers inst)"
  shows "\<exists>w'. run_state (Reconcile env r cc cn ns nm) w = ((zero_result, None), w') \<and>
    \<not> finalized (rc_InstanceGVK r, ns, nm) (objs TargetConsumer w')"
proof -
  let ?k = "(rc_InstanceGVK r, ns, nm)" and ?i = "inst\<lparr>o_finalizers := removeString (o_finalizers inst) Finalizer\<rparr>"
  have key: "okey inst = ?k" using api_plane.objs_key [OF plane [OF target_clients_simps(1)] inst(1)] .
  then have ki: "okey ?i = ?k" by (simp add: okey_def)
  obtain w0 where get: "run_state (c_get cc (rc_InstanceGVK r) ns nm) w = (Inr inst, w0)"
    using answersD(1) [OF assms(1) inst(1)] by blast
  have f0: "finalized ?k (objs TargetConsumer w0)"
    using leaves_storeD [OF get_leaves [OF target_clients_simps(1)] get, of TargetConsumer] inst by (simp add: finalized_def)
  obtain e1 w1 where ch: "run_state (deleteChildren env r cc (o_uid inst)) w0 = (e1, w1)" by fastforce
  have "fst (run_state (deleteChildren env r cc (o_uid inst)) w0) = None"
    unfolding deleteChildren_def by (rule for_targets_ok) (rule reliable_gc_kinds [OF assms(2)])
  with ch have e1: "e1 = None" by simp
  have f1: "finalized ?k (objs TargetConsumer w1)" by (rule keepsD [OF deleteChildren_finalized f0 ch])
  obtain e2 w2 where rec: "run_state (deleteLivenessRecord r cn (o_uid inst)) w1 = (e2, w2)" by fastforce
  have "IgnoreNotFound (fst (run_state (c_delete (rc_ProviderClient r) ob) w1)) = None" for ob
    using assms(2) [OF target_clients_simps(2)] by (simp add: reliable_def)
  with rec have e2: "e2 = None" by (simp add: deleteLivenessRecord_def Let_def split_beta)
  have "finalized ?k (objs TargetConsumer w2)" by (rule keepsD [OF deleteLivenessRecord_finalized f1 rec])
  then have "objs TargetConsumer w2 (okey ?i) \<noteq> None" unfolding ki by (auto simp: finalized_def)
  then obtain w' where u: "run_state (c_update cc ?i) w2 = (None, w')"
    and st: "\<forall>b. objs TargetConsumer w' ?k = Some b \<longrightarrow> o_finalizers b = o_finalizers ?i"
    using answersD(2) [OF assms(1), of w2 ?i] unfolding ki by blast
  have "run_state (Reconcile env r cc cn ns nm) w = ((zero_result, None), w')"
    using get inst(2,3) ch e1 rec e2 u by (simp add: Reconcile_def reconcile_deleting_def terminating_def)
  moreover have "\<not> finalized ?k (objs TargetConsumer w')" using st by (auto simp: finalized_def removeString_def)
  ultimately show ?thesis by blast
qed

end

text \<open>
  C13. A deletion gets done. As long as the API servers answer, one pass over an instance under deletion suffices: it ends without
  error, the stored instance no longer carries the finalizer (so it can go away), the liveness record is gone, and
  every object of a templated kind with the instance's uid label is deleted or marked for deletion in every plane.
\<close>

theorem Reconcile_deletion_progress:
  assumes "planes env r cc objs" and "answers cc (objs TargetConsumer)"
    and "\<forall>t cl. target_clients r cc t = Some cl \<longrightarrow> reliable cl"
    and "objs TargetConsumer w (rc_InstanceGVK r, ns, nm) = Some inst"
    and "terminating inst" and "Finalizer \<in> set (o_finalizers inst)"
  shows "\<exists>w'. run_state (Reconcile env r cc cn ns nm) w = ((zero_result, None), w') \<and>
    \<not> finalized (rc_InstanceGVK r, ns, nm) (objs TargetConsumer w') \<and>
    gone (objs TargetProvider w') (configMapGVK, recordNamespace r, LivenessRecordName cn (o_uid inst)) \<and>
    (\<forall>t g k ob. target_clients r cc t \<noteq> None \<and> g \<in> set (childGVKs r t) \<and> \<not> suffix ''List'' (gvk_kind g) \<and>
       \<not> (t = TargetConsumer \<and> same_object k (okey inst)) \<and> objs t w' k = Some ob \<and> fst k = g \<and>
       labels_of ob LabelInstanceUID = Some (o_uid inst) \<longrightarrow> terminating ob)"
proof -
  obtain w' where run: "run_state (Reconcile env r cc cn ns nm) w = ((zero_result, None), w')"
    and fin: "\<not> finalized (rc_InstanceGVK r, ns, nm) (objs TargetConsumer w')"
    using planes.deletion_progress [OF assms(1,2) _ assms(4-6)] assms(3) by blast
  with planes.deletion_done [OF assms(1) run assms(4-6)] show ?thesis by blast
qed

lemma mem_answers: "answers (mem_client p) (\<lambda>w. mem_find (w p))"
  using mem_reliable by (auto simp: answers_def mem_get_def mem_update_def)

theorem Reconcile_deletion_progress_witness:
  "\<exists>w'. run_state (Reconcile (mem_env demo_runtime 0) (demo_reconciler jobGVK) (mem_client TargetConsumer) ''c1'' ''default'' ''w1'')
      (demo_world (Some 1) jobGVK) = ((zero_result, None), w') \<and>
    \<not> finalized (widgetGVK, ''default'', ''w1'') (mem_find (w' TargetConsumer))"
proof -
  have "mem_find (demo_world (Some 1) jobGVK TargetConsumer) (rc_InstanceGVK (demo_reconciler jobGVK), ''default'', ''w1'') =
      Some (demo_instance (Some 1))" by (simp add: demo_world_def)
  moreover have "\<forall>t cl. target_clients (demo_reconciler jobGVK) (mem_client TargetConsumer) t = Some cl \<longrightarrow> reliable cl"
    using mem_reliable by (auto simp: demo_client)
  ultimately show ?thesis
    using Reconcile_deletion_progress [OF demo.planes_axioms [of demo_runtime 0 jobGVK] mem_answers, where cn = "''c1''"]
    by fastforce
qed

section \<open>Passes that delete nothing\<close>

context planes
begin

lemma apply_incomplete_present:
  assumes run: "run_state (reconcile_apply env r cc cn inst) w0 = ((res, err), w')"
    and nc: "\<not> Complete res"
    and k: "\<not> (t = TargetProvider \<and> same_object k (record_key r cn (o_uid inst)))" "objs t w0 k \<noteq> None"
  shows "objs t w' k \<noteq> None"
proof (cases "env_FromGraph env (rc_Graph r) (StampConsumerCluster inst cn)")
  case (Inl e)
  with run k show ?thesis by (auto simp: reconcile_apply_def)
next
  case (Inr b)
  obtain rt rt0 where b: "b = (rt, rt0)" by fastforce
  let ?eng = "Engine_Reconcile (env_selectors env) (lift_runtime rt) (pass_appliers r cc cn inst)
    (pass_readers r cc) (rc_Routing r)"
  obtain re p where eng: "run_state ?eng \<lparr>p_rt = rt0, p_world = w0, p_applied = (\<lambda>_. [])\<rparr> = (re, p)"
    by fastforce
  then have rp: "run_state (run_pass ?eng rt0) w0 = ((re, p_rt p, p_applied p), p_world p)"
    by (simp add: run_pass_def)
  have p1: "objs t (p_world p) k \<noteq> None"
    using present.Engine_keeps [OF _ _ eng, of t k] k(2) by simp
  obtain x w2 where wl: "run_state (writeLivenessRecord env r cn (o_uid inst)) (p_world p) = (x, w2)"
    by fastforce
  have p2: "objs t w2 k \<noteq> None" using record_frame [OF wl k(1)] p1 by simp
  have p3: "objs t w3 k \<noteq> None"
    if "run_state (finish_pass env cc inst rt (p_rt p) res0) w2 = (y, w3)" for res0 y w3
    using finish_present [OF that p2] .
  have fr: "res = res0\<lparr>Requeue := True\<rparr>"
    if "run_state (finish_pass env cc inst rt (p_rt p) res0) w3 = ((res, err), w')" for res0 w3
    by (rule finish_pass_result(1) [OF that])
  from run Inr b rp wl p1 p2 nc show ?thesis
    by (auto simp: reconcile_apply_def dest: p3 fr split: prod.splits option.splits if_splits)
qed

lemma incomplete_present:
  assumes run: "run_state (Reconcile env r cc cn ns nm) w = ((res, err), w')"
    and live: "objs TargetConsumer w (rc_InstanceGVK r, ns, nm) = Some inst" "\<not> terminating inst"
    and nc: "\<not> Complete res"
    and k: "\<not> (t = TargetProvider \<and> same_object k (record_key r cn (o_uid inst)))" "objs t w k \<noteq> None"
  shows "objs t w' k \<noteq> None"
proof -
  note cons = target_clients_simps(1) [of r cc]
  obtain x w0 where get: "run_state (c_get cc (rc_InstanceGVK r) ns nm) w = (x, w0)" by fastforce
  have k0: "objs t w0 k \<noteq> None"
    using leaves_storeD [OF get_leaves [OF cons] get] k(2) by simp
  show ?thesis
  proof (cases x)
    case (Inl e)
    with run get k0 show ?thesis by (auto simp: Reconcile_def)
  next
    case (Inr i)
    with api_plane.get_found [OF plane [OF cons]] get live(1) have x: "x = Inr inst" by fastforce
    note go = Reconcile_found [OF run get [unfolded x]]
    show ?thesis
    proof (cases "Finalizer \<in> set (o_finalizers inst)")
      case True
      with go live(2) apply_incomplete_present [OF _ nc k(1) k0] show ?thesis by (simp add: terminating_def)
    next
      case False
      with go live(2)
      have u: "run_state (c_update cc (inst\<lparr>o_finalizers := o_finalizers inst @ [Finalizer]\<rparr>)) w0 = (err, w')"
        by (auto simp: terminating_def split: prod.splits)
      show ?thesis
        using api_plane.update_present [OF plane [OF cons] u] k0
          leaves_storeD [OF client_leaves(4) [OF apart [OF cons]] u, of t]
        by (cases "t = TargetConsumer") simp_all
    qed
  qed
qed

end

text \<open>
  C7. A pass over a live instance that does not complete (a pending dependency, a missing external
  object, an error at any node) deletes nothing: every object of every plane is still there
  afterwards. Only the liveness record is excepted, which the pass rewrites.
\<close>

theorem Reconcile_incomplete_keeps:
  assumes "planes env r cc objs"
    and "run_state (Reconcile env r cc cn ns nm) w = ((res, err), w')"
    and "objs TargetConsumer w (rc_InstanceGVK r, ns, nm) = Some inst" and "\<not> terminating inst"
    and "\<not> Complete res"
    and "\<not> (t = TargetProvider \<and> same_object k (record_key r cn (o_uid inst)))"
    and "objs t w k \<noteq> None"
  shows "objs t w' k \<noteq> None"
  by (rule planes.incomplete_present [OF assms])

theorem Reconcile_incomplete_keeps_witness:
  "mem_find (demo_after pending_runtime None jobGVK TargetProvider) (jobGVK, ''default'', ''old'') \<noteq> None"
  by (rule Reconcile_incomplete_keeps [OF demo.planes_axioms pending_run, where inst = "demo_instance None"])
    (simp_all add: demo_world_def configMapGVK_def jobGVK_def)

end
