(* ===== verification/Converge.thy ===== *)
theory Converge
  imports InstanceGC
begin

text \<open>
  What a complete pass leaves behind: in every plane the live children of the instance are the
  objects the runtime asked for in this pass, each with the ownership labels, and everything else
  of a templated kind that carries the instance's uid label is gone.
\<close>

section \<open>The plan of a pass\<close>

definition pass_start :: "'rt \<Rightarrow> 'w \<Rightarrow> ('rt, 'w) pass" where
  "pass_start rt0 w = \<lparr>p_rt = rt0, p_world = w, p_applied = (\<lambda>_. [])\<rparr>"

definition pass_plan ::
    "('rt, 'w) env \<Rightarrow> 'w reconciler \<Rightarrow> 'w client \<Rightarrow> string \<Rightarrow> obj \<Rightarrow> 'rt runtime \<Rightarrow> 'rt \<Rightarrow> 'w \<Rightarrow>
     (node \<times> obj) list" where
  "pass_plan env r cc cn inst rt rt0 w =
     pass_objects (env_selectors env) (lift_runtime rt) (pass_appliers r cc cn inst)
       (pass_readers r cc) (rc_Routing r) (pass_start rt0 w)"

text \<open>The identities, under target \<open>t\<close>, of the objects the runtime asked for.\<close>

definition desired_children ::
    "'w reconciler \<Rightarrow> string \<Rightarrow> obj \<Rightarrow> (node \<times> obj) list \<Rightarrow> target \<Rightarrow> child_id set" where
  "desired_children r cn inst plan t =
     set (map (\<lambda>(n, d). child_of (pass_final r cn inst t d))
       (filter (\<lambda>(n, d). TargetForNode (nd_id n) (rc_Routing r) = t) plan))"

definition ci_key :: "child_id \<Rightarrow> objkey" where
  "ci_key ci = (ci_gvk ci, ci_namespace ci, ci_name ci)"

text \<open>
  What the controller relies on of kro's runtime: it runs the nodes of the graph it was made from,
  and the objects of a node have the kind of its template.
\<close>

definition runtime_for :: "graph \<Rightarrow> 'rt runtime \<Rightarrow> bool" where
  "runtime_for gr rt \<longleftrightarrow> set (rt_Nodes rt) \<subseteq> set (g_nodes gr) \<and>
     (\<forall>n s ds s'. run_state (rt_GetDesired rt n) s = (Inr ds, s') \<longrightarrow> (\<forall>d \<in> set ds. o_gvk d = nd_gvk n))"

text \<open>
  The child kinds of a blueprint are unambiguous: no two versions of one kind on the same target,
  no consumer child of the instance's own kind, and no kind whose name ends in \<^verbatim>\<open>List\<close>.
\<close>

definition same_kind :: "gvk \<Rightarrow> gvk \<Rightarrow> bool" where
  "same_kind g h \<longleftrightarrow> gvk_group g = gvk_group h \<and> gvk_kind g = gvk_kind h"

definition kinds_unambiguous :: "'w reconciler \<Rightarrow> bool" where
  "kinds_unambiguous r \<longleftrightarrow>
     (\<forall>t. \<forall>g \<in> set (childGVKs r t). \<not> suffix ''List'' (gvk_kind g) \<and>
        (\<forall>h \<in> set (childGVKs r t). same_kind g h \<longrightarrow> g = h)) \<and>
     (\<forall>g \<in> set (childGVKs r TargetConsumer). \<not> same_kind g (rc_InstanceGVK r))"

lemma same_object_alt:
  "same_object k k' \<longleftrightarrow> same_kind (fst k) (fst k') \<and> snd k = snd k'"
  by (cases k; cases k') (auto simp: same_kind_def)

lemma ci_key_child_of [simp]: "ci_key (child_of ob) = okey ob"
  by (simp add: ci_key_def child_of_def okey_def)

lemma ci_key_inject: "ci_key a = ci_key b \<longleftrightarrow> a = b"
  by (cases a; cases b) (simp add: ci_key_def)

lemma childGVKs_loop_set:
  "set (childGVKs_loop routing t ns out) = set out \<union>
     {nd_gvk n | n. n \<in> set ns \<and> \<not> is_external n \<and> TargetForNode (nd_id n) routing = t}"
  by (induction routing t ns out rule: childGVKs_loop.induct) (auto simp: is_external_def)

lemma childGVKs_iff:
  "g \<in> set (childGVKs r t) \<longleftrightarrow> (\<exists>n \<in> set (g_nodes (rc_Graph r)).
     \<not> is_external n \<and> TargetForNode (nd_id n) (rc_Routing r) = t \<and> nd_gvk n = g)"
  by (auto simp: childGVKs_def childGVKs_loop_set)

lemma plan_desired:
  fixes rt :: "'rt runtime" and cc :: "'w client"
  assumes "(n, d) \<in> set (pass_plan env r cc cn inst rt rt0 w)"
  obtains s1 ds s2 where "n \<in> set (rt_Nodes rt)" "\<not> is_external n" "run_state (rt_GetDesired rt n) s1 = (Inr ds, s2)" "d \<in> set ds"
proof -
  from asked_node assms obtain s where "n \<in> set (rt_Nodes rt)" "\<not> is_external n"
    and d: "d \<in> set (desired_at (lift_runtime rt :: ('rt, 'w) pass runtime) n s)"
    unfolding pass_plan_def pass_objects_def by (fastforce simp: lift_runtime_def)
  moreover from d obtain s1 ds s2 where "run_state (rt_GetDesired rt n) s1 = (Inr ds, s2)" "d \<in> set ds"
    by (auto simp: desired_at_def lift_runtime_def split: if_splits prod.splits sum.splits bool.splits)
  ultimately show thesis using that by blast
qed

lemma plan_gvk:
  assumes "runtime_for (rc_Graph r) rt" and "(n, d) \<in> set (pass_plan env r cc cn inst rt rt0 w)"
  shows "o_gvk d \<in> set (childGVKs r (TargetForNode (nd_id n) (rc_Routing r)))"
  using assms(2)
proof (rule plan_desired)
  fix s1 ds s2
  assume n: "n \<in> set (rt_Nodes rt)" "\<not> is_external n" and "run_state (rt_GetDesired rt n) s1 = (Inr ds, s2)" "d \<in> set ds"
  with assms(1) have "o_gvk d = nd_gvk n" unfolding runtime_for_def by blast
  with n assms(1) show ?thesis by (auto simp: childGVKs_iff runtime_for_def)
qed

lemma desired_children_gvk:
  assumes "runtime_for (rc_Graph r) rt"
    and "ci \<in> desired_children r cn inst (pass_plan env r cc cn inst rt rt0 w) t"
  shows "ci_gvk ci \<in> set (childGVKs r t)"
proof -
  from assms(2) obtain n d where "(n, d) \<in> set (pass_plan env r cc cn inst rt rt0 w)"
    and t: "TargetForNode (nd_id n) (rc_Routing r) = t" and ci: "ci = child_of (pass_final r cn inst t d)"
    by (auto simp: desired_children_def)
  with plan_gvk [OF assms(1) this(1)] pass_final_kind [of r cn inst t d] show ?thesis
    by (simp add: child_of_def okey_def)
qed

lemma desired_not_record:
  assumes "ci \<in> desired_children r cn inst plan TargetProvider"
  shows "\<not> same_object (ci_key ci) (record_key r cn' uid)"
  using assms child_not_record
  by (auto simp: desired_children_def pass_final_def Let_def)

section \<open>The engine run of a pass\<close>

context api_plane
begin

lemma SSA_label_stable:
  assumes "run_state (SSAApplier_Apply c ob) w = (r, w')" and "objs w (okey ob) = Some b"
    and "l \<subseteq>\<^sub>m labels_of ob" and "l \<subseteq>\<^sub>m labels_of b"
  shows "\<exists>b'. objs w' (okey ob) = Some b' \<and> l \<subseteq>\<^sub>m labels_of b'"
  using assms(1)
proof (cases rule: SSA_cases)
  case (apply_error e)
  from apply_label_stable [OF apply_error(1) assms(2-4)] show ?thesis .
next
  case (applied w1)
  from apply_label_stable [OF applied(1) assms(2-4)] get_frame [OF applied(2)] show ?thesis by simp
qed

end

context planes
begin

text \<open>Only what the runtime asked for is recorded.\<close>

lemma recorded_desired:
  fixes rt0 :: 'rt
  assumes "run_state (Engine_Reconcile (env_selectors env) (lift_runtime rt) (pass_appliers r cc cn inst)
      (pass_readers r cc) (rc_Routing r)) (pass_start rt0 w) = (re, p)"
  shows "set (p_applied p t) \<subseteq> desired_children r cn inst (pass_plan env r cc cn inst rt rt0 w) t"
    (is "_ \<subseteq> ?X")
proof -
  let ?D = "set (pass_plan env r cc cn inst rt rt0 w)"
  have "keeps (\<lambda>p :: ('rt, 'w) pass. set (p_applied p t) \<subseteq> ?X) (ap ob)"
    if D: "(n, ob) \<in> ?D" and ap: "pass_appliers r cc cn inst (TargetForNode (nd_id n) (rc_Routing r)) = Some ap"
    for n ob ap
  proof (rule keepsI)
    fix p x q
    assume I: "set (p_applied p t) \<subseteq> ?X" and run: "run_state (ap ob) p = (x, q)"
    show "set (p_applied q t) \<subseteq> ?X"
    proof (cases "t = TargetForNode (nd_id n) (rc_Routing r)")
      case True
      then have "child_of (pass_final r cn inst t ob) \<in> ?X" using D by (force simp: desired_children_def)
      with I run True applier.apply_result [OF pass_applier [OF ap]] applier.apply_failed [OF pass_applier [OF ap]]
      show ?thesis by (cases x) auto
    next
      case False
      with applier_apart [OF ap _ run, of t] I show ?thesis by simp
    qed
  qed
  then have "engine_run (lift_runtime rt) (pass_appliers r cc cn inst) (pass_readers r cc) (rc_Routing r) ?D
      (\<lambda>p :: ('rt, 'w) pass. set (p_applied p t) \<subseteq> ?X)"
    by (rule engine_runI [where Q = "\<lambda>_ a. set (a t) \<subseteq> ?X"])
  from engine_run.Engine_keeps [OF this _ _ assms] show ?thesis
    by (simp add: pass_start_def pass_plan_def)
qed

text \<open>What a complete run asked for is stored, with the ownership labels.\<close>

definition stored :: "(string \<rightharpoonup> string) \<Rightarrow> target \<Rightarrow> 'w \<Rightarrow> child_id set" where
  "stored l t w = {ci. ci_gvk ci \<in> set (childGVKs r t) \<and>
     (\<exists>b. objs t w (ci_key ci) = Some b \<and> l \<subseteq>\<^sub>m labels_of b)}"

lemma stored_SSA:
  assumes amb: "kinds_unambiguous r" and cl: "target_clients r cc t = Some cl"
    and ob: "o_gvk ob \<in> set (childGVKs r t)" "l \<subseteq>\<^sub>m labels_of ob"
    and run: "run_state (SSAApplier_Apply cl ob) w = (x, w')" and ci: "ci \<in> stored l u w"
  shows "ci \<in> stored l u w'"
proof (cases "u = t \<and> same_object (ci_key ci) (okey ob)")
  case False
  then have "objs u w' (ci_key ci) = objs u w (ci_key ci)"
    using api_plane.SSA_frame [OF plane [OF cl] run] leaves_storeD [OF SSA_apart [OF cl] run]
    by (cases "u = t") auto
  with ci show ?thesis by (simp add: stored_def)
next
  case True
  with ci amb ob have "ci_key ci = okey ob"
    by (auto simp: stored_def kinds_unambiguous_def same_object_alt ci_key_def okey_def)
  with ci True api_plane.SSA_label_stable [OF plane [OF cl] run _ ob(2)] show ?thesis
    by (auto simp: stored_def)
qed

lemma stored_cover:
  fixes rt :: "'rt runtime"
  assumes amb: "kinds_unambiguous r"
    and D: "\<And>n d. (n, d) \<in> D \<Longrightarrow> o_gvk d \<in> set (childGVKs r (TargetForNode (nd_id n) (rc_Routing r)))"
  shows "engine_cover (lift_runtime rt) (pass_appliers r cc cn inst) (pass_readers r cc) (rc_Routing r) D
    (\<lambda>(p :: ('rt, 'w) pass) t. stored (GCLabels (o_uid inst) cn (rc_BlueprintName r)) t (p_world p))
    (pass_final r cn inst)"
proof (rule engine_cover.intro)
  let ?l = "GCLabels (o_uid inst) cn (rc_BlueprintName r)"
  fix x u
  have "keeps (\<lambda>p :: ('rt, 'w) pass. x \<in> stored ?l u (p_world p)) (ap ob)"
    if nd: "(n, ob) \<in> D" and ap: "pass_appliers r cc cn inst (TargetForNode (nd_id n) (rc_Routing r)) = Some ap"
    for n ob ap
  proof (rule keepsI)
    fix p y q
    assume x: "x \<in> stored ?l u (p_world p)" and run: "run_state (ap ob) p = (y, q)"
    let ?t = "TargetForNode (nd_id n) (rc_Routing r)"
    from ap run obtain cl z where cl: "target_clients r cc ?t = Some cl"
      and ssa: "run_state (SSAApplier_Apply cl (pass_final r cn inst ?t ob)) (p_world p) = (z, p_world q)"
      by (auto simp: pass_appliers_client RecordingApplier_Apply_def split: prod.splits sum.splits)
    have "o_gvk (pass_final r cn inst ?t ob) = o_gvk ob"
      using pass_final_kind [of r cn inst ?t ob] by (simp add: okey_def)
    with stored_SSA [OF amb cl _ pass_final_labels ssa x] D [OF nd]
    show "x \<in> stored ?l u (p_world q)" by simp
  qed
  then show "engine_run (lift_runtime rt) (pass_appliers r cc cn inst) (pass_readers r cc) (rc_Routing r) D
      (\<lambda>p :: ('rt, 'w) pass. x \<in> stored ?l u (p_world p))"
    unfolding stored_def by (intro engine_runI [where Q = "\<lambda>m _. x \<in> {ci. ci_gvk ci \<in> set (childGVKs r u) \<and>
     (\<exists>b. m (ci_key ci) = Some b \<and> ?l \<subseteq>\<^sub>m labels_of b)}"])
next
  let ?l = "GCLabels (o_uid inst) cn (rc_BlueprintName r)"
  fix n ob t ap s ob' s'
  assume nd: "(n, ob) \<in> D" and t: "t = TargetForNode (nd_id n) (rc_Routing r)"
    and ap: "pass_appliers r cc cn inst t = Some ap" and run: "run_state (ap ob) s = (Inr ob', s')"
  from applier.apply_result [OF pass_applier [OF ap] run] pass_final_labels [of inst cn r t ob]
  have "objs t (p_world s') (okey (pass_final r cn inst t ob)) = Some ob'" "?l \<subseteq>\<^sub>m labels_of ob'"
    by (auto intro: map_le_trans)
  moreover have "ci_gvk (child_of (pass_final r cn inst t ob)) = o_gvk ob"
    using pass_final_kind [of r cn inst t ob] by (simp add: okey_def child_of_def)
  ultimately show "child_of (pass_final r cn inst t ob) \<in> stored ?l t (p_world s')"
    using D [OF nd] t by (simp add: stored_def)
qed

section \<open>Pruning\<close>

lemma pruneChildren_effect:
  assumes amb: "kinds_unambiguous r"
    and run: "run_state (pruneChildren env r cc uid applied) w = (None, w')"
    and cl: "target_clients r cc t = Some cl"
  shows "\<forall>g \<in> set (childGVKs r t). \<forall>ob. selected (uid_selector uid) g (objs t w') ob \<longrightarrow>
      terminating ob \<or> child_of ob \<in> set (applied t)"
    and "\<forall>ci \<in> set (applied t). ci_gvk ci \<in> set (childGVKs r t) \<longrightarrow>
      objs t w' (ci_key ci) = objs t w (ci_key ci)"
    and "shrinks (objs t w) (objs t w')"
proof -
  let ?keep = "\<lambda>t g ob. ChildID g (o_namespace ob) (o_name ob) \<in> set (applied t)"
  let ?body = "\<lambda>t cl. gc_kinds cl (\<lambda>g. g) (\<lambda>g. ''listing '' @ gvk_kind g @ '' children for prune: '')
    (\<lambda>g ob. ''pruning '' @ gvk_kind g @ '' '' @ o_name ob @ '': '') (?keep t)
    (uid_selector uid) (childGVKs r t)"
  let ?P = "\<lambda>t m m'. (\<forall>g \<in> set (childGVKs r t). \<forall>ob. selected (uid_selector uid) g m' ob \<longrightarrow>
      terminating ob \<or> child_of ob \<in> set (applied t)) \<and>
    (\<forall>ci \<in> set (applied t). ci_gvk ci \<in> set (childGVKs r t) \<longrightarrow> m' (ci_key ci) = m (ci_key ci)) \<and>
    shrinks m m'"
  have "?P t (objs t w) (objs t w')"
  proof (rule for_targets_each [where body = ?body and P = ?P])
    show "run_state (for_targets (target_clients r cc) ?body (env_order env)) w = (None, w')"
      using run by (simp add: pruneChildren_def)
  next
    fix t cl v v'
    assume t: "target_clients r cc t = Some cl" and b: "run_state (?body t cl) v = (None, v')"
    have key: "?keep t g a = ?keep t g b" if "okey a = okey b" for g a b
      using that by (simp add: okey_def)
    have item: "item_gvk g = g" if "g \<in> set (childGVKs r t)" for g
      using that amb by (intro item_gvk_id) (auto simp: kinds_unambiguous_def)
    have "terminating ob \<or> child_of ob \<in> set (applied t)"
      if "g \<in> set (childGVKs r t)" "selected (uid_selector uid) g (objs t v') ob" for g ob
      using api_plane.gc_kinds_done [OF plane [OF t] key b that(1), of ob] that item
      by (auto simp: child_of_def selected_def)
    moreover have "objs t v' (ci_key ci) = objs t v (ci_key ci)"
      if ci: "ci \<in> set (applied t)" "ci_gvk ci \<in> set (childGVKs r t)" for ci
    proof (rule api_plane.gc_kinds_frame [OF plane [OF t] key b])
      fix g ob
      assume g: "g \<in> set (childGVKs r t)" and "selected (uid_selector uid) (item_gvk g) (objs t v) ob"
        and keep: "\<not> ?keep t g ob"
      then have ob: "o_gvk ob = g" by (simp add: item selected_def)
      show "\<not> same_object (ci_key ci) (okey ob)"
      proof
        assume "same_object (ci_key ci) (okey ob)"
        with ob g ci(2) amb have "ci_key ci = ci_key (ChildID g (o_namespace ob) (o_name ob))"
          by (auto simp: same_object_alt okey_def ci_key_def kinds_unambiguous_def)
        with ci(1) keep show False by (simp add: ci_key_inject)
      qed
    qed
    ultimately show "?P t (objs t v) (objs t v')"
      using api_plane.gc_kinds_shrinks [OF plane [OF t] b] by blast
  qed (use cl order gc_kinds_apart in auto)
  then show "\<forall>g \<in> set (childGVKs r t). \<forall>ob. selected (uid_selector uid) g (objs t w') ob \<longrightarrow>
      terminating ob \<or> child_of ob \<in> set (applied t)"
    and "\<forall>ci \<in> set (applied t). ci_gvk ci \<in> set (childGVKs r t) \<longrightarrow>
      objs t w' (ci_key ci) = objs t w (ci_key ci)"
    and "shrinks (objs t w) (objs t w')"
    by blast+
qed

section \<open>A complete pass\<close>

lemma complete_pass_cases:
  assumes get: "run_state (c_get cc (rc_InstanceGVK r) ns nm) w = (Inr inst, w0)"
    and fg: "env_FromGraph env (rc_Graph r) (StampConsumerCluster inst cn) = Inr (rt, rt0)"
    and run: "run_state (Reconcile env r cc cn ns nm) w = ((res, None), w')" and complete: "Complete res"
  obtains res0 p w2 w3 where
    "run_state (Engine_Reconcile (env_selectors env) (lift_runtime rt) (pass_appliers r cc cn inst)
       (pass_readers r cc) (rc_Routing r)) (pass_start rt0 w0) = ((res0, None), p)" "Complete res0"
    "run_state (writeLivenessRecord env r cn (o_uid inst)) (p_world p) = (None, w2)"
    "run_state (pruneChildren env r cc (o_uid inst) (p_applied p)) w2 = (None, w3)"
    "run_state (finish_pass env cc inst rt (p_rt p) res0) w3 = ((res, None), w')"
proof -
  have live: "o_deletionTimestamp inst = None" "Finalizer \<in> set (o_finalizers inst)"
    using Reconcile_found [OF run get] complete
    by (auto simp: reconcile_deleting_def zero_result_def split: if_splits prod.splits option.splits)
  with Reconcile_found [OF run get]
  have "run_state (reconcile_apply env r cc cn inst) w0 = ((res, None), w')" by simp
  then obtain rt' rt0' res0 p w2 w3 where
    fg': "env_FromGraph env (rc_Graph r) (StampConsumerCluster inst cn) = Inr (rt', rt0')"
    and eng: "run_state (Engine_Reconcile (env_selectors env) (lift_runtime rt') (pass_appliers r cc cn inst)
       (pass_readers r cc) (rc_Routing r)) \<lparr>p_rt = rt0', p_world = w0, p_applied = (\<lambda>_. [])\<rparr> = ((res0, None), p)"
    and rec: "run_state (writeLivenessRecord env r cn (o_uid inst)) (p_world p) = (None, w2)"
    and pr: "run_state (if Complete res0 then pruneChildren env r cc (o_uid inst) (p_applied p) else ret None) w2
       = (None, w3)"
    and fin: "run_state (finish_pass env cc inst rt' (p_rt p) res0) w3 = ((res, None), w')"
    and res: "res = res0\<lparr>Requeue := True\<rparr>"
    by (rule reconcile_apply_ok [OF _ live(1)])
  from res complete have c: "Complete res0" by simp
  from fg fg' have "rt' = rt" "rt0' = rt0" by simp_all
  with that [OF _ c rec] eng pr fin c show ?thesis by (simp add: pass_start_def)
qed

lemma complete_pass_effect:
  assumes get: "run_state (c_get cc (rc_InstanceGVK r) ns nm) w = (Inr inst, w0)"
    and fg: "env_FromGraph env (rc_Graph r) (StampConsumerCluster inst cn) = Inr (rt, rt0)"
    and law: "runtime_for (rc_Graph r) rt" and amb: "kinds_unambiguous r"
    and run: "run_state (Reconcile env r cc cn ns nm) w = ((res, None), w')" and complete: "Complete res"
    and cl: "target_clients r cc t = Some cl"
    and X: "X = desired_children r cn inst (pass_plan env r cc cn inst rt rt0 w0) t"
  shows "\<forall>ob. objs t w' (okey ob) = Some ob \<and> o_gvk ob \<in> set (childGVKs r t) \<and>
      labels_of ob LabelInstanceUID = Some (o_uid inst) \<and> \<not> terminating ob \<longrightarrow> child_of ob \<in> X"
    and "X \<subseteq> stored (GCLabels (o_uid inst) cn (rc_BlueprintName r)) t w'"
proof -
  let ?l = "GCLabels (o_uid inst) cn (rc_BlueprintName r)"
  from get fg run complete obtain res0 p w2 w3 where
    eng: "run_state (Engine_Reconcile (env_selectors env) (lift_runtime rt) (pass_appliers r cc cn inst)
       (pass_readers r cc) (rc_Routing r)) (pass_start rt0 w0) = ((res0, None), p)" "Complete res0"
    and rec: "run_state (writeLivenessRecord env r cn (o_uid inst)) (p_world p) = (None, w2)"
    and pr: "run_state (pruneChildren env r cc (o_uid inst) (p_applied p)) w2 = (None, w3)"
    and fin: "run_state (finish_pass env cc inst rt (p_rt p) res0) w3 = ((res, None), w')"
    by (rule complete_pass_cases)
  have inst: "fst (okey inst) = rc_InstanceGVK r"
    using api_plane.get_found [OF plane [OF target_clients_simps(1)] get]
      api_plane.objs_key [OF plane [OF target_clients_simps(1)]] by fastforce
  have last: "objs t w' k = objs t w3 k" if "fst k \<in> set (childGVKs r t)" for k
    using that amb inst by (intro finish_frame [OF fin]) (auto simp: kinds_unambiguous_def same_object_alt)
  have applied: "set (p_applied p t) \<subseteq> X"
    unfolding X by (rule recorded_desired [OF eng(1)])
  show "\<forall>ob. objs t w' (okey ob) = Some ob \<and> o_gvk ob \<in> set (childGVKs r t) \<and>
      labels_of ob LabelInstanceUID = Some (o_uid inst) \<and> \<not> terminating ob \<longrightarrow> child_of ob \<in> X"
  proof (intro allI impI, elim conjE)
    fix ob
    assume ob: "objs t w' (okey ob) = Some ob" "o_gvk ob \<in> set (childGVKs r t)"
      "labels_of ob LabelInstanceUID = Some (o_uid inst)" and live: "\<not> terminating ob"
    then have "selected (uid_selector (o_uid inst)) (o_gvk ob) (objs t w3) ob"
      using last [of "okey ob"] by (simp add: selected_uid okey_def)
    with pruneChildren_effect(1) [OF amb pr cl] ob(2) live applied show "child_of ob \<in> X" by blast
  qed
  have "X \<subseteq> set (p_applied p t)"
    using recorded.complete_covered [OF _ eng] unfolding X
    by (fastforce simp: recorded.covered_def desired_children_def pass_plan_def Let_def)
  moreover have "X \<subseteq> stored ?l t (p_world p)"
    using engine_cover.complete_covered [OF stored_cover [OF amb plan_gvk [OF law]] _ eng]
      engine_cover.covered_def [OF stored_cover [OF amb plan_gvk [OF law]]] unfolding X
    by (fastforce simp: desired_children_def pass_plan_def Let_def)
  ultimately show "X \<subseteq> stored ?l t w'"
  proof (intro subsetI)
    fix ci
    assume ci: "ci \<in> X" and sub: "X \<subseteq> set (p_applied p t)" "X \<subseteq> stored ?l t (p_world p)"
    have g: "ci_gvk ci \<in> set (childGVKs r t)" using ci desired_children_gvk [OF law] unfolding X by blast
    have "objs t w2 (ci_key ci) = objs t (p_world p) (ci_key ci)"
      using ci desired_not_record unfolding X by (intro record_frame [OF rec]) blast
    moreover have "objs t w3 (ci_key ci) = objs t w2 (ci_key ci)"
      using pruneChildren_effect(2) [OF amb pr cl] ci sub(1) g by blast
    moreover have "objs t w' (ci_key ci) = objs t w3 (ci_key ci)"
      using last g by (simp add: ci_key_def)
    ultimately show "ci \<in> stored ?l t w'" using ci sub(2) by (auto simp: stored_def)
  qed
qed

section \<open>The liveness record after a pass\<close>

lemma engine_record_frame:
  fixes rt0 :: 'rt
  assumes "run_state (Engine_Reconcile (env_selectors env) (lift_runtime rt) (pass_appliers r cc cn inst)
      (pass_readers r cc) (rc_Routing r)) (pass_start rt0 w) = (re, p)"
  shows "objs TargetProvider (p_world p) (record_key r cn' uid) = objs TargetProvider w (record_key r cn' uid)"
proof -
  let ?Q = "\<lambda>m :: objkey \<rightharpoonup> obj. m (record_key r cn' uid) = objs TargetProvider w (record_key r cn' uid)"
  have "keeps (\<lambda>p :: ('rt, 'w) pass. ?Q (objs TargetProvider (p_world p))) (ap ob)"
    if ap: "pass_appliers r cc cn inst t = Some ap" for t ap ob
  proof (rule keepsI)
    fix p x q
    assume I: "?Q (objs TargetProvider (p_world p))" and run: "run_state (ap ob) p = (x, q)"
    have "\<not> same_object (record_key r cn' uid) (okey (pass_final r cn inst TargetProvider ob))"
      using child_not_record [of cn "o_name inst" "o_name ob" cn' uid]
      by (auto simp: pass_final_def Let_def)
    then show "?Q (objs TargetProvider (p_world q))"
      using I applier.apply_frame [OF pass_applier [OF ap] run] applier_apart [OF ap _ run, of TargetProvider]
      by (cases "t = TargetProvider") auto
  qed
  then have "engine_run (lift_runtime rt) (pass_appliers r cc cn inst) (pass_readers r cc) (rc_Routing r) UNIV
      (\<lambda>p :: ('rt, 'w) pass. ?Q (objs TargetProvider (p_world p)))"
    by (intro engine_runI [where Q = "\<lambda>m _. ?Q m"]) blast
  from engine_run.Engine_keeps [OF this _ _ assms] show ?thesis by (simp add: pass_start_def)
qed

lemma record_written:
  assumes run: "run_state (writeLivenessRecord env r cn uid) w = (None, w')"
    and live: "\<And>b. objs TargetProvider w (record_key r cn uid) = Some b \<Longrightarrow> \<not> terminating b"
  obtains now v v' ob where "run_state (env_Now env) v = (now, v')"
    "objs TargetProvider w' (record_key r cn uid) = Some ob" "\<not> terminating ob"
    "labels_of ob = record_labels r cn uid"
    "o_content ob ''data'' = Some (JObj (\<lambda>k. map_option JStr (record_data r now k)))"
  using run
proof (cases rule: writeLivenessRecord_cases)
  case (get_failed now w1 e)
  then show ?thesis by simp
next
  note prov = plane [OF target_clients_simps(2)]
  case (create now w1 w2 e y)
  then have "run_state (c_create (rc_ProviderClient r) (set_nested_string_map
         ((new_obj configMapGVK)\<lparr>o_namespace := recordNamespace r, o_name := LivenessRecordName cn uid,
            o_labels := Some (record_labels r cn uid)\<rparr>) ''data'' (record_data r now))) w2 = (None, w')" by simp
  from api_plane.create_configmap [OF prov this] that [OF create(1)] show ?thesis
    by (auto simp: set_nested_string_map_def set_nested_map_def okey_def new_obj_def labels_of_def)
next
  note prov = plane [OF target_clients_simps(2)]
  case (update now w1 w2 ex y)
  have ex: "objs TargetProvider w1 (record_key r cn uid) = Some ex"
    using api_plane.get_found [OF prov update(2)] .
  then have key: "okey ex = record_key r cn uid" by (rule api_plane.objs_key [OF prov])
  from ex live clock_frame [OF update(1)] have "\<not> terminating ex" by simp
  moreover from update have "run_state (c_update (rc_ProviderClient r) (set_nested_string_map
         (ex\<lparr>o_labels := Some (record_labels r cn uid)\<rparr>) ''data'' (record_data r now))) w2 = (None, w')" by simp
  ultimately show ?thesis
    using api_plane.update_configmap [OF prov] key that [OF update(1)]
    by (fastforce simp: set_nested_string_map_def set_nested_map_def okey_def labels_of_def terminating_def)
qed

lemma pruneChildren_other_kinds:
  assumes run: "run_state (pruneChildren env r cc uid applied) w = (None, w')"
    and cl: "target_clients r cc t = Some cl"
    and k: "\<forall>g \<in> set (childGVKs r t). \<not> same_kind (fst k) (item_gvk g)"
  shows "objs t w' k = objs t w k"
proof -
  let ?keep = "\<lambda>t g ob. ChildID g (o_namespace ob) (o_name ob) \<in> set (applied t)"
  let ?body = "\<lambda>t cl. gc_kinds cl (\<lambda>g. g) (\<lambda>g. ''listing '' @ gvk_kind g @ '' children for prune: '')
    (\<lambda>g ob. ''pruning '' @ gvk_kind g @ '' '' @ o_name ob @ '': '') (?keep t)
    (uid_selector uid) (childGVKs r t)"
  let ?P = "\<lambda>t (m :: objkey \<rightharpoonup> obj) m'. (\<forall>g \<in> set (childGVKs r t). \<not> same_kind (fst k) (item_gvk g)) \<longrightarrow> m' k = m k"
  have "?P t (objs t w) (objs t w')"
  proof (rule for_targets_each [where body = ?body and P = ?P and objs = objs])
    show "run_state (for_targets (target_clients r cc) ?body (env_order env)) w = (None, w')"
      using run by (simp add: pruneChildren_def)
  next
    fix t cl v v'
    assume t: "target_clients r cc t = Some cl" and b: "run_state (?body t cl) v = (None, v')"
    show "?P t (objs t v) (objs t v')"
      by (rule impI, rule api_plane.gc_kinds_frame [OF plane [OF t] _ b])
        (auto simp: okey_def selected_def same_object_alt)
  qed (use cl order gc_kinds_apart in auto)
  with k show ?thesis by simp
qed

lemma pass_record:
  assumes get: "run_state (c_get cc (rc_InstanceGVK r) ns nm) w = (Inr inst, w0)"
    and inst: "\<not> terminating inst" "Finalizer \<in> set (o_finalizers inst)"
    and run: "run_state (Reconcile env r cc cn ns nm) w = ((res, None), w')"
    and live: "\<And>b. objs TargetProvider w (record_key r cn (o_uid inst)) = Some b \<Longrightarrow> \<not> terminating b"
  obtains now v v' ob w2 w3 applied res0 where "run_state (env_Now env) v = (now, v')"
    "objs TargetProvider w2 (record_key r cn (o_uid inst)) = Some ob" "\<not> terminating ob"
    "labels_of ob = record_labels r cn (o_uid inst)"
    "o_content ob ''data'' = Some (JObj (\<lambda>k. map_option JStr (record_data r now k)))"
    "run_state (if Complete res then pruneChildren env r cc (o_uid inst) applied else ret None) w2 = (None, w3)"
    "objs TargetProvider w' = objs TargetProvider w3"
proof -
  from inst have live': "o_deletionTimestamp inst = None" by (simp add: terminating_def)
  from Reconcile_found [OF run get] inst live'
  have "run_state (reconcile_apply env r cc cn inst) w0 = ((res, None), w')" by simp
  then obtain rt rt0 res0 p w2 w3 where
    eng: "run_state (Engine_Reconcile (env_selectors env) (lift_runtime rt) (pass_appliers r cc cn inst)
       (pass_readers r cc) (rc_Routing r)) \<lparr>p_rt = rt0, p_world = w0, p_applied = (\<lambda>_. [])\<rparr> = ((res0, None), p)"
    and rec: "run_state (writeLivenessRecord env r cn (o_uid inst)) (p_world p) = (None, w2)"
    and pr: "run_state (if Complete res0 then pruneChildren env r cc (o_uid inst) (p_applied p) else ret None) w2
       = (None, w3)"
    and fin: "run_state (finish_pass env cc inst rt (p_rt p) res0) w3 = ((res, None), w')"
    and res: "res = res0\<lparr>Requeue := True\<rparr>"
    by (rule reconcile_apply_ok [OF _ live'])
  have "\<not> terminating b" if "objs TargetProvider (p_world p) (record_key r cn (o_uid inst)) = Some b" for b
    using that live engine_record_frame [OF eng [folded pass_start_def]]
      leaves_storeD [OF get_leaves [OF target_clients_simps(1)] get] by simp
  then obtain now v v' ob where
    rw: "run_state (env_Now env) v = (now, v')"
    "objs TargetProvider w2 (record_key r cn (o_uid inst)) = Some ob" "\<not> terminating ob"
    "labels_of ob = record_labels r cn (o_uid inst)"
    "o_content ob ''data'' = Some (JObj (\<lambda>k. map_option JStr (record_data r now k)))"
    by (rule record_written [OF rec])
  have "objs TargetProvider w' = objs TargetProvider w3"
    using finish_frame [OF fin, of TargetProvider] by auto
  with that [OF rw] pr res show ?thesis by simp
qed

lemma record_fresh:
  assumes get: "run_state (c_get cc (rc_InstanceGVK r) ns nm) w = (Inr inst, w0)"
    and inst: "\<not> terminating inst" "Finalizer \<in> set (o_finalizers inst)"
    and run: "run_state (Reconcile env r cc cn ns nm) w = ((res, None), w')"
    and live: "\<And>b. objs TargetProvider w (record_key r cn (o_uid inst)) = Some b \<Longrightarrow> \<not> terminating b"
    and kinds: "\<forall>g \<in> set (childGVKs r TargetProvider). \<not> same_kind configMapGVK (item_gvk g)"
    and now: "\<And>v now v'. run_state (env_Now env) v = (now, v') \<Longrightarrow> now \<in> N"
  shows "\<exists>now ob. now \<in> N \<and> objs TargetProvider w' (record_key r cn (o_uid inst)) = Some ob \<and>
    \<not> terminating ob \<and> labels_of ob = record_labels r cn (o_uid inst) \<and>
    o_content ob ''data'' = Some (JObj (\<lambda>k. map_option JStr (record_data r now k)))"
proof -
  from get inst run live obtain now v v' ob w2 w3 applied where
    n: "run_state (env_Now env) v = (now, v')"
    and ob: "objs TargetProvider w2 (record_key r cn (o_uid inst)) = Some ob" "\<not> terminating ob"
      "labels_of ob = record_labels r cn (o_uid inst)"
      "o_content ob ''data'' = Some (JObj (\<lambda>k. map_option JStr (record_data r now k)))"
    and pr: "run_state (if Complete res then pruneChildren env r cc (o_uid inst) applied else ret None) w2 = (None, w3)"
    and fin: "objs TargetProvider w' = objs TargetProvider w3"
    by (rule pass_record)
  have "objs TargetProvider w3 (record_key r cn (o_uid inst)) = objs TargetProvider w2 (record_key r cn (o_uid inst))"
    using pr pruneChildren_other_kinds [OF _ target_clients_simps(2), where k = "record_key r cn (o_uid inst)"]
      kinds by (auto split: if_splits)
  with n ob fin now show ?thesis by auto
qed

text \<open>When a provider template is a ConfigMap, the prune of a complete pass takes the record too.\<close>

lemma record_pruned:
  assumes get: "run_state (c_get cc (rc_InstanceGVK r) ns nm) w = (Inr inst, w0)"
    and fg: "env_FromGraph env (rc_Graph r) (StampConsumerCluster inst cn) = Inr (rt, rt0)"
    and law: "runtime_for (rc_Graph r) rt" and amb: "kinds_unambiguous r"
    and run: "run_state (Reconcile env r cc cn ns nm) w = ((res, None), w')" and complete: "Complete res"
    and live: "\<And>b. objs TargetProvider w (record_key r cn (o_uid inst)) = Some b \<Longrightarrow> \<not> terminating b"
    and cm: "configMapGVK \<in> set (childGVKs r TargetProvider)"
  shows "gone (objs TargetProvider w') (record_key r cn (o_uid inst))"
  unfolding gone_def
proof (intro allI impI, rule ccontr)
  fix ob
  assume ob: "objs TargetProvider w' (record_key r cn (o_uid inst)) = Some ob" and nt: "\<not> terminating ob"
  have inst: "\<not> terminating inst" "Finalizer \<in> set (o_finalizers inst)"
    using Reconcile_found [OF run get] complete
    by (auto simp: reconcile_deleting_def zero_result_def terminating_def split: if_splits prod.splits option.splits)
  from get inst run live obtain w2 w3 applied ob2 where
    ob2: "objs TargetProvider w2 (record_key r cn (o_uid inst)) = Some ob2"
      "labels_of ob2 = record_labels r cn (o_uid inst)"
    and pr: "run_state (if Complete res then pruneChildren env r cc (o_uid inst) applied else ret None) w2 = (None, w3)"
    and fin: "objs TargetProvider w' = objs TargetProvider w3"
    by (rule pass_record)
  have "shrinks (objs TargetProvider w2) (objs TargetProvider w3)"
    using pr complete pruneChildren_effect(3) [OF amb _ target_clients_simps(2)] by simp
  with ob fin ob2 have "labels_of ob = record_labels r cn (o_uid inst)"
    by (auto simp: labels_of_def elim: shrinksE)
  moreover have key: "okey ob = record_key r cn (o_uid inst)"
    by (rule api_plane.objs_key [OF plane [OF target_clients_simps(2)] ob])
  ultimately have "child_of ob \<in> desired_children r cn inst (pass_plan env r cc cn inst rt rt0 w0) TargetProvider"
    using complete_pass_effect(1) [OF get fg law amb run complete target_clients_simps(2) refl] ob nt cm
    by (auto simp: record_labels_def label_defs okey_def)
  from desired_not_record [OF this, of cn "o_uid inst"] key show False by simp
qed

end

section \<open>Properties\<close>

text \<open>
  C1. Convergence. Take a pass that completes without an error, and any plane the controller has a
  client for. The children the runtime asked for in this pass are all stored there, with the
  ownership labels (instance uid, consumer cluster, blueprint); and every live object of a
  templated kind with the instance's uid label is one of them. So pruning removes exactly the
  children that are no longer desired. This holds for every runtime that runs the graph's nodes and
  produces objects of the templates' kinds, and for blueprints with unambiguous child kinds.
\<close>

theorem Reconcile_complete:
  assumes "planes env r cc objs"
    and "run_state (c_get cc (rc_InstanceGVK r) ns nm) w = (Inr inst, w0)"
    and "env_FromGraph env (rc_Graph r) (StampConsumerCluster inst cn) = Inr (rt, rt0)"
    and "runtime_for (rc_Graph r) rt" and "kinds_unambiguous r"
    and "run_state (Reconcile env r cc cn ns nm) w = ((res, None), w')" and "Complete res"
    and "target_clients r cc t = Some cl"
    and "X = desired_children r cn inst (pass_plan env r cc cn inst rt rt0 w0) t"
  shows "(\<forall>ob. objs t w' (okey ob) = Some ob \<and> o_gvk ob \<in> set (childGVKs r t) \<and>
      labels_of ob LabelInstanceUID = Some (o_uid inst) \<and> \<not> terminating ob \<longrightarrow> child_of ob \<in> X) \<and>
    (\<forall>ci \<in> X. \<exists>b. objs t w' (ci_key ci) = Some b \<and>
      GCLabels (o_uid inst) cn (rc_BlueprintName r) \<subseteq>\<^sub>m labels_of b)"
  using planes.complete_pass_effect [OF assms] unfolding planes.stored_def [OF assms(1)] by blast

lemma demo_runtime_for: "runtime_for (rc_Graph (demo_reconciler pg)) (demo_runtime (demo_graph pg))"
  by (auto simp: runtime_for_def demo_runtime_def fixed_runtime_def demo_desired_def new_obj_def)

lemma all_target: "(\<forall>t. P t) \<longleftrightarrow> P TargetConsumer \<and> P TargetProvider \<and> P TargetHost"
  using target.exhaust by metis

lemma demo_not_configmap: "\<not> same_kind configMapGVK (item_gvk jobGVK)"
  by (simp add: same_kind_def demo_kind_defs item_gvk_def TrimSuffix_def suffix_def)

lemma demo_unambiguous: "pg = jobGVK \<or> pg = configMapGVK \<Longrightarrow> kinds_unambiguous (demo_reconciler pg)"
  by (auto simp: kinds_unambiguous_def same_kind_def demo_kind_defs suffix_def all_target)

lemma demo_plan:
  "pass_plan env (demo_reconciler pg) (mem_client TargetConsumer) cn inst (demo_runtime (demo_graph pg)) () w =
     [(template_node ''token'' secretGVK, hd (demo_desired (template_node ''token'' secretGVK))),
      (template_node ''agent'' pg, hd (demo_desired (template_node ''agent'' pg)))]"
proof -
  let ?rt = "lift_runtime (demo_runtime (demo_graph pg)) :: (unit, target mem) pass runtime"
  have "desired_at ?rt n s = demo_desired n" if "nd_type n = NodeTypeResource" for n s
    using that by (simp add: desired_at_def is_external_def lift_runtime_def demo_runtime_def fixed_runtime_def)
  moreover have "rt_Nodes ?rt = g_nodes (demo_graph pg)"
    by (simp add: lift_runtime_def demo_runtime_def fixed_runtime_def)
  ultimately show ?thesis
    using demo_node_ok [of _ _ "demo_graph pg" pg cn inst]
    by (auto simp: pass_plan_def pass_objects_def demo_desired_def split: prod.splits flow.splits)
      (metis fst_conv flow.simps(4) demo_node_simps(2))+
qed

lemma demo_desired_children:
  "desired_children (demo_reconciler pg) cn (demo_instance None)
     (pass_plan env (demo_reconciler pg) (mem_client TargetConsumer) cn (demo_instance None)
       (demo_runtime (demo_graph pg)) () w) TargetProvider =
   {ChildID pg ''default'' (ProviderChildName cn ''w1'' ''agent'')}"
  unfolding demo_plan
  by (auto simp: desired_children_def demo_desired_def pass_final_def Let_def child_of_def qualified_final_def
      merge_labels_def new_obj_def demo_instance_def)

theorem Reconcile_complete_witness:
  "{child_of ob | ob. mem_find (demo_after demo_runtime None jobGVK TargetProvider) (okey ob) = Some ob \<and>
      o_gvk ob = jobGVK \<and> labels_of ob LabelInstanceUID = Some ''u-1'' \<and> \<not> terminating ob} \<subseteq>
     {ChildID jobGVK ''default'' (ProviderChildName ''c1'' ''w1'' ''agent'')} \<and>
   (\<exists>b. mem_find (demo_after demo_runtime None jobGVK TargetProvider)
        (jobGVK, ''default'', ProviderChildName ''c1'' ''w1'' ''agent'') = Some b \<and>
      GCLabels ''u-1'' ''c1'' ''widgets'' \<subseteq>\<^sub>m labels_of b)"
proof -
  have "(\<forall>ob. mem_find (demo_after demo_runtime None jobGVK TargetProvider) (okey ob) = Some ob \<and>
      o_gvk ob \<in> set (childGVKs (demo_reconciler jobGVK) TargetProvider) \<and>
      labels_of ob LabelInstanceUID = Some (o_uid (demo_instance None)) \<and> \<not> terminating ob \<longrightarrow>
      child_of ob \<in> {ChildID jobGVK ''default'' (ProviderChildName ''c1'' ''w1'' ''agent'')}) \<and>
    (\<forall>ci \<in> {ChildID jobGVK ''default'' (ProviderChildName ''c1'' ''w1'' ''agent'')}.
      \<exists>b. mem_find (demo_after demo_runtime None jobGVK TargetProvider) (ci_key ci) = Some b \<and>
      GCLabels (o_uid (demo_instance None)) ''c1'' (rc_BlueprintName (demo_reconciler jobGVK)) \<subseteq>\<^sub>m labels_of b)"
    by (rule Reconcile_complete [OF demo.planes_axioms _ _ demo_runtime_for demo_unambiguous demo_run _
          demo_client demo_desired_children [symmetric]]) (simp_all add: demo_get)
  then show ?thesis by (auto simp: ci_key_def)
qed

text \<open>
  C15. The liveness record. After every error-free pass over a live instance with the finalizer,
  complete or not, the provider workspace holds the instance's record under its derived name, with
  the ownership and liveness labels, the child kinds of the blueprint, and a time stamp read from
  the clock in this pass; provided no provider template is a ConfigMap.
\<close>

theorem Reconcile_record:
  assumes "planes env r cc objs"
    and "run_state (c_get cc (rc_InstanceGVK r) ns nm) w = (Inr inst, w0)"
    and "\<not> terminating inst" and "Finalizer \<in> set (o_finalizers inst)"
    and "run_state (Reconcile env r cc cn ns nm) w = ((res, None), w')"
    and "\<And>b. objs TargetProvider w (record_key r cn (o_uid inst)) = Some b \<Longrightarrow> \<not> terminating b"
    and "\<forall>g \<in> set (childGVKs r TargetProvider). \<not> same_kind configMapGVK (item_gvk g)"
    and "\<And>v now v'. run_state (env_Now env) v = (now, v') \<Longrightarrow> now \<in> N"
  shows "\<exists>now ob. now \<in> N \<and> objs TargetProvider w' (record_key r cn (o_uid inst)) = Some ob \<and>
    \<not> terminating ob \<and> labels_of ob = record_labels r cn (o_uid inst) \<and>
    o_content ob ''data'' = Some (JObj (\<lambda>k. map_option JStr (record_data r now k)))"
  by (rule planes.record_fresh [OF assms])

theorem Reconcile_record_witness:
  "\<exists>now ob. now \<in> {0} \<and> mem_find (demo_after demo_runtime None jobGVK TargetProvider)
      (configMapGVK, ''default'', LivenessRecordName ''c1'' ''u-1'') = Some ob \<and>
    \<not> terminating ob \<and> labels_of ob = record_labels (demo_reconciler jobGVK) ''c1'' ''u-1'' \<and>
    o_content ob ''data'' = Some (JObj (\<lambda>k. map_option JStr (record_data (demo_reconciler jobGVK) now k)))"
  using Reconcile_record [OF demo.planes_axioms _ _ _ demo_run [of jobGVK], where inst = "demo_instance None" and N = "{0}"]
  by (simp add: demo_get demo_no_record demo_not_configmap)

text \<open>
  C23. A blueprint that templates a ConfigMap into the provider workspace loses its liveness record:
  the record carries the instance's uid label and is a ConfigMap, so the prune of every complete
  pass deletes the record the same pass has just written.
\<close>

theorem Reconcile_prunes_record:
  assumes "planes env r cc objs"
    and "run_state (c_get cc (rc_InstanceGVK r) ns nm) w = (Inr inst, w0)"
    and "env_FromGraph env (rc_Graph r) (StampConsumerCluster inst cn) = Inr (rt, rt0)"
    and "runtime_for (rc_Graph r) rt" and "kinds_unambiguous r"
    and "run_state (Reconcile env r cc cn ns nm) w = ((res, None), w')" and "Complete res"
    and "\<And>b. objs TargetProvider w (record_key r cn (o_uid inst)) = Some b \<Longrightarrow> \<not> terminating b"
    and "configMapGVK \<in> set (childGVKs r TargetProvider)"
  shows "gone (objs TargetProvider w') (record_key r cn (o_uid inst))"
  by (rule planes.record_pruned [OF assms])

theorem Reconcile_prunes_record_witness:
  "gone (mem_find (demo_after demo_runtime None configMapGVK TargetProvider))
     (record_key (demo_reconciler configMapGVK) ''c1'' (o_uid (demo_instance None)))"
  by (rule Reconcile_prunes_record [OF demo.planes_axioms _ _ demo_runtime_for demo_unambiguous demo_run])
    (simp_all add: demo_get demo_no_record)

section \<open>What is sent\<close>

text \<open>
  C20. Every object a pass sends is well-typed. Let the runtime produce objects of the templates' kinds with valid names, and let cluster and
  instance have valid names. Then for each object of the pass, the applier chain of its target sends to that target's server, with
  server-side apply, an object of one of the kinds the collectors know for the target, with a DNS-1123 name of at most 253
  characters, with the ownership labels, in the namespace and with the content the runtime gave it; on the consumer plane it is
  owned by the instance, on the other planes, where an owner reference could not be resolved, no owner is added.
\<close>

theorem Reconcile_sends_typed:
  assumes "runtime_for (rc_Graph r) rt"
    and "\<forall>n \<in> set (rt_Nodes rt). \<forall>s ds s'. run_state (rt_GetDesired rt n) s = (Inr ds, s') \<longrightarrow> (\<forall>d \<in> set ds. dns1123 (o_name d) \<and> length (o_name d) \<le> maxNameLen)"
    and "dns1123 cn" and "dns1123 (o_name inst)"
    and "(n, d) \<in> set (pass_plan env r cc cn inst rt rt0 w)" and "TargetForNode (nd_id n) (rc_Routing r) = t"
    and "pass_appliers r cc cn inst t = Some ap"
  shows "\<exists>cl ob. target_clients r cc t = Some cl \<and>
    ap d = RecordingApplier_Apply (\<lambda>ob. lift_world (SSAApplier_Apply cl ob)) t ob \<and>
    o_gvk ob \<in> set (childGVKs r t) \<and> dns1123 (o_name ob) \<and> length (o_name ob) \<le> maxNameLen \<and>
    GCLabels (o_uid inst) cn (rc_BlueprintName r) \<subseteq>\<^sub>m labels_of ob \<and>
    o_namespace ob = o_namespace d \<and> o_content ob = o_content d \<and>
    o_ownerRefs ob = (if t = TargetConsumer then [owner_reference inst] else o_ownerRefs d)"
proof -
  obtain cl where cl: "target_clients r cc t = Some cl"
    and ap: "ap d = RecordingApplier_Apply (\<lambda>ob. lift_world (SSAApplier_Apply cl ob)) t (pass_final r cn inst t d)"
    using assms(7) by (auto simp: pass_appliers_client)
  have d: "dns1123 (o_name d)" "length (o_name d) \<le> maxNameLen" using plan_desired [OF assms(5)] assms(2) by metis+
  have kind: "o_gvk (pass_final r cn inst t d) \<in> set (childGVKs r t)"
    using plan_gvk [OF assms(1,5)] assms(6) pass_final_kind [of r cn inst t d] by (simp add: okey_def)
  have "dns1123 (o_name (pass_final r cn inst t d)) \<and> length (o_name (pass_final r cn inst t d)) \<le> maxNameLen"
    using d ProviderChildName_dns1123 [OF assms(3,4) d(1)] ProviderChildName_length [of cn "o_name inst" "o_name d"]
    by (simp add: pass_final_def consumer_final_def qualified_final_def merge_labels_def Let_def)
  moreover have "o_namespace (pass_final r cn inst t d) = o_namespace d \<and> o_content (pass_final r cn inst t d) = o_content d \<and>
      o_ownerRefs (pass_final r cn inst t d) = (if t = TargetConsumer then [owner_reference inst] else o_ownerRefs d)"
    by (simp add: pass_final_def consumer_final_def qualified_final_def merge_labels_def Let_def)
  ultimately show ?thesis using cl ap kind pass_final_labels by blast
qed

theorem Reconcile_sends_typed_witness:
  "\<exists>cl ob ap. pass_appliers (demo_reconciler jobGVK) (mem_client TargetConsumer) ''c1'' (demo_instance None) TargetProvider = Some ap \<and>
     ap (hd (demo_desired (template_node ''agent'' jobGVK))) =
       (RecordingApplier_Apply (\<lambda>ob. lift_world (SSAApplier_Apply cl ob)) TargetProvider ob :: ((unit, target mem) pass, error + obj) state) \<and>
     o_gvk ob = jobGVK \<and> dns1123 (o_name ob)"
proof -
  let ?r = "demo_reconciler jobGVK" and ?rt = "demo_runtime (demo_graph jobGVK)"
  obtain ap :: "(unit, target mem) pass applier" where ap:
    "pass_appliers ?r (mem_client TargetConsumer) ''c1'' (demo_instance None) TargetProvider = Some ap"
    by (auto simp: pass_appliers_client)
  have names: "\<forall>n \<in> set (rt_Nodes ?rt). \<forall>s ds s'. run_state (rt_GetDesired ?rt n) s = (Inr ds, s') \<longrightarrow>
      (\<forall>d \<in> set ds. dns1123 (o_name d) \<and> length (o_name d) \<le> maxNameLen)"
    by (auto simp: demo_runtime_def fixed_runtime_def demo_desired_def dns1123_def dns_char_def dns_alnum_def dns_pair_def maxNameLen_def)
  have plan: "(template_node ''agent'' jobGVK, hd (demo_desired (template_node ''agent'' jobGVK))) \<in>
      set (pass_plan (mem_env demo_runtime 0) ?r (mem_client TargetConsumer) ''c1'' (demo_instance None) ?rt () (\<lambda>_. []))"
    unfolding demo_plan by simp
  have rt: "runtime_for (rc_Graph ?r) ?rt" by (rule demo_runtime_for)
  have "dns1123 ''c1''" "dns1123 (o_name (demo_instance None))"
    by (simp_all add: demo_instance_def dns1123_def dns_char_def dns_alnum_def dns_pair_def)
  from Reconcile_sends_typed [OF rt names this plan _ ap] ap show ?thesis by auto
qed

end
