(* ===== verification/Sweeper.thy ===== *)
theory Sweeper
  imports Converge
begin

text \<open>
  The orphan sweeper: \<^verbatim>\<open>src/internal/controller/sweeper.go\<close>. It reads the liveness records the
  instance reconciler writes and reclaims the children of instances whose record has gone stale.
  \<^verbatim>\<open>startedAt\<close> is the one mutable field, so \<open>Sweep\<close> returns the sweeper with it; log lines are left
  out. \<open>time_Now\<close> is Go's \<^verbatim>\<open>time.Now\<close>.
\<close>

record 'w sweeper =
  sw_ProviderClient :: "'w client"
  sw_HostClient :: "'w client option"
  sw_RecordNamespace :: string
  sw_StaleAfter :: duration
  sw_SweepInterval :: duration
  sw_Clock :: "('w, time) state option"
  sw_startedAt :: time

definition sw_now :: "('w, time) state \<Rightarrow> 'w sweeper \<Rightarrow> ('w, time) state" where
  "sw_now time_Now s = (case sw_Clock s of Some c \<Rightarrow> c | None \<Rightarrow> time_Now)"

definition sw_recordNamespace :: "'w sweeper \<Rightarrow> string" where
  "sw_recordNamespace s =
     (if sw_RecordNamespace s \<noteq> '''' then sw_RecordNamespace s else defaultRecordNamespace)"

definition parseGVKToken :: "string \<Rightarrow> error + gvk" where
  "parseGVKToken token =
     (case go_splitn CHR ''/'' 3 token of
        [a, b, c] \<Rightarrow>
          if b = '''' \<or> c = '''' then Inl (ErrorString (''malformed GVK token '' @ go_quote token))
          else Inr (GVK a b c)
      | _ \<Rightarrow> Inl (ErrorString (''malformed GVK token '' @ go_quote token)))"

text \<open>The kinds the loop over the tokens acts on: blank and malformed tokens are skipped.\<close>

definition sweep_token :: "string \<Rightarrow> gvk option" where
  "sweep_token tok =
     (let token = TrimSpace tok in
      if token = '''' then None
      else case parseGVKToken token of Inl _ \<Rightarrow> None | Inr g \<Rightarrow> Some g)"

definition sweep_kinds :: "string \<Rightarrow> gvk list" where
  "sweep_kinds gvkRaw = List.map_filter sweep_token (go_split CHR '','' gvkRaw)"

definition sweepChildrenVia :: "'w client \<Rightarrow> string \<Rightarrow> string \<Rightarrow> ('w, error option) state" where
  "sweepChildrenVia cl gvkRaw instanceUID =
     gc_kinds cl list_gvk
       (\<lambda>g. ''listing '' @ gvk_kind g @ '' children: '')
       (\<lambda>g ob. ''deleting '' @ gvk_kind g @ '' '' @ o_name ob @ '': '')
       (\<lambda>g ob. False) [MatchingLabels [(LabelInstanceUID, instanceUID)]] (sweep_kinds gvkRaw)"

definition sweepChildren :: "'w sweeper \<Rightarrow> obj \<Rightarrow> string \<Rightarrow> ('w, error option) state" where
  "sweepChildren s rec instanceUID =
     (if instanceUID = '''' then
        ret (Some (ErrorString (''liveness record '' @ o_name rec @ '' missing '' @ LabelInstanceUID @ '' label'')))
      else
        do {
          err \<leftarrow> sweepChildrenVia (sw_ProviderClient s) (nested_string rec ''data'' ''providerChildGVKs'') instanceUID;
          case err of
            Some e \<Rightarrow> ret (Some e)
          | None \<Rightarrow>
              (case sw_HostClient s of
                 None \<Rightarrow> ret None
               | Some hc \<Rightarrow>
                   sweepChildrenVia hc (nested_string rec ''data'' ''hostChildGVKs'') instanceUID)
        })"

text \<open>
  \<open>stale s now rec\<close>: the record's time stamp parses and is older than \<^verbatim>\<open>StaleAfter\<close>; the loop acts
  on these records only.
\<close>

definition stale :: "'w sweeper \<Rightarrow> time \<Rightarrow> obj \<Rightarrow> bool" where
  "stale s now rec \<longleftrightarrow>
     (case parse_RFC3339 (nested_string rec ''data'' ''lastReconciled'') of
        Inl _ \<Rightarrow> False
      | Inr t \<Rightarrow> \<not> time_Sub now t \<le> sw_StaleAfter s)"

fun sweep_records :: "'w sweeper \<Rightarrow> time \<Rightarrow> obj list \<Rightarrow> ('w, error option) state" where
  "sweep_records s now [] = ret None"
| "sweep_records s now (rec # recs) =
     (if \<not> stale s now rec then sweep_records s now recs
      else
        do {
          err \<leftarrow> sweepChildren s rec (go_index (labels_of rec) LabelInstanceUID);
          case err of
            Some _ \<Rightarrow> sweep_records s now recs
          | None \<Rightarrow>
              do {
                derr \<leftarrow> c_delete (sw_ProviderClient s) rec;
                case IgnoreNotFound derr of
                  Some e \<Rightarrow> ret (Some (Wrapped (''deleting liveness record '' @ o_name rec @ '': '') e))
                | None \<Rightarrow> sweep_records s now recs
              }
        })"

definition record_options :: "'w sweeper \<Rightarrow> list_option list" where
  "record_options s = [InNamespace (sw_recordNamespace s), MatchingLabels [(LabelLiveness, ''true'')]]"

definition Sweep :: "('w, time) state \<Rightarrow> 'w sweeper \<Rightarrow> ('w, error option \<times> 'w sweeper) state" where
  "Sweep time_Now s0 =
     do {
       now \<leftarrow> sw_now time_Now s0;
       let s = (if IsZero (sw_startedAt s0) then s0\<lparr>sw_startedAt := now\<rparr> else s0);
       if time_Sub now (sw_startedAt s) < sw_StaleAfter s then ret (None, s)
       else
         do {
           r \<leftarrow> c_list (sw_ProviderClient s) (GVK '''' ''v1'' ''ConfigMapList'') (record_options s);
           case r of
             Inl e \<Rightarrow> ret (Some (Wrapped ''listing liveness records: '' e), s)
           | Inr items \<Rightarrow>
               do {
                 err \<leftarrow> sweep_records s now items;
                 ret (err, s)
               }
         }
     }"

text \<open>
  The runnable loop. An event is a tick, with what the rest of the world did since the last event,
  or the cancellation of the context. A sweep error is only logged. The result is the sweeper and
  whether the loop has returned.
\<close>

datatype 'w sweep_event = Tick "'w \<Rightarrow> 'w" | Cancelled

fun Start_loop :: "('w, time) state \<Rightarrow> 'w sweeper \<Rightarrow> 'w sweep_event list \<Rightarrow> ('w, 'w sweeper \<times> bool) state" where
  "Start_loop time_Now s [] = ret (s, False)"
| "Start_loop time_Now s (Cancelled # es) = ret (s, True)"
| "Start_loop time_Now s (Tick f # es) =
     do {
       State_Monad.update f;
       (err, s') \<leftarrow> Sweep time_Now s;
       Start_loop time_Now s' es
     }"

definition tick_interval :: "'w sweeper \<Rightarrow> duration" where
  "tick_interval s = (if sw_SweepInterval s \<le> 0 then Minute else sw_SweepInterval s)"

definition Start :: "('w, time) state \<Rightarrow> 'w sweeper \<Rightarrow> 'w sweep_event list \<Rightarrow> ('w, 'w sweeper \<times> bool) state" where
  "Start time_Now s es =
     do {
       now \<leftarrow> sw_now time_Now s;
       Start_loop time_Now (s\<lparr>sw_startedAt := now\<rparr>) es
     }"

section \<open>Reading the recorded kinds back\<close>

definition wf_gvk :: "gvk \<Rightarrow> bool" where
  "wf_gvk g \<longleftrightarrow> list_all (\<lambda>c. printable c \<and> c \<noteq> CHR ''/'' \<and> c \<noteq> CHR '','')
       (gvk_group g @ gvk_version g @ gvk_kind g) \<and>
     gvk_version g \<noteq> '''' \<and> gvk_kind g \<noteq> ''''"

lemma wf_gvk_chars:
  assumes "wf_gvk g" and "c \<in> set (gvk_group g) \<union> set (gvk_version g) \<union> set (gvk_kind g)"
  shows "printable c \<and> c \<noteq> CHR ''/'' \<and> c \<noteq> CHR '',''"
  using assms by (auto simp: wf_gvk_def list_all_iff)

lemma sweep_token_gvk:
  assumes "wf_gvk g"
  shows "sweep_token (gvk_token g) = Some g"
proof -
  have "printable CHR ''/''" by (simp add: printable_def)
  then have "TrimSpace (gvk_token g) = gvk_token g"
    using wf_gvk_chars [OF assms] by (intro TrimSpace_printable) (auto simp: gvk_token_def)
  moreover have "go_splitn CHR ''/'' 3 (gvk_token g) = [gvk_group g, gvk_version g, gvk_kind g]"
    using wf_gvk_chars [OF assms] go_splitn_three [of "CHR ''/''" "gvk_group g" "gvk_version g" "gvk_kind g"]
    by (auto simp: gvk_token_def)
  ultimately show ?thesis
    using assms by (simp add: sweep_token_def parseGVKToken_def wf_gvk_def gvk_token_def)
qed

lemma sweep_kinds_join:
  assumes "\<forall>g \<in> set gs. wf_gvk g"
  shows "sweep_kinds (go_join '','' (map gvk_token gs)) = gs"
proof (cases "gs = []")
  case True
  have "TrimSpace '''' = ''''" by (rule TrimSpace_printable) simp
  with True show ?thesis by (simp add: sweep_kinds_def sweep_token_def)
next
  case False
  have "CHR '','' \<notin> set (gvk_token g)" if "g \<in> set gs" for g
    using wf_gvk_chars [of g] that assms by (auto simp: gvk_token_def)
  with False have "go_split CHR '','' (go_join '','' (map gvk_token gs)) = map gvk_token gs"
    by (intro go_split_join) auto
  moreover have "List.map_filter sweep_token (map gvk_token gs) = gs"
    using assms by (induction gs) (auto simp: sweep_token_gvk)
  ultimately show ?thesis by (simp add: sweep_kinds_def)
qed

text \<open>
  C27. The child kinds written into a liveness record are read back exactly, in order: the sweeper
  acts on precisely the kinds the reconciler's blueprint templates onto the target. Groups, versions
  and kinds are made of printable characters other than slash and comma; the core group is empty.
\<close>

theorem childGVKString_roundtrip:
  assumes "\<forall>g \<in> set (childGVKs r t). wf_gvk g"
  shows "sweep_kinds (childGVKString r t) = childGVKs r t"
  using sweep_kinds_join [OF assms] by (simp add: childGVKString_def)

theorem childGVKString_roundtrip_witness:
  "sweep_kinds (childGVKString (demo_reconciler jobGVK) TargetProvider) = [jobGVK]"
  using childGVKString_roundtrip [of "demo_reconciler jobGVK" TargetProvider]
  by (simp add: wf_gvk_def printable_def jobGVK_def)

section \<open>The startup grace period\<close>

text \<open>The worlds at the ticks when the sweeper itself does nothing.\<close>

fun tick_worlds :: "'w sweep_event list \<Rightarrow> 'w \<Rightarrow> 'w list" where
  "tick_worlds [] w = []"
| "tick_worlds (Cancelled # es) w = []"
| "tick_worlds (Tick f # es) w = f w # tick_worlds es (f w)"

lemma Sweep_in_grace:
  assumes "run_state (sw_now time_Now s) w = (now, w1)" and "\<not> IsZero (sw_startedAt s)"
    and "time_Sub now (sw_startedAt s) < sw_StaleAfter s"
  shows "run_state (Sweep time_Now s) w = ((None, s), w1)"
  using assms by (simp add: Sweep_def Let_def)

lemma Start_loop_in_grace:
  assumes "\<And>w. run_state (sw_now time_Now s) w = (T w, w)" and "\<not> IsZero (sw_startedAt s)"
    and "\<forall>v \<in> set (tick_worlds es w). time_Sub (T v) (sw_startedAt s) < sw_StaleAfter s"
  shows "snd (run_state (Start_loop time_Now s es) w) = last (w # tick_worlds es w)"
  using assms(3)
proof (induction es arbitrary: w)
  case (Cons e es)
  show ?case
  proof (cases e)
    case (Tick f)
    with Cons.prems have "run_state (Sweep time_Now s) (f w) = ((None, s), f w)"
      by (intro Sweep_in_grace [OF assms(1,2)]) simp
    with Cons Tick show ?thesis by (simp add: State_Monad.update_def State_Monad.get_def State_Monad.set_def)
  qed simp
qed simp

text \<open>
  C25. Startup grace: however the rest of the world changes between the ticks, as long as less than
  \<^verbatim>\<open>StaleAfter\<close> has passed since the sweeper was started, no tick changes anything. (The clock is
  read-only and does not show the zero time.)
\<close>

theorem Start_grace:
  assumes "\<And>w. run_state (sw_now time_Now s) w = (T w, w)" and "\<not> IsZero (T w)"
    and "\<forall>v \<in> set (tick_worlds es w). time_Sub (T v) (T w) < sw_StaleAfter s"
  shows "snd (run_state (Start time_Now s es) w) = last (w # tick_worlds es w)"
proof -
  have "run_state (sw_now time_Now (s\<lparr>sw_startedAt := T w\<rparr>)) v = (T v, v)" for v
    using assms(1) by (simp add: sw_now_def split: option.splits)
  from Start_loop_in_grace [OF this, of es w] assms show ?thesis by (simp add: Start_def)
qed

definition demo_sweeper :: "time \<Rightarrow> time \<Rightarrow> target mem sweeper" where
  "demo_sweeper started now = \<lparr>sw_ProviderClient = mem_client TargetProvider,
     sw_HostClient = Some (mem_client TargetHost), sw_RecordNamespace = '''', sw_StaleAfter = 5 * Minute,
     sw_SweepInterval = Minute, sw_Clock = Some (ret now), sw_startedAt = started\<rparr>"

theorem Start_grace_witness:
  "snd (run_state (Start (ret 7) (demo_sweeper 0 7) [Tick id, Tick id, Cancelled]) (demo_world None jobGVK)) =
     demo_world None jobGVK"
  using Start_grace [of "ret 7" "demo_sweeper 0 7" "\<lambda>_. 7" "demo_world None jobGVK" "[Tick id, Tick id, Cancelled]"]
  by (simp add: sw_now_def demo_sweeper_def IsZero_def time_Sub_def Minute_def Second_def)

section \<open>What a sweep touches\<close>

definition sw_clients :: "'w sweeper \<Rightarrow> (target \<rightharpoonup> 'w client)" where
  "sw_clients s = (\<lambda>t. case t of TargetProvider \<Rightarrow> Some (sw_ProviderClient s)
     | TargetHost \<Rightarrow> sw_HostClient s | TargetConsumer \<Rightarrow> None)"

lemma sw_clients_simps [simp]:
  "sw_clients s TargetProvider = Some (sw_ProviderClient s)" "sw_clients s TargetHost = sw_HostClient s"
  by (simp_all add: sw_clients_def)

locale sweep_planes =
  fixes s :: "'w sweeper" and objs :: "target \<Rightarrow> 'w \<Rightarrow> objkey \<rightharpoonup> obj"
  assumes plane: "sw_clients s t = Some cl \<Longrightarrow> api_plane cl (objs t)"
    and apart: "sw_clients s t = Some cl \<Longrightarrow> t' \<noteq> t \<Longrightarrow> client_leaves_store (objs t') cl"

text \<open>The kinds a record names for a plane.\<close>

definition record_kinds :: "obj \<Rightarrow> target \<Rightarrow> gvk list" where
  "record_kinds rec t = (case t of
     TargetProvider \<Rightarrow> sweep_kinds (nested_string rec ''data'' ''providerChildGVKs'')
   | TargetHost \<Rightarrow> sweep_kinds (nested_string rec ''data'' ''hostChildGVKs'')
   | TargetConsumer \<Rightarrow> [])"

abbreviation record_uid :: "obj \<Rightarrow> string" where
  "record_uid rec \<equiv> go_index (labels_of rec) LabelInstanceUID"

text \<open>The object at \<open>k\<close> has, in the store \<open>m\<close>, none of the uid labels of the stale records.\<close>

definition untouched :: "'w sweeper \<Rightarrow> time \<Rightarrow> obj list \<Rightarrow> objkey \<Rightarrow> (objkey \<rightharpoonup> obj) \<Rightarrow> bool" where
  "untouched s now recs k m \<longleftrightarrow> (\<forall>rec \<in> set recs. stale s now rec \<longrightarrow> (\<forall>k' ob. m k' = Some ob \<and>
     labels_of ob LabelInstanceUID = Some (record_uid rec) \<and> record_uid rec \<noteq> '''' \<longrightarrow>
     \<not> same_object k k'))"

lemma item_list_gvk [simp]: "item_gvk (list_gvk g) = g"
  by (cases g) (simp add: item_gvk_def list_gvk_def TrimSuffix_def suffix_def)

lemma sweepChildren_cases:
  assumes "run_state (sweepChildren s rec uid) w = (r, w')"
  obtains (no_uid) "uid = ''''" "w' = w" "r \<noteq> None"
  | (provider_failed) e where "uid \<noteq> ''''" "run_state (sweepChildrenVia (sw_ProviderClient s)
      (nested_string rec ''data'' ''providerChildGVKs'') uid) w = (Some e, w')" "r = Some e"
  | (provider_only) "uid \<noteq> ''''" "sw_HostClient s = None" "run_state (sweepChildrenVia (sw_ProviderClient s)
      (nested_string rec ''data'' ''providerChildGVKs'') uid) w = (None, w')" "r = None"
  | (both) hc w1 where "uid \<noteq> ''''" "sw_HostClient s = Some hc" "run_state (sweepChildrenVia (sw_ProviderClient s)
      (nested_string rec ''data'' ''providerChildGVKs'') uid) w = (None, w1)"
      "run_state (sweepChildrenVia hc (nested_string rec ''data'' ''hostChildGVKs'') uid) w1 = (r, w')"
  using assms by (auto simp: sweepChildren_def split: if_splits prod.splits option.splits)

lemma shrinks_label:
  assumes "shrinks m m'" and "m' k = Some ob" and "labels_of ob l = v"
  shows "\<exists>b. m k = Some b \<and> labels_of b l = v"
  using assms unfolding shrinks_def labels_of_def by fastforce

context sweep_planes
begin

lemma via_apart:
  assumes "sw_clients s t = Some cl" and "u \<noteq> t"
  shows "leaves_store (objs u) (sweepChildrenVia cl raw uid)"
  using apart [OF assms] unfolding leaves_store_def sweepChildrenVia_def client_leaves_store_def
  by (auto intro!: keeps_gc_kinds)

lemma via_shrinks:
  assumes "sw_clients s t = Some cl" and "run_state (sweepChildrenVia cl raw uid) w = (r, w')"
  shows "shrinks (objs u w) (objs u w')"
proof (cases "u = t")
  case True
  with assms api_plane.gc_kinds_shrinks [OF plane [OF assms(1)]] show ?thesis
    by (fastforce simp: sweepChildrenVia_def)
next
  case False
  then show ?thesis using leaves_storeD [OF via_apart [OF assms(1)] assms(2)] by simp
qed

lemma via_frame:
  assumes cl: "sw_clients s t = Some cl" and run: "run_state (sweepChildrenVia cl raw uid) w = (r, w')"
    and k: "\<And>k' ob. objs u w k' = Some ob \<Longrightarrow> labels_of ob LabelInstanceUID = Some uid \<Longrightarrow>
      \<not> same_object k k'"
  shows "objs u w' k = objs u w k"
proof (cases "u = t")
  case True
  show ?thesis
    unfolding True
    by (rule api_plane.gc_kinds_frame [OF plane [OF cl] _ run [unfolded sweepChildrenVia_def]])
      (use k True in \<open>auto simp: selected_def\<close>)
next
  case False
  then show ?thesis using leaves_storeD [OF via_apart [OF cl] run] by simp
qed

lemma via_done:
  assumes cl: "sw_clients s t = Some cl" and run: "run_state (sweepChildrenVia cl raw uid) w = (None, w')"
    and "g \<in> set (sweep_kinds raw)" and "objs t w' (okey ob) = Some ob" and "o_gvk ob = g"
    and "labels_of ob LabelInstanceUID = Some uid"
  shows "terminating ob"
  using api_plane.gc_kinds_done [OF plane [OF cl] _ run [unfolded sweepChildrenVia_def] assms(3), of ob] assms
  by (simp add: selected_def)

lemma children_shrinks:
  assumes "run_state (sweepChildren s rec uid) w = (r, w')"
  shows "shrinks (objs u w) (objs u w')"
  using assms
proof (cases rule: sweepChildren_cases)
  case (both hc w1)
  have "shrinks (objs u w1) (objs u w')"
    using via_shrinks [of TargetHost, OF _ both(4)] both(2) by simp
  with via_shrinks [OF sw_clients_simps(1) both(3)] show ?thesis by (rule shrinks_trans)
qed (auto intro: via_shrinks [of TargetProvider])

lemma children_frame:
  assumes run: "run_state (sweepChildren s rec uid) w = (r, w')"
    and k: "\<And>k' ob. objs u w k' = Some ob \<Longrightarrow> labels_of ob LabelInstanceUID = Some uid \<Longrightarrow> uid \<noteq> '''' \<Longrightarrow>
      \<not> same_object k k'"
  shows "objs u w' k = objs u w k"
  using run
proof (cases rule: sweepChildren_cases)
  case (provider_failed e)
  with via_frame [OF sw_clients_simps(1) provider_failed(2)] k show ?thesis by blast
next
  case provider_only
  with via_frame [OF sw_clients_simps(1) provider_only(3)] k show ?thesis by blast
next
  case (both hc w1)
  have sh: "shrinks (objs u w) (objs u w1)" by (rule via_shrinks [OF sw_clients_simps(1) both(3)])
  have "objs u w1 k = objs u w k" using via_frame [OF sw_clients_simps(1) both(3)] k both(1) by blast
  moreover have "objs u w' k = objs u w1 k"
  proof (rule via_frame [of TargetHost, OF _ both(4)])
    show "\<not> same_object k k'"
      if "objs u w1 k' = Some ob" "labels_of ob LabelInstanceUID = Some uid" for k' ob
    proof -
      from shrinks_label [OF sh that] obtain b where "objs u w k' = Some b"
        "labels_of b LabelInstanceUID = Some uid" by blast
      with k both(1) show ?thesis by blast
    qed
  qed (use both in simp)
  ultimately show ?thesis by simp
qed simp

lemma record_delete_shrinks:
  assumes "run_state (c_delete (sw_ProviderClient s) rec) w = (r, w')"
  shows "shrinks (objs u w) (objs u w')"
proof (cases "u = TargetProvider")
  case True
  with assms api_plane.delete_shrinks [OF plane [OF sw_clients_simps(1)]] show ?thesis by blast
next
  case False
  from leaves_storeD [OF client_leaves(5) [OF apart [OF sw_clients_simps(1) False]] assms] show ?thesis by simp
qed

lemma sweep_records_Cons:
  assumes "run_state (sweep_records s now (rec # recs)) w = (r, w')"
  obtains (fresh) "\<not> stale s now rec" "run_state (sweep_records s now recs) w = (r, w')"
  | (failed) e w1 where "stale s now rec" "run_state (sweepChildren s rec (record_uid rec)) w = (Some e, w1)"
      "run_state (sweep_records s now recs) w1 = (r, w')"
  | (stuck) w1 e where "stale s now rec" "run_state (sweepChildren s rec (record_uid rec)) w = (None, w1)"
      "run_state (c_delete (sw_ProviderClient s) rec) w1 = (e, w')" "IgnoreNotFound e \<noteq> None" "r \<noteq> None"
  | (swept) w1 e w2 where "stale s now rec" "run_state (sweepChildren s rec (record_uid rec)) w = (None, w1)"
      "run_state (c_delete (sw_ProviderClient s) rec) w1 = (e, w2)" "IgnoreNotFound e = None"
      "run_state (sweep_records s now recs) w2 = (r, w')"
  using assms by (auto split: if_splits prod.splits option.splits)

lemma records_shrinks:
  "run_state (sweep_records s now recs) w = (r, w') \<Longrightarrow> shrinks (objs u w) (objs u w')"
proof (induction recs arbitrary: w)
  case Nil
  then show ?case by simp
next
  case (Cons rec recs)
  from Cons.prems show ?case
  proof (cases rule: sweep_records_Cons)
    case fresh
    then show ?thesis by (blast intro: Cons.IH)
  next
    case (failed e w1)
    with shrinks_trans [OF children_shrinks Cons.IH] show ?thesis by blast
  next
    case (stuck w1 e)
    with shrinks_trans [OF children_shrinks record_delete_shrinks] show ?thesis by blast
  next
    case (swept w1 e w2)
    with shrinks_trans [OF shrinks_trans [OF children_shrinks record_delete_shrinks] Cons.IH] show ?thesis by blast
  qed
qed

lemma untouched_mono:
  assumes "shrinks m m'" and "untouched s now recs k m"
  shows "untouched s now recs k m'"
  using shrinks_label [OF assms(1)] assms(2) unfolding untouched_def by blast

lemma records_frame:
  assumes "run_state (sweep_records s now recs) w = (r, w')" and "untouched s now recs k (objs u w)"
    and "\<And>rec. rec \<in> set recs \<Longrightarrow> stale s now rec \<Longrightarrow> u = TargetProvider \<Longrightarrow> \<not> same_object k (okey rec)"
  shows "objs u w' k = objs u w k"
  using assms
proof (induction recs arbitrary: w)
  case Nil
  then show ?case by simp
next
  case (Cons rec recs)
  from Cons.prems(2) have tail: "untouched s now recs k (objs u w)" by (simp add: untouched_def)
  have ch: "objs u w1 k = objs u w k" "untouched s now recs k (objs u w1)"
    if "stale s now rec" "run_state (sweepChildren s rec (record_uid rec)) w = (x, w1)" for x w1
  proof -
    show "objs u w1 k = objs u w k"
      by (rule children_frame [OF that(2)]) (use Cons.prems(2) that(1) in \<open>auto simp: untouched_def\<close>)
    show "untouched s now recs k (objs u w1)"
      by (rule untouched_mono [OF children_shrinks [OF that(2)] tail])
  qed
  have del: "objs u w2 k = objs u w1 k"
    if "stale s now rec" "run_state (c_delete (sw_ProviderClient s) rec) w1 = (e, w2)" for w1 e w2
    using that api_plane.delete_frame [OF plane [OF sw_clients_simps(1)] that(2), of k] Cons.prems(3) [of rec]
      leaves_storeD [OF client_leaves(5) [OF apart [OF sw_clients_simps(1)]] that(2), of u]
    by (cases "u = TargetProvider") auto
  from Cons.prems(1) show ?case
  proof (cases rule: sweep_records_Cons)
    case fresh
    with Cons.IH [OF _ tail] Cons.prems(3) show ?thesis by simp
  next
    case (failed e w1)
    with Cons.IH [OF failed(3)] ch [OF failed(1,2)] Cons.prems(3) show ?thesis by simp
  next
    case (stuck w1 e)
    with ch [OF stuck(1,2)] del [OF stuck(1,3)] show ?thesis by simp
  next
    case (swept w1 e w2)
    with Cons.IH [OF swept(5)] ch [OF swept(1,2)] del [OF swept(1,3)] Cons.prems(3)
      untouched_mono [OF record_delete_shrinks [OF swept(3)]] show ?thesis by simp
  qed
qed

section \<open>Reclaiming\<close>

lemma children_done:
  assumes run: "run_state (sweepChildren s rec uid) w = (None, w')"
    and t: "sw_clients s t = Some cl" and g: "g \<in> set (record_kinds rec t)"
    and ob: "objs t w' (okey ob) = Some ob" "o_gvk ob = g" "labels_of ob LabelInstanceUID = Some uid"
  shows "terminating ob"
  using run
proof (cases rule: sweepChildren_cases)
  case provider_only
  with t g have "t = TargetProvider" by (cases t) (auto simp: record_kinds_def)
  with via_done [OF sw_clients_simps(1) provider_only(3)] g ob show ?thesis by (auto simp: record_kinds_def)
next
  case (both hc w1)
  consider "t = TargetProvider" | "t = TargetHost" using g by (cases t) (auto simp: record_kinds_def)
  then show ?thesis
  proof cases
    case 1
    have "objs t w1 = objs t w'"
      using leaves_storeD [OF via_apart [of TargetHost hc TargetProvider] both(4)] both(2) 1 by simp
    with via_done [OF sw_clients_simps(1) both(3)] g ob 1 show ?thesis by (auto simp: record_kinds_def)
  next
    case 2
    with via_done [of TargetHost, OF _ both(4)] both(2) g ob show ?thesis by (auto simp: record_kinds_def)
  qed
qed simp_all

definition reclaimed :: "obj \<Rightarrow> 'w \<Rightarrow> bool" where
  "reclaimed rec w \<longleftrightarrow> gone (objs TargetProvider w) (okey rec) \<and>
     (\<forall>t g k ob. sw_clients s t \<noteq> None \<and> g \<in> set (record_kinds rec t) \<and> objs t w k = Some ob \<and> fst k = g \<and>
        labels_of ob LabelInstanceUID = Some (record_uid rec) \<longrightarrow> terminating ob)"

lemma reclaimed_mono:
  assumes "\<And>u. shrinks (objs u w) (objs u w')" and "reclaimed rec w"
  shows "reclaimed rec w'"
  unfolding reclaimed_def
proof (intro conjI allI impI; (elim conjE)?)
  show "gone (objs TargetProvider w') (okey rec)"
    using shrinks_gone [OF assms(1)] assms(2) by (simp add: reclaimed_def)
  fix t g k ob
  assume k: "sw_clients s t \<noteq> None" "g \<in> set (record_kinds rec t)" "objs t w' k = Some ob" "fst k = g"
    "labels_of ob LabelInstanceUID = Some (record_uid rec)"
  from shrinksE [OF assms(1) k(3)] obtain b where b: "objs t w k = Some b" "o_labels ob = o_labels b"
    "terminating b \<Longrightarrow> terminating ob" by blast
  then have "labels_of b LabelInstanceUID = Some (record_uid rec)" using k(5) by (simp add: labels_of_def)
  with assms(2) k b(1) have "terminating b" unfolding reclaimed_def by blast
  with b(3) show "terminating ob" .
qed

text \<open>A record is deleted only after its children: whatever fails, a record that was processed is
  either reclaimed with its children or the sweep of its children failed.\<close>

lemma swept_reclaimed:
  assumes "run_state (sweepChildren s rec (record_uid rec)) w = (None, w1)"
    and "run_state (c_delete (sw_ProviderClient s) rec) w1 = (e, w2)" and "IgnoreNotFound e = None"
  shows "reclaimed rec w2"
  unfolding reclaimed_def
proof (intro conjI allI impI; (elim conjE)?)
  show "gone (objs TargetProvider w2) (okey rec)"
    by (rule api_plane.delete_ok [OF plane [OF sw_clients_simps(1)] assms(2,3)])
  fix t g k ob
  assume k: "sw_clients s t \<noteq> None" "g \<in> set (record_kinds rec t)" "objs t w2 k = Some ob" "fst k = g"
    "labels_of ob LabelInstanceUID = Some (record_uid rec)"
  from k(1) obtain cl where cl: "sw_clients s t = Some cl" by blast
  from shrinksE [OF record_delete_shrinks [OF assms(2)] k(3)] obtain b where
    b: "objs t w1 k = Some b" "o_labels ob = o_labels b" "terminating b \<Longrightarrow> terminating ob" by blast
  from api_plane.objs_key [OF plane [OF cl] b(1)] have "okey b = k" .
  with children_done [OF assms(1) cl k(2), of b] b k(4,5) show "terminating ob"
    by (auto simp: labels_of_def okey_def)
qed

lemma via_reliable:
  assumes "reliable cl"
  shows "fst (run_state (sweepChildrenVia cl raw uid) w) = None"
  unfolding sweepChildrenVia_def by (rule reliable_gc_kinds [OF assms])

lemma children_reliable:
  assumes rel: "\<And>t cl. sw_clients s t = Some cl \<Longrightarrow> reliable cl" and uid: "uid \<noteq> ''''"
  shows "fst (run_state (sweepChildren s rec uid) w) = None"
proof -
  obtain e w' where run: "run_state (sweepChildren s rec uid) w = (e, w')" by fastforce
  then have "e = None"
  proof (cases rule: sweepChildren_cases)
    case (provider_failed x)
    with via_reliable [OF rel [OF sw_clients_simps(1)]] show ?thesis by (metis fst_conv option.distinct(1))
  next
    case (both hc w1)
    with via_reliable [OF rel [of TargetHost hc]] show ?thesis by (metis fst_conv sw_clients_simps(2))
  qed (use uid in simp_all)
  with run show ?thesis by simp
qed

lemma records_reclaimed:
  assumes rel: "\<And>t cl. sw_clients s t = Some cl \<Longrightarrow> reliable cl"
    and "run_state (sweep_records s now recs) w = (r, w')"
  shows "r = None \<and> (\<forall>rec \<in> set recs. stale s now rec \<and> record_uid rec \<noteq> '''' \<longrightarrow> reclaimed rec w')"
  using assms(2)
proof (induction recs arbitrary: w)
  case Nil
  then show ?case by simp
next
  case (Cons rec recs)
  from Cons.prems show ?case
  proof (cases rule: sweep_records_Cons)
    case fresh
    with Cons.IH show ?thesis by simp
  next
    case (failed e w1)
    with children_reliable [OF rel, where uid = "record_uid rec" and rec = rec and w = w] have "record_uid rec = ''''" by force
    with Cons.IH [OF failed(3)] show ?thesis by simp
  next
    case (stuck w1 e)
    with rel [OF sw_clients_simps(1)] show ?thesis by (metis fst_conv reliable_def)
  next
    case (swept w1 e w2)
    with Cons.IH [OF swept(5)] reclaimed_mono [OF records_shrinks [OF swept(5)] swept_reclaimed [OF swept(2-4)]]
    show ?thesis by simp
  qed
qed

end

section \<open>A whole sweep\<close>

text \<open>The records a sweep looks at.\<close>

definition is_record :: "'w sweeper \<Rightarrow> obj \<Rightarrow> bool" where
  "is_record s rec \<longleftrightarrow> o_gvk rec = configMapGVK \<and> o_namespace rec = sw_recordNamespace s \<and>
     labels_of rec LabelLiveness = Some ''true''"

lemma startedAt_irrelevant [simp]:
  "stale (s\<lparr>sw_startedAt := t\<rparr>) = stale s"
  "sweepChildren (s\<lparr>sw_startedAt := t\<rparr>) = sweepChildren s"
  "sweep_records (s\<lparr>sw_startedAt := t\<rparr>) now recs = sweep_records s now recs"
  "record_options (s\<lparr>sw_startedAt := t\<rparr>) = record_options s"
proof -
  show st: "stale (s\<lparr>sw_startedAt := t\<rparr>) = stale s" by (auto simp: stale_def fun_eq_iff split: sum.splits)
  show sc: "sweepChildren (s\<lparr>sw_startedAt := t\<rparr>) = sweepChildren s"
    by (simp add: sweepChildren_def fun_eq_iff cong: if_cong option.case_cong)
  show "sweep_records (s\<lparr>sw_startedAt := t\<rparr>) now recs = sweep_records s now recs"
    by (induction recs) (simp_all add: st sc cong: option.case_cong)
  show "record_options (s\<lparr>sw_startedAt := t\<rparr>) = record_options s"
    by (simp add: record_options_def sw_recordNamespace_def)
qed

lemma record_options_iff:
  "o_gvk rec = item_gvk (GVK '''' ''v1'' ''ConfigMapList'') \<and> (\<forall>p \<in> set (record_options s). admits p rec) \<longleftrightarrow>
     is_record s rec"
  by (auto simp: is_record_def record_options_def item_gvk_def configMapGVK_def TrimSuffix_def suffix_def
      sw_recordNamespace_def defaultRecordNamespace_def)

lemma Sweep_cases:
  assumes "run_state (Sweep time_Now s) w = ((err, s'), w')" and "run_state (sw_now time_Now s) w = (now, w1)"
  obtains (skipped) "err = None" "w' = w1" "time_Sub now (sw_startedAt s') < sw_StaleAfter s"
  | (list_failed) e where "run_state (c_list (sw_ProviderClient s) (GVK '''' ''v1'' ''ConfigMapList'')
      (record_options s)) w1 = (Inl e, w')" "err \<noteq> None"
  | (listed) items w2 where "run_state (c_list (sw_ProviderClient s) (GVK '''' ''v1'' ''ConfigMapList'')
      (record_options s)) w1 = (Inr items, w2)" "run_state (sweep_records s now items) w2 = (err, w')"
      "\<not> time_Sub now (sw_startedAt s') < sw_StaleAfter s"
  using assms
  by (auto simp: Sweep_def Let_def split: prod.splits sum.splits if_splits)

context sweep_planes
begin

lemma listed_records:
  assumes "run_state (c_list (sw_ProviderClient s) (GVK '''' ''v1'' ''ConfigMapList'') (record_options s)) w
    = (Inr items, w')"
  shows "set items = {rec. objs TargetProvider w (okey rec) = Some rec \<and> is_record s rec}"
  using api_plane.list_found [OF plane [OF sw_clients_simps(1)] assms] by (auto simp: record_options_iff)

lemma list_frame_all:
  assumes "run_state (c_list (sw_ProviderClient s) lg opts) w = (x, w')"
  shows "objs u w' = objs u w"
  using api_plane.list_frame [OF plane [OF sw_clients_simps(1)] assms]
    leaves_storeD [OF client_leaves(2) [OF apart [OF sw_clients_simps(1)]] assms, of u]
  by (cases "u = TargetProvider") auto

lemma Sweep_frame:
  assumes run: "run_state (Sweep time_Now s) w = ((err, s'), w')"
    and clock: "run_state (sw_now time_Now s) w = (now, w)"
    and safe: "\<And>rec. objs TargetProvider w (okey rec) = Some rec \<Longrightarrow> is_record s rec \<Longrightarrow> stale s now rec \<Longrightarrow>
      \<not> (u = TargetProvider \<and> same_object k (okey rec)) \<and>
      (\<forall>k' ob. objs u w k' = Some ob \<and> labels_of ob LabelInstanceUID = Some (record_uid rec) \<longrightarrow>
         \<not> same_object k k')"
  shows "objs u w' k = objs u w k"
  using run clock
proof (cases rule: Sweep_cases)
  case skipped
  then show ?thesis by simp
next
  case (list_failed e)
  then show ?thesis by (simp add: list_frame_all)
next
  case (listed items w2)
  have "untouched s now items k (objs u w2)"
    using safe listed_records [OF listed(1)] unfolding untouched_def list_frame_all [OF listed(1)] by blast
  moreover have "\<not> same_object k (okey rec)" if "rec \<in> set items" "stale s now rec" "u = TargetProvider" for rec
    using that safe listed_records [OF listed(1)] by blast
  ultimately have "objs u w' k = objs u w2 k" by (rule records_frame [OF listed(2)])
  then show ?thesis by (simp add: list_frame_all [OF listed(1)])
qed

lemma Sweep_reclaimed:
  assumes run: "run_state (Sweep time_Now s) w = ((err, s'), w')"
    and clock: "run_state (sw_now time_Now s) w = (now, w)"
    and rel: "\<And>t cl. sw_clients s t = Some cl \<Longrightarrow> reliable cl"
    and grace: "\<not> IsZero (sw_startedAt s)" "sw_StaleAfter s \<le> time_Sub now (sw_startedAt s)"
  shows "err = None \<and> (\<forall>rec. objs TargetProvider w (okey rec) = Some rec \<and> is_record s rec \<and> stale s now rec \<and>
    record_uid rec \<noteq> '''' \<longrightarrow> reclaimed rec w')"
proof -
  have s': "s' = s" using run grace(1) by (auto simp: Sweep_def Let_def split: prod.splits sum.splits if_splits)
  from run clock show ?thesis
  proof (cases rule: Sweep_cases)
    case skipped
    with grace s' show ?thesis by simp
  next
    case (list_failed e)
    with rel [OF sw_clients_simps(1)] show ?thesis unfolding reliable_def by (metis prod.inject sum.distinct(1))
  next
    case (listed items w2)
    have "err = None \<and> (\<forall>rec \<in> set items. stale s now rec \<and> record_uid rec \<noteq> [] \<longrightarrow> reclaimed rec w')"
      by (rule records_reclaimed [OF _ listed(2)]) (rule rel)
    with listed_records [OF listed(1)] show ?thesis by blast
  qed
qed

end

text \<open>
  C4. The sweeper is selective. A sweep leaves an object of the provider or host plane as it is unless
  the provider workspace holds a stale liveness record that either is that object or names its
  instance: the object itself, or one stored under another version of it, carries the record's uid
  label. In particular it never touches a child of an instance with a fresh, unparseable or missing
  record only.
\<close>

theorem Sweep_selective:
  assumes "sweep_planes s objs"
    and "run_state (Sweep time_Now s) w = ((err, s'), w')"
    and "run_state (sw_now time_Now s) w = (now, w)"
    and "\<And>rec. objs TargetProvider w (okey rec) = Some rec \<Longrightarrow> is_record s rec \<Longrightarrow> stale s now rec \<Longrightarrow>
      \<not> (u = TargetProvider \<and> same_object k (okey rec)) \<and>
      (\<forall>k' ob. objs u w k' = Some ob \<and> labels_of ob LabelInstanceUID = Some (record_uid rec) \<longrightarrow>
         \<not> same_object k k')"
  shows "objs u w' k = objs u w k"
  by (rule sweep_planes.Sweep_frame [OF assms])

text \<open>A provider plane with the record of one instance and a child of it.\<close>

definition demo_record :: "time \<Rightarrow> obj" where
  "demo_record t = set_nested_string_map ((new_obj configMapGVK)\<lparr>o_namespace := ''default'',
     o_name := ''krop-live-1'', o_labels := Some (record_labels (demo_reconciler jobGVK) ''c1'' ''u-1'')\<rparr>)
     ''data'' (record_data (demo_reconciler jobGVK) t)"

definition orphan_world :: "target mem" where
  "orphan_world = (\<lambda>_. [])(TargetProvider := [demo_record 0, stale_child jobGVK])"

interpretation demo_sweep: sweep_planes "demo_sweeper started now" "\<lambda>t w. mem_find (w t)" for started now
proof (rule sweep_planes.intro)
  have cl: "cl = mem_client t" if "sw_clients (demo_sweeper started now) t = Some cl" for t cl
    using that by (cases t) (auto simp: demo_sweeper_def sw_clients_def)
  show "api_plane cl (\<lambda>w. mem_find (w t))" if "sw_clients (demo_sweeper started now) t = Some cl" for t cl
    using cl [OF that] mem.api_plane_axioms by simp
  show "client_leaves_store (\<lambda>w. mem_find (w t')) cl"
    if "sw_clients (demo_sweeper started now) t = Some cl" and "t' \<noteq> t" for t cl t'
    using cl [OF that(1)] mem_apart [of t t'] that(2) by simp
qed

lemma demo_sweep_now [simp]: "sw_now time_Now (demo_sweeper started now) = ret now"
  by (simp add: sw_now_def demo_sweeper_def)

theorem Sweep_selective_witness:
  "mem_find (snd (run_state (Sweep (ret 0) (demo_sweeper 1 (20 * Minute))) (demo_world None jobGVK)) TargetProvider)
     (jobGVK, ''default'', ''old'') = Some (stale_child jobGVK)"
proof -
  obtain err s' w' where run: "run_state (Sweep (ret 0) (demo_sweeper 1 (20 * Minute))) (demo_world None jobGVK) =
    ((err, s'), w')" by (metis prod.exhaust)
  have "mem_find (w' TargetProvider) (jobGVK, ''default'', ''old'') =
      mem_find (demo_world None jobGVK TargetProvider) (jobGVK, ''default'', ''old'')"
    by (rule Sweep_selective [OF demo_sweep.sweep_planes_axioms run])
      (auto simp: demo_world_def is_record_def demo_kind_defs stale_child_def new_obj_def split: if_splits)
  with run show ?thesis by (simp add: demo_world_def)
qed

text \<open>
  C8. The sweeper reclaims. After the grace period, against servers whose list and delete calls do
  not fail, a sweep succeeds and for every stale liveness record with a uid label it leaves the
  record deleted and every object of a kind the record names, on the provider and (when configured)
  the host plane, with that uid label deleted or marked for deletion.
\<close>

theorem Sweep_reclaims:
  assumes "sweep_planes s objs"
    and "run_state (Sweep time_Now s) w = ((err, s'), w')"
    and "run_state (sw_now time_Now s) w = (now, w)"
    and "\<And>t cl. sw_clients s t = Some cl \<Longrightarrow> reliable cl"
    and "\<not> IsZero (sw_startedAt s)" and "sw_StaleAfter s \<le> time_Sub now (sw_startedAt s)"
  shows "err = None \<and> (\<forall>rec. objs TargetProvider w (okey rec) = Some rec \<and> is_record s rec \<and> stale s now rec \<and>
    record_uid rec \<noteq> '''' \<longrightarrow>
      gone (objs TargetProvider w') (okey rec) \<and>
      (\<forall>t g k ob. sw_clients s t \<noteq> None \<and> g \<in> set (record_kinds rec t) \<and> objs t w' k = Some ob \<and> fst k = g \<and>
         labels_of ob LabelInstanceUID = Some (record_uid rec) \<longrightarrow> terminating ob))"
  using sweep_planes.Sweep_reclaimed [OF assms] unfolding sweep_planes.reclaimed_def [OF assms(1)] .


lemma record_data_nested:
  assumes "nested_map rec ''data'' = Some (\<lambda>k. map_option JStr (record_data r t k))"
  shows "nested_string rec ''data'' ''lastReconciled'' = format_RFC3339 t"
    "nested_string rec ''data'' ''providerChildGVKs'' = childGVKString r TargetProvider"
    "nested_string rec ''data'' ''hostChildGVKs'' = childGVKString r TargetHost"
  by (simp_all add: nested_string_def assms record_data_def)

lemma demo_record_facts:
  "okey (demo_record t) = (configMapGVK, ''default'', ''krop-live-1'')"
  "labels_of (demo_record t) = record_labels (demo_reconciler jobGVK) ''c1'' ''u-1''"
  "nested_map (demo_record t) ''data'' = Some (\<lambda>k. map_option JStr (record_data (demo_reconciler jobGVK) t k))"
  by (simp_all add: demo_record_def set_nested_string_map_def set_nested_map_def okey_def new_obj_def
      labels_of_def nested_map_def)

theorem Sweep_reclaims_witness:
  "let w' = snd (run_state (Sweep (ret 0) (demo_sweeper 1 (20 * Minute))) orphan_world) in
   gone (mem_find (w' TargetProvider)) (configMapGVK, ''default'', ''krop-live-1'') \<and>
   {ob. mem_find (w' TargetProvider) (jobGVK, ''default'', ''old'') = Some ob \<and>
      labels_of ob LabelInstanceUID = Some ''u-1'' \<and> \<not> terminating ob} = {}"
proof -
  let ?s = "demo_sweeper 1 (20 * Minute)" and ?r = "demo_record 0"
  obtain err s' w' where run: "run_state (Sweep (ret 0) ?s) orphan_world = ((err, s'), w')"
    by (metis prod.exhaust)
  have wf: "\<forall>g \<in> set (childGVKs (demo_reconciler jobGVK) TargetProvider). wf_gvk g"
    by (simp add: wf_gvk_def printable_def jobGVK_def)
  have "year_of_day 0 = 1" by (simp add: year_of_day_def find_year.simps days_before_year_def)
  then have "parse_RFC3339 (format_RFC3339 0) = Inr 0" using parse_format_RFC3339 [of 0] by simp
  then have stale: "stale ?s (20 * Minute) ?r"
    by (simp add: stale_def record_data_nested [OF demo_record_facts(3)] time_Sub_def demo_sweeper_def
        Minute_def Second_def)
  have kinds: "jobGVK \<in> set (record_kinds ?r TargetProvider)"
    using sweep_kinds_join [OF wf] record_data_nested [OF demo_record_facts(3)]
    by (simp add: record_kinds_def childGVKString_def)
  have rec: "is_record ?s ?r" "record_uid ?r = ''u-1''"
    by (simp_all add: is_record_def demo_record_facts record_labels_def label_defs go_index_def
        demo_sweeper_def sw_recordNamespace_def defaultRecordNamespace_def)
      (simp_all add: demo_record_def set_nested_string_map_def set_nested_map_def new_obj_def)
  have ne: "record_uid ?r \<noteq> ''''" using rec(2) by simp
  have rel: "reliable cl" if "sw_clients ?s t = Some cl" for t cl
    using that mem_reliable by (cases t) (auto simp: sw_clients_def demo_sweeper_def)
  have "mem_find (orphan_world TargetProvider) (okey ?r) = Some ?r" by (simp add: orphan_world_def)
  moreover have "\<not> IsZero (sw_startedAt ?s)" "sw_StaleAfter ?s \<le> time_Sub (20 * Minute) (sw_startedAt ?s)"
    by (simp_all add: IsZero_def demo_sweeper_def time_Sub_def Minute_def Second_def)
  ultimately have "gone (mem_find (w' TargetProvider)) (okey ?r) \<and> (\<forall>t g k ob. sw_clients ?s t \<noteq> None \<and>
      g \<in> set (record_kinds ?r t) \<and> mem_find (w' t) k = Some ob \<and> fst k = g \<and>
      labels_of ob LabelInstanceUID = Some (record_uid ?r) \<longrightarrow> terminating ob)"
    using Sweep_reclaims [OF demo_sweep.sweep_planes_axioms run, of "20 * Minute"] stale rec(1) ne rel by simp blast
  from this [THEN conjunct1] this [THEN conjunct2, rule_format, of TargetProvider jobGVK "(jobGVK, ''default'', ''old'')"]
    kinds rec run show ?thesis by (auto simp: demo_record_facts Let_def)
qed

section \<open>Timing\<close>

lemma stamp_age:
  assumes "nested_string rec ''data'' ''lastReconciled'' = format_RFC3339 t"
    and "0 \<le> t" and "year_of_day (t div Second div 86400) \<le> 9999"
    and "0 \<le> sw_StaleAfter s" and "sw_StaleAfter s < 2 ^ 63 - 1"
  shows "now - t \<le> sw_StaleAfter s - Second \<Longrightarrow> \<not> stale s now rec"
    and "sw_StaleAfter s < now - t \<Longrightarrow> stale s now rec"
proof -
  have p: "parse_RFC3339 (format_RFC3339 t) = Inr (t - t mod Second)"
    by (rule parse_format_RFC3339 [OF assms(2,3)])
  define m where "m = t mod Second"
  have "0 \<le> m" "m < Second" by (simp_all add: m_def Second_def)
  with assms(4,5) show "now - t \<le> sw_StaleAfter s - Second \<Longrightarrow> \<not> stale s now rec"
    and "sw_StaleAfter s < now - t \<Longrightarrow> stale s now rec"
    by (auto simp: stale_def assms(1) p time_Sub_def min_le_iff_disj simp flip: m_def)
qed

lemma record_age:
  assumes "nested_map rec ''data'' = Some (\<lambda>k. map_option JStr (record_data r t k))"
    and "0 \<le> t" and "year_of_day (t div Second div 86400) \<le> 9999"
    and "0 \<le> sw_StaleAfter s" and "sw_StaleAfter s < 2 ^ 63 - 1"
  shows "now - t \<le> sw_StaleAfter s - Second \<Longrightarrow> \<not> stale s now rec"
    and "sw_StaleAfter s < now - t \<Longrightarrow> stale s now rec"
  using stamp_age [OF record_data_nested(1) [OF assms(1)] assms(2-5)] by blast+

text \<open>
  C26. The time stamp the reconciler writes decides staleness as intended, up to the second the
  format drops: a record written at \<open>t\<close> is not stale as long as at most \<^verbatim>\<open>StaleAfter\<close> less one
  second has passed, and it is stale once more than \<^verbatim>\<open>StaleAfter\<close> has passed. (Instants from year
  1 to 9999 and durations within 64 bits.)
\<close>

theorem record_staleness:
  assumes "nested_map rec ''data'' = Some (\<lambda>k. map_option JStr (record_data r t k))"
    and "0 \<le> t" and "year_of_day (t div Second div 86400) \<le> 9999"
    and "0 \<le> sw_StaleAfter s" and "sw_StaleAfter s < 2 ^ 63 - 1"
  shows "(now - t \<le> sw_StaleAfter s - Second \<longrightarrow> \<not> stale s now rec) \<and>
    (sw_StaleAfter s < now - t \<longrightarrow> stale s now rec)"
  using record_age [OF assms] by blast

theorem record_staleness_witness:
  "\<not> stale (demo_sweeper 1 1) (4 * Minute) (demo_record 0) \<and> stale (demo_sweeper 1 1) (6 * Minute) (demo_record 0)"
proof -
  have "year_of_day 0 = 1" by (simp add: year_of_day_def find_year.simps days_before_year_def)
  with record_staleness [OF demo_record_facts(3), of 0 "demo_sweeper 1 1" "4 * Minute"]
    record_staleness [OF demo_record_facts(3), of 0 "demo_sweeper 1 1" "6 * Minute"]
  show ?thesis by (simp add: demo_sweeper_def Minute_def Second_def)
qed

end
