(* ===== verification/Claims.thy ===== *)
theory Claims
  imports Engine "HOL-Library.Char_ord" "HOL-Library.List_Lexorder"
begin

text \<open>
  Permission claims of a published APIExport: \<^verbatim>\<open>src/internal/registrar/claims.go\<close>. Group resources
  are ordered as Go's string comparison orders them, bytewise, first by group and then by resource;
  the \<open>linorder\<close> instance makes the library's sorting functions the model of \<^verbatim>\<open>sort.Slice\<close> and
  \<^verbatim>\<open>slices.SortStableFunc\<close>. An index out of range panics; the panic is the value \<open>None\<close>.
\<close>

section \<open>The order on group resources\<close>

instantiation group_resource :: linorder
begin

definition less_eq_group_resource :: "group_resource \<Rightarrow> group_resource \<Rightarrow> bool" where
  "a \<le> b \<longleftrightarrow> gr_group a < gr_group b \<or> (gr_group a = gr_group b \<and> gr_resource a \<le> gr_resource b)"

definition less_group_resource :: "group_resource \<Rightarrow> group_resource \<Rightarrow> bool" where
  "a < b \<longleftrightarrow> gr_group a < gr_group b \<or> (gr_group a = gr_group b \<and> gr_resource a < gr_resource b)"

instance
  by standard (auto simp: less_eq_group_resource_def less_group_resource_def intro: group_resource.expand)

end

section \<open>Claims\<close>

record claim =
  cl_gr :: group_resource
  cl_verbs :: "string list"
  cl_identityHash :: string

definition claimVerbs :: "string list" where
  "claimVerbs = [''get'', ''list'', ''watch'', ''create'', ''update'', ''patch'', ''delete'']"

definition readOnlyVerbs :: "string list" where
  "readOnlyVerbs = [''get'', ''list'', ''watch'']"

definition identity_of :: "(group_resource \<rightharpoonup> string) \<Rightarrow> group_resource \<Rightarrow> string" where
  "identity_of identity gr = (case identity gr of None \<Rightarrow> '''' | Some h \<Rightarrow> h)"

definition DeriveClaims ::
    "group_resource list \<Rightarrow> string list \<Rightarrow> (group_resource \<rightharpoonup> string) \<Rightarrow> claim list" where
  "DeriveClaims foreign verbs identity =
     map (\<lambda>gr. \<lparr>cl_gr = gr, cl_verbs = verbs, cl_identityHash = identity_of identity gr\<rparr>) (sort foreign)"

text \<open>
  The loop over the sorted claims. \<^verbatim>\<open>last\<close> is a copy of the last element of \<^verbatim>\<open>out\<close>, so assigning
  its verbs does not change \<^verbatim>\<open>out\<close>.
\<close>

fun merge_loop :: "claim list \<Rightarrow> claim list \<Rightarrow> claim list" where
  "merge_loop out [] = out"
| "merge_loop out (c # cs) =
     (let lst = last out in
      if cl_gr lst \<noteq> cl_gr c then merge_loop (out @ [c]) cs else merge_loop out cs)"

definition mergeClaims :: "claim list list \<Rightarrow> claim list option" where
  "mergeClaims inputs =
     (let all = sort_key cl_gr (concat inputs) in
      case all of [] \<Rightarrow> None | c # _ \<Rightarrow> Some (merge_loop [c] all))"

fun validateClaims :: "claim list \<Rightarrow> error option" where
  "validateClaims [] = None"
| "validateClaims (c # cs) =
     (if gr_group (cl_gr c) \<noteq> '''' \<and> cl_identityHash c = '''' then
        Some (ErrorString (''permissionClaim for '' @ gr_group (cl_gr c) @ ''/'' @ gr_resource (cl_gr c) @
          '' has no identityHash: its owning APIExport is not bound in the provider workspace''))
      else validateClaims cs)"

fun foreign_loop :: "group_resource \<Rightarrow> (string \<rightharpoonup> target) \<Rightarrow> node list \<Rightarrow>
    group_resource list \<Rightarrow> group_resource list \<Rightarrow> group_resource list \<times> group_resource list" where
  "foreign_loop instanceGR routing [] writable external = (writable, external)"
| "foreign_loop instanceGR routing (n # ns) writable external =
     (if TargetForNode (nd_id n) routing \<noteq> TargetConsumer
      then foreign_loop instanceGR routing ns writable external
      else let gr = GroupResource (nd_gvr n) in
        if gr = instanceGR then foreign_loop instanceGR routing ns writable external
        else if is_external n then
          foreign_loop instanceGR routing ns writable
            (if gr \<in> set external then external else external @ [gr])
        else
          foreign_loop instanceGR routing ns
            (if gr \<in> set writable then writable else writable @ [gr]) external)"

definition ForeignConsumerGRs :: "graph \<Rightarrow> group_resource \<Rightarrow> (string \<rightharpoonup> target) \<Rightarrow>
    group_resource list \<times> group_resource list" where
  "ForeignConsumerGRs g instanceGR routing = foreign_loop instanceGR routing (g_nodes g) [] []"

text \<open>The claims of a blueprint, as the publishing code composes them.\<close>

definition published_claims ::
    "graph \<Rightarrow> (string \<rightharpoonup> target) \<Rightarrow> (group_resource \<rightharpoonup> string) \<Rightarrow> claim list option" where
  "published_claims g routing identity =
     (let instanceGR = GroupResource (g_instance_gvr g);
          (writableGRs, externalGRs) = ForeignConsumerGRs g instanceGR routing
      in mergeClaims [DeriveClaims writableGRs claimVerbs identity,
           DeriveClaims externalGRs readOnlyVerbs identity])"

section \<open>Merging\<close>

text \<open>The first claim of each run of equal group resources after one for \<open>k\<close>.\<close>

fun firsts :: "group_resource \<Rightarrow> claim list \<Rightarrow> claim list" where
  "firsts k [] = []"
| "firsts k (c # cs) = (if cl_gr c = k then firsts k cs else c # firsts (cl_gr c) cs)"

lemma merge_loop_firsts: "out \<noteq> [] \<Longrightarrow> merge_loop out cs = out @ firsts (cl_gr (last out)) cs"
  by (induction out cs rule: merge_loop.induct) (auto simp: Let_def)

lemma firsts_sorted:
  assumes "sorted (map cl_gr cs)" and "\<forall>c \<in> set cs. k \<le> cl_gr c"
  shows "sorted_wrt (<) (map cl_gr (firsts k cs)) \<and> cl_gr ` set (firsts k cs) = cl_gr ` set cs - {k} \<and>
    (\<forall>c \<in> set (firsts k cs). k < cl_gr c \<and> c = hd (filter (\<lambda>d. cl_gr d = cl_gr c) cs))"
  using assms
proof (induction cs arbitrary: k)
  case (Cons c cs)
  show ?case
  proof (cases "cl_gr c = k")
    case True
    with Cons.IH [of k] Cons.prems show ?thesis by auto
  next
    case False
    with Cons.prems have k: "k < cl_gr c" by auto
    from Cons.prems have IH: "sorted_wrt (<) (map cl_gr (firsts (cl_gr c) cs))"
      "cl_gr ` set (firsts (cl_gr c) cs) = cl_gr ` set cs - {cl_gr c}"
      "\<forall>d \<in> set (firsts (cl_gr c) cs). cl_gr c < cl_gr d \<and> d = hd (filter (\<lambda>e. cl_gr e = cl_gr d) cs)"
      using Cons.IH [of "cl_gr c"] by auto
    have nk: "k \<notin> cl_gr ` set cs" using Cons.prems k by fastforce
    have gt: "\<forall>d \<in> set (firsts (cl_gr c) cs). cl_gr c < cl_gr d" using IH(3) by blast
    from IH(1) gt have "sorted_wrt (<) (map cl_gr (firsts k (c # cs)))" using False by simp
    moreover have "cl_gr ` set (firsts k (c # cs)) = cl_gr ` set (c # cs) - {k}"
      using IH(2) False nk by auto
    moreover have "\<forall>d \<in> set (firsts k (c # cs)). k < cl_gr d \<and> d = hd (filter (\<lambda>e. cl_gr e = cl_gr d) (c # cs))"
      using IH(3) k False by force
    ultimately show ?thesis by blast
  qed
qed simp

text \<open>
  Merging keeps, for every group resource that occurs, the first claim for it, in the order of the
  group resources.
\<close>

lemma mergeClaims_firsts:
  assumes "concat inputs \<noteq> []"
  shows "mergeClaims inputs = Some (map (\<lambda>gr. hd (filter (\<lambda>c. cl_gr c = gr) (concat inputs)))
    (sorted_list_of_set (cl_gr ` set (concat inputs))))"
proof -
  let ?all = "sort_key cl_gr (concat inputs)"
  obtain x xs where all: "?all = x # xs" using assms by (cases ?all) (metis list.size(3) length_0_conv length_sort)
  let ?r = "x # firsts (cl_gr x) xs"
  have st: "sorted (map cl_gr (x # xs))" using sorted_sort_key [of cl_gr "concat inputs"] by (simp add: all)
  then have f: "sorted_wrt (<) (map cl_gr (firsts (cl_gr x) xs))"
    "cl_gr ` set (firsts (cl_gr x) xs) = cl_gr ` set xs - {cl_gr x}"
    "\<forall>c \<in> set (firsts (cl_gr x) xs). cl_gr x < cl_gr c \<and> c = hd (filter (\<lambda>d. cl_gr d = cl_gr c) xs)"
    using firsts_sorted [of xs "cl_gr x"] by auto
  have srt: "sorted_wrt (<) (map cl_gr ?r)" using f(1,3) by simp
  have "cl_gr ` set ?r = cl_gr ` set ?all" using f(2) all by auto
  then have img: "set (map cl_gr ?r) = cl_gr ` set (concat inputs)" by simp
  have "map cl_gr ?r = sorted_list_of_set (cl_gr ` set (concat inputs))"
    using srt strict_sorted_list_of_set [of "cl_gr ` set (concat inputs)"] img
    by (intro strict_sorted_equal) (simp_all del: set_concat)
  moreover have "c = hd (filter (\<lambda>d. cl_gr d = cl_gr c) (concat inputs))" if "c \<in> set ?r" for c
  proof -
    have "c = hd (filter (\<lambda>d. cl_gr d = cl_gr c) (x # xs))" using that f(3) by auto
    then show ?thesis using sort_key_stable [of cl_gr "cl_gr c" "concat inputs"] by (simp add: all)
  qed
  then have "map (\<lambda>gr. hd (filter (\<lambda>c. cl_gr c = gr) (concat inputs))) (map cl_gr ?r) = ?r"
    by (simp add: map_idI)
  moreover have "mergeClaims inputs = Some ?r"
    by (simp add: mergeClaims_def all merge_loop_firsts del: merge_loop.simps)
  ultimately show ?thesis by metis
qed

section \<open>The claims of a blueprint\<close>

lemma filter_derived:
  "filter (\<lambda>c. cl_gr c = gr) (DeriveClaims xs v identity) =
     replicate (count_list (sort xs) gr)
       \<lparr>cl_gr = gr, cl_verbs = v, cl_identityHash = identity_of identity gr\<rparr>"
proof -
  have "filter (\<lambda>c. cl_gr c = gr)
      (map (\<lambda>gr. \<lparr>cl_gr = gr, cl_verbs = v, cl_identityHash = identity_of identity gr\<rparr>) ys) =
    replicate (count_list ys gr) \<lparr>cl_gr = gr, cl_verbs = v, cl_identityHash = identity_of identity gr\<rparr>" for ys
    by (induction ys) auto
  then show ?thesis by (simp add: DeriveClaims_def)
qed

lemma hd_filter_derived:
  assumes "gr \<in> set w \<union> set e"
  shows "hd (filter (\<lambda>c. cl_gr c = gr) (DeriveClaims w v identity) @
      filter (\<lambda>c. cl_gr c = gr) (DeriveClaims e v' identity)) =
    \<lparr>cl_gr = gr, cl_verbs = (if gr \<in> set w then v else v'), cl_identityHash = identity_of identity gr\<rparr>"
proof -
  have c: "count_list (sort xs) gr = 0 \<longleftrightarrow> gr \<notin> set xs" for xs by (simp add: count_list_0_iff)
  show ?thesis
  proof (cases "gr \<in> set w")
    case True
    with c [of w] obtain n where "count_list (sort w) gr = Suc n" using not0_implies_Suc by blast
    with True show ?thesis by (simp add: filter_derived)
  next
    case False
    with assms c [of e] obtain n where "count_list (sort e) gr = Suc n" using not0_implies_Suc by blast
    with False c [of w] show ?thesis by (simp add: filter_derived)
  qed
qed

lemma merged_claims:
  "mergeClaims [DeriveClaims w claimVerbs identity, DeriveClaims e readOnlyVerbs identity] =
    (if set w \<union> set e = {} then None
     else Some (map (\<lambda>gr. \<lparr>cl_gr = gr, cl_verbs = (if gr \<in> set w then claimVerbs else readOnlyVerbs),
       cl_identityHash = identity_of identity gr\<rparr>) (sorted_list_of_set (set w \<union> set e))))"
proof (cases "set w \<union> set e = {}")
  case True
  then show ?thesis by (simp add: mergeClaims_def DeriveClaims_def)
next
  case False
  let ?in = "[DeriveClaims w claimVerbs identity, DeriveClaims e readOnlyVerbs identity]"
  have "cl_gr ` set (DeriveClaims xs v identity) = set xs" for xs v
    by (auto simp: DeriveClaims_def image_image)
  then have img: "cl_gr ` set (concat ?in) = set w \<union> set e" by (simp add: image_Un)
  with False have "concat ?in \<noteq> []" by (metis image_is_empty set_empty)
  from mergeClaims_firsts [OF this] show ?thesis
    unfolding img using False by (simp add: hd_filter_derived)
qed

text \<open>Which nodes put a group resource into which set.\<close>

definition needs_claim :: "graph \<Rightarrow> (string \<rightharpoonup> target) \<Rightarrow> node \<Rightarrow> bool" where
  "needs_claim g routing n \<longleftrightarrow> n \<in> set (g_nodes g) \<and> TargetForNode (nd_id n) routing = TargetConsumer \<and>
     GroupResource (nd_gvr n) \<noteq> GroupResource (g_instance_gvr g)"

lemma foreign_loop_sets:
  "set (fst (foreign_loop igr routing ns w e)) = set w \<union> (\<lambda>n. GroupResource (nd_gvr n)) `
     {n \<in> set ns. TargetForNode (nd_id n) routing = TargetConsumer \<and> GroupResource (nd_gvr n) \<noteq> igr \<and> \<not> is_external n}"
  "set (snd (foreign_loop igr routing ns w e)) = set e \<union> (\<lambda>n. GroupResource (nd_gvr n)) `
     {n \<in> set ns. TargetForNode (nd_id n) routing = TargetConsumer \<and> GroupResource (nd_gvr n) \<noteq> igr \<and> is_external n}"
  by (induction ns arbitrary: w e) (auto simp: Let_def)

lemma ForeignConsumerGRs_sets:
  assumes "ForeignConsumerGRs g (GroupResource (g_instance_gvr g)) routing = (w, e)"
  shows "set w = (\<lambda>n. GroupResource (nd_gvr n)) ` {n. needs_claim g routing n \<and> \<not> is_external n}"
    "set e = (\<lambda>n. GroupResource (nd_gvr n)) ` {n. needs_claim g routing n \<and> is_external n}"
  using foreign_loop_sets [of "GroupResource (g_instance_gvr g)" routing "g_nodes g" "[]" "[]"] assms
  by (auto simp: needs_claim_def ForeignConsumerGRs_def)

text \<open>The claims as a function of the set of nodes.\<close>

definition claims_spec :: "graph \<Rightarrow> (string \<rightharpoonup> target) \<Rightarrow> (group_resource \<rightharpoonup> string) \<Rightarrow> claim list" where
  "claims_spec g routing identity =
     map (\<lambda>gr. \<lparr>cl_gr = gr,
         cl_verbs = (if \<exists>n \<in> set (g_nodes g). needs_claim g routing n \<and> \<not> is_external n \<and> GroupResource (nd_gvr n) = gr
                     then claimVerbs else readOnlyVerbs),
         cl_identityHash = identity_of identity gr\<rparr>)
       (sorted_list_of_set ((\<lambda>n. GroupResource (nd_gvr n)) ` {n \<in> set (g_nodes g). needs_claim g routing n}))"

lemma published_claims_eq:
  "published_claims g routing identity =
     (if {n \<in> set (g_nodes g). needs_claim g routing n} = {} then None else Some (claims_spec g routing identity))"
proof -
  obtain w e where we: "ForeignConsumerGRs g (GroupResource (g_instance_gvr g)) routing = (w, e)" by fastforce
  note sets = ForeignConsumerGRs_sets [OF we]
  have un: "set w \<union> set e = (\<lambda>n. GroupResource (nd_gvr n)) ` {n \<in> set (g_nodes g). needs_claim g routing n}"
    by (auto simp: sets needs_claim_def)
  have wr: "gr \<in> set w \<longleftrightarrow> (\<exists>n \<in> set (g_nodes g). needs_claim g routing n \<and> \<not> is_external n \<and>
      GroupResource (nd_gvr n) = gr)" for gr
    by (auto simp: sets needs_claim_def)
  have "published_claims g routing identity =
      mergeClaims [DeriveClaims w claimVerbs identity, DeriveClaims e readOnlyVerbs identity]"
    by (simp add: published_claims_def we)
  then show ?thesis by (auto simp: merged_claims claims_spec_def un wr)
qed

text \<open>
  C19. The published claims are exactly one per foreign group resource that some consumer-plane node
  uses, in ascending order: with the full verb set if a template node writes it, read-only if only
  external references use it, and with the identity hash of its binding. They do not depend on
  the order in which Go iterates over the node map. A blueprint without any such node makes the
  code panic: it indexes the first element of an empty slice.
\<close>

theorem published_claims_spec:
  "published_claims g routing identity =
     (if {n \<in> set (g_nodes g). needs_claim g routing n} = {} then None else Some (claims_spec g routing identity))"
  by (rule published_claims_eq)

text \<open>
  Claim validation lets a publication through exactly when every foreign (non-core) claim has a
  resolved identity hash.
\<close>

lemma validateClaims_spec:
  "validateClaims cs = None \<longleftrightarrow> \<not> list_ex (\<lambda>c. gr_group (cl_gr c) \<noteq> '''' \<and> cl_identityHash c = '''') cs"
  by (induction cs) auto

text \<open>
  Merging does not combine verbs: when two inputs carry a claim for the same group resource, the
  result has the verbs of the first alone.
\<close>

lemma mergeClaims_keeps_first:
  assumes "cl_gr a = cl_gr b"
  shows "mergeClaims [[a], [b]] = Some [a]"
  using assms by (simp add: mergeClaims_def)

end
