(* ===== verification/Cache.thy ===== *)
theory Cache
  imports Engine
begin

text \<open>
  The registrar's bookkeeping: the spec hash of \<^verbatim>\<open>src/internal/registrar/hash.go\<close> and the graph cache
  of \<^verbatim>\<open>src/internal/registrar/cache.go\<close>. The locale \<open>slot_store\<close> is the contract of a keyed store that
  keeps one tagged value per key; the graph cache provides it, with the spec hash as the tag, and so
  does the registry of served blueprints, without tags. Every method of the cache holds its
  mutex for its whole body, so a method is one step.
\<close>

section \<open>The spec hash\<close>

text \<open>
  \<open>Marshal\<close> is \<^verbatim>\<open>json.Marshal\<close> on the blueprint spec. The spec embeds types of the kro package, whose
  fields and tags the encoding depends on, so it is a parameter.
\<close>

definition SpecHash :: "(('c, 'k) rgd_spec \<Rightarrow> error + string) \<Rightarrow> ('c, 'k) rgd_spec \<Rightarrow> error + string" where
  "SpecHash Marshal spec =
     (case Marshal spec of
        Inl e \<Rightarrow> Inl (Wrapped ''marshaling blueprint spec for hashing: '' e)
      | Inr b \<Rightarrow> Inr (take 12 (hex_EncodeToString (Sum256 (bytes_of b)))))"

section \<open>Stores with one tagged value per key\<close>

datatype ('k, 'q, 'a) store_op = Put 'k 'q 'a | Delete 'k

text \<open>What the latest operation of a history says about a key; \<open>r\<close> is the answer before it.\<close>

fun latest :: "('k, 'q, 'a) store_op list \<Rightarrow> 'k \<Rightarrow> 'q \<Rightarrow> 'a option \<Rightarrow> 'a option" where
  "latest [] k q r = r"
| "latest (Put k' q' a # ops) k q r =
     latest ops k q (if k' = k then if q' = q then Some a else None else r)"
| "latest (Delete k' # ops) k q r = latest ops k q (if k' = k then None else r)"

fun op_key :: "('k, 'q, 'a) store_op \<Rightarrow> 'k" where
  "op_key (Put k q a) = k"
| "op_key (Delete k) = k"

text \<open>
  \<open>ok\<close> restricts the keys for which the laws are promised: a store that encodes its keys as strings
  may confuse others.
\<close>

locale slot_store =
  fixes ok :: "'k \<Rightarrow> bool"
    and get :: "'s \<Rightarrow> 'k \<Rightarrow> 'q \<Rightarrow> 'a option"
    and put :: "'s \<Rightarrow> 'k \<Rightarrow> 'q \<Rightarrow> 'a \<Rightarrow> 's"
    and del :: "'s \<Rightarrow> 'k \<Rightarrow> 's"
  assumes get_put: "ok k \<Longrightarrow> ok k' \<Longrightarrow>
      get (put s k' q' a) k q = (if k' = k then if q' = q then Some a else None else get s k q)"
    and get_del: "ok k \<Longrightarrow> ok k' \<Longrightarrow> get (del s k') k q = (if k' = k then None else get s k q)"
begin

fun run_op :: "('k, 'q, 'a) store_op \<Rightarrow> 's \<Rightarrow> 's" where
  "run_op (Put k q a) s = put s k q a"
| "run_op (Delete k) s = del s k"

lemma run_latest:
  assumes "ok k" and "\<forall>p \<in> set ops. ok (op_key p)"
  shows "get (fold run_op ops s) k q = latest ops k q (get s k q)"
  using assms(2)
proof (induction ops arbitrary: s)
  case (Cons p ops)
  then show ?case using assms(1) by (cases p) (simp_all add: get_put get_del)
qed simp

text \<open>At most one tag answers for a key once it has been written.\<close>

lemma one_tag:
  assumes "ok k" and "get (put s k q a) k q1 = Some a1" and "get (put s k q a) k q2 = Some a2"
  shows "q1 = q2 \<and> a1 = a2"
  using assms by (simp add: get_put split: if_splits)

lemma get_put_same [simp]: "ok k \<Longrightarrow> get (put s k q a) k q = Some a"
  by (simp add: get_put)

lemma get_del_same [simp]: "ok k \<Longrightarrow> get (del s k) k q = None"
  by (simp add: get_del)

end

section \<open>The graph cache\<close>

record graph_cache =
  gc_m :: "string \<rightharpoonup> (string \<rightharpoonup> graph)"

definition NewGraphCache :: graph_cache where
  "NewGraphCache = \<lparr>gc_m = Map.empty\<rparr>"

definition bpKey :: "string \<Rightarrow> string \<Rightarrow> string" where
  "bpKey workspace name = workspace @ ''|'' @ name"

definition Cache_Get :: "graph_cache \<Rightarrow> string \<Rightarrow> string \<Rightarrow> string \<Rightarrow> graph option" where
  "Cache_Get c workspace name specHash =
     (case gc_m c (bpKey workspace name) of None \<Rightarrow> None | Some byHash \<Rightarrow> byHash specHash)"

definition Cache_Put :: "graph_cache \<Rightarrow> string \<Rightarrow> string \<Rightarrow> string \<Rightarrow> graph \<Rightarrow> graph_cache" where
  "Cache_Put c workspace name specHash g =
     c\<lparr>gc_m := (gc_m c)(bpKey workspace name \<mapsto> [specHash \<mapsto> g])\<rparr>"

definition Cache_Delete :: "graph_cache \<Rightarrow> string \<Rightarrow> string \<Rightarrow> graph_cache" where
  "Cache_Delete c workspace name = c\<lparr>gc_m := (gc_m c)(bpKey workspace name := None)\<rparr>"

lemmas cache_defs = Cache_Get_def Cache_Put_def Cache_Delete_def

text \<open>Blueprint names are DNS subdomains, without the separator; workspace names may be anything.\<close>

definition bar_free :: "string \<times> string \<Rightarrow> bool" where
  "bar_free k \<longleftrightarrow> CHR ''|'' \<notin> set (snd k)"

lemma split_at_last:
  assumes "x \<notin> set ys" and "x \<notin> set zs" and "us @ x # ys = vs @ x # zs"
  shows "us = vs \<and> ys = zs"
  using assms
proof (induction us arbitrary: vs)
  case Nil
  then show ?case by (cases vs) auto
next
  case (Cons u us)
  then show ?case by (cases vs) auto
qed

lemma bpKey_inj:
  assumes "bar_free (w, n)" and "bar_free (w', n')"
  shows "bpKey w n = bpKey w' n' \<longleftrightarrow> w = w' \<and> n = n'"
  using assms split_at_last [of "CHR ''|''" n n' w w'] by (auto simp: bpKey_def bar_free_def)

interpretation gcache: slot_store bar_free
  "\<lambda>c (ws, n) h. Cache_Get c ws n h" "\<lambda>c (ws, n) h g. Cache_Put c ws n h g" "\<lambda>c (ws, n). Cache_Delete c ws n"
  by unfold_locales (auto simp: cache_defs bpKey_inj split: prod.splits)

section \<open>Properties\<close>

text \<open>The cache as a replay of its history.\<close>

fun cache_step :: "((string \<times> string), string, graph) store_op \<Rightarrow> graph_cache \<Rightarrow> graph_cache" where
  "cache_step (Put (ws, n) h g) c = Cache_Put c ws n h g"
| "cache_step (Delete (ws, n)) c = Cache_Delete c ws n"

lemma cache_step_run_op: "cache_step = gcache.run_op"
proof (intro ext)
  show "cache_step p c = gcache.run_op p c" for p c by (induction p c rule: cache_step.induct) auto
qed

text \<open>
  C33. The graph cache refines a map from (workspace, blueprint) to its latest compiled graph: after any
  sequence of puts and deletes from the empty cache, looking up a blueprint under a spec hash
  returns the graph exactly if the last operation on that blueprint stored it under that hash. In
  particular storing a graph under a new hash evicts the old one, and a blueprint never sees
  another's graph, in whatever workspaces they are.
\<close>

theorem GraphCache_refines:
  assumes "CHR ''|'' \<notin> set name" and "\<forall>p \<in> set ops. CHR ''|'' \<notin> set (snd (op_key p))"
  shows "Cache_Get (fold cache_step ops NewGraphCache) ws name h = latest ops (ws, name) h None"
  using gcache.run_latest [of "(ws, name)" ops NewGraphCache h] assms
  by (simp add: cache_step_run_op bar_free_def) (simp add: Cache_Get_def NewGraphCache_def)

definition bare_graph :: "string \<Rightarrow> graph" where
  "bare_graph plural = \<lparr>g_nodes = [], g_instance_gvr = GVR ''example.org'' ''v1'' plural, g_crd = None\<rparr>"

theorem GraphCache_refines_witness:
  "Cache_Get (fold cache_step [Put (''ws'', ''a'') ''h1'' (bare_graph ''as''), Put (''ws|a'', '''') ''h2'' (bare_graph ''bs''),
       Put (''ws'', ''a'') ''h2'' (bare_graph ''cs'')] NewGraphCache) ''ws'' ''a'' ''h1'' = None \<and>
   Cache_Get (fold cache_step [Put (''ws'', ''a'') ''h1'' (bare_graph ''as''), Delete (''ws'', ''b'')] NewGraphCache)
       ''ws'' ''a'' ''h1'' = Some (bare_graph ''as'')"
  using GraphCache_refines [of "''a''" "[Put (''ws'', ''a'') ''h1'' (bare_graph ''as''), Put (''ws|a'', '''') ''h2'' (bare_graph ''bs''),
       Put (''ws'', ''a'') ''h2'' (bare_graph ''cs'')]" "''ws''" "''h1''"]
    GraphCache_refines [of "''a''" "[Put (''ws'', ''a'') ''h1'' (bare_graph ''as''), Delete (''ws'', ''b'')]" "''ws''" "''h1''"]
  by simp

lemma SpecHash_prefix: "SpecHash Marshal spec =
    map_sum (Wrapped ''marshaling blueprint spec for hashing: '')
      (\<lambda>b. hex_EncodeToString (take 6 (Sum256 (bytes_of b)))) (Marshal spec)"
  using take_hex [of 6] by (simp add: SpecHash_def split: sum.splits)

lemma SpecHash_hex:
  assumes "SpecHash Marshal spec = Inr h"
  shows "length h = 12 \<and> list_all is_hex h"
  using assms by (auto simp: SpecHash_def list_all_iff dest!: in_set_takeD set_hex split: sum.splits)

text \<open>
  C39. A spec hash decides whether a blueprint changed: two specs have the same hash exactly if their
  JSON encodings agree or their SHA-256 digests share the first 48 bits. It is twelve lower-case
  hexadecimal digits, and failing to encode is the only error.
\<close>

theorem SpecHash_spec:
  "(SpecHash Marshal s = SpecHash Marshal s' \<and> \<not> isl (SpecHash Marshal s)) =
     (\<exists>b b'. Marshal s = Inr b \<and> Marshal s' = Inr b' \<and>
        take 6 (Sum256 (bytes_of b)) = take 6 (Sum256 (bytes_of b'))) \<and>
   list_all is_hex (case SpecHash Marshal s of Inr h \<Rightarrow> h | Inl _ \<Rightarrow> []) \<and>
   isl (SpecHash Marshal s) = isl (Marshal s)"
  using SpecHash_hex [of Marshal s]
  by (cases "Marshal s"; cases "Marshal s'") (simp_all add: SpecHash_prefix hex_inject)

end
