(* ===== verification/Publish.thy ===== *)
theory Publish
  imports Claims Cache Reconciler
begin

text \<open>
  Publishing an API to the provider workspace: \<^verbatim>\<open>src/internal/registrar/publish.go\<close>, over the typed
  objects of the registrar: the blueprint of \<^verbatim>\<open>src/api/v1alpha1/resourcegraphdefinition_types.go\<close>
  and what the code reads and writes of kcp's APIResourceSchema, APIExport and APIBinding.

  The Go client is one interface for all types; \<open>kcp_client\<close> has one field per method and type the
  registrar calls, as operations on an unknown world \<open>'w\<close>. An update and a create decode the server's
  answer into the object they are given, so they return it. What the registrar relies on
  is the locale \<open>kcp_plane\<close>.
\<close>

section \<open>Typed objects\<close>

record blueprint_status =
  bs_ExportedAPI :: string
  bs_IdentityHash :: string
  bs_ObservedSpecHash :: string
  bs_Conditions :: "condition list"

record ('c, 'k) blueprint =
  bp_name :: string
  bp_deletionTimestamp :: "time option"
  bp_finalizers :: "string list"
  bp_spec :: "('c, 'k) rgd_spec"
  bp_status :: blueprint_status

record api_resource_schema =
  ars_name :: string
  ars_group :: string
  ars_plural :: string
  ars_kind :: string

datatype storage = StorageCRD | StorageVirtual

record resource_schema =
  rs_name :: string
  rs_group :: string
  rs_schema :: string
  rs_storage :: storage

record api_export =
  ex_name :: string
  ex_resources :: "resource_schema list"
  ex_claims :: "claim list"
  ex_identityHash :: string

record bound_resource =
  br_group :: string
  br_resource :: string
  br_identityHash :: string

record api_binding =
  ab_boundResources :: "bound_resource list"

section \<open>The client\<close>

text \<open>
  \<open>kc_encode\<close> is \<^verbatim>\<open>DefaultUnstructuredConverter.ToUnstructured\<close> on an APIExport with its kind set;
  \<open>kc_apply\<close> takes the field owner and the force flag.
\<close>

record ('u, 'c, 'k, 'w) kcp_client =
  kc_get_blueprint :: "string \<Rightarrow> ('w, error + ('c, 'k) blueprint) state"
  kc_update_blueprint :: "('c, 'k) blueprint \<Rightarrow> ('w, error + ('c, 'k) blueprint) state"
  kc_update_status :: "('c, 'k) blueprint \<Rightarrow> ('w, error + ('c, 'k) blueprint) state"
  kc_get_schema :: "string \<Rightarrow> ('w, error + api_resource_schema) state"
  kc_create_schema :: "api_resource_schema \<Rightarrow> ('w, error + api_resource_schema) state"
  kc_delete_schema :: "string \<Rightarrow> ('w, error option) state"
  kc_list_bindings :: "('w, error + api_binding list) state"
  kc_get_export :: "string \<Rightarrow> ('w, error + api_export) state"
  kc_encode :: "api_export \<Rightarrow> error + 'u"
  kc_apply :: "string \<Rightarrow> bool \<Rightarrow> 'u \<Rightarrow> ('w, error option) state"
  kc_delete_export :: "api_export \<Rightarrow> ('w, error option) state"

section \<open>Operations\<close>

definition fieldManager :: string where
  "fieldManager = ''krop-registrar''"

text \<open>\<open>toARS\<close> is kcp's \<^verbatim>\<open>CRDToAPIResourceSchema\<close>.\<close>

definition BuildARS ::
    "(crd \<Rightarrow> string \<Rightarrow> error + api_resource_schema) \<Rightarrow> graph \<Rightarrow> string \<Rightarrow> error + api_resource_schema" where
  "BuildARS toARS g specHash =
     (case g_crd g of
        None \<Rightarrow> Inl (ErrorString ''graph has no generated CRD'')
      | Some crd \<Rightarrow> toARS crd (''v'' @ specHash))"

text \<open>The result is the schema the pointer argument holds afterwards.\<close>

definition applyARS :: "('u, 'c, 'k, 'w) kcp_client \<Rightarrow> api_resource_schema \<Rightarrow>
    ('w, error + api_resource_schema) state" where
  "applyARS c ars =
     do {
       got \<leftarrow> kc_get_schema c (ars_name ars);
       case got of
         Inr _ \<Rightarrow> ret (Inr ars)
       | Inl e \<Rightarrow>
           if \<not> IsNotFound e
           then ret (Inl (Wrapped (''getting APIResourceSchema '' @ go_quote (ars_name ars) @ '': '') e))
           else do {
             made \<leftarrow> kc_create_schema c ars;
             case made of
               Inl e' \<Rightarrow> ret (Inl (Wrapped (''creating APIResourceSchema '' @ go_quote (ars_name ars) @ '': '') e'))
             | Inr ars' \<Rightarrow> ret (Inr ars')
           }
     }"

definition bind_resources :: "bound_resource list \<Rightarrow> (group_resource \<rightharpoonup> string) \<Rightarrow> (group_resource \<rightharpoonup> string)" where
  "bind_resources brs out = fold (\<lambda>br m. m(GR (br_group br) (br_resource br) \<mapsto> br_identityHash br)) brs out"

definition identityByGroupResource ::
    "('u, 'c, 'k, 'w) kcp_client \<Rightarrow> ('w, error + (group_resource \<rightharpoonup> string)) state" where
  "identityByGroupResource c =
     do {
       bindings \<leftarrow> kc_list_bindings c;
       case bindings of
         Inl e \<Rightarrow> ret (Inl (Wrapped ''listing APIBindings: '' e))
       | Inr items \<Rightarrow> ret (Inr (fold (\<lambda>b. bind_resources (ab_boundResources b)) items Map.empty))
     }"

fun delete_schemas :: "('u, 'c, 'k, 'w) kcp_client \<Rightarrow> resource_schema list \<Rightarrow> ('w, error option) state" where
  "delete_schemas c [] = ret None"
| "delete_schemas c (res # rest) =
     do {
       err \<leftarrow> kc_delete_schema c (rs_schema res);
       case IgnoreNotFound err of
         Some e \<Rightarrow> ret (Some (Wrapped (''deleting APIResourceSchema '' @ go_quote (rs_schema res) @ '': '') e))
       | None \<Rightarrow> delete_schemas c rest
     }"

definition DeletePublishedAPI :: "('u, 'c, 'k, 'w) kcp_client \<Rightarrow> string \<Rightarrow> ('w, error option) state" where
  "DeletePublishedAPI c exportName =
     do {
       got \<leftarrow> kc_get_export c exportName;
       case got of
         Inl e \<Rightarrow>
           if IsNotFound e then ret None
           else ret (Some (Wrapped (''getting APIExport '' @ go_quote exportName @ '' for deletion: '') e))
       | Inr export \<Rightarrow>
           do {
             err \<leftarrow> delete_schemas c (ex_resources export);
             case err of
               Some e \<Rightarrow> ret (Some e)
             | None \<Rightarrow>
                 do {
                   err2 \<leftarrow> kc_delete_export c export;
                   ret (map_option (Wrapped (''deleting APIExport '' @ go_quote exportName @ '': ''))
                     (IgnoreNotFound err2))
                 }
           }
     }"

text \<open>The export object \<^verbatim>\<open>UpsertAPIExport\<close> builds.\<close>

definition export_of :: "string \<Rightarrow> api_resource_schema \<Rightarrow> claim list \<Rightarrow> api_export" where
  "export_of exportName ars claims =
     \<lparr>ex_name = exportName,
      ex_resources = [\<lparr>rs_name = ars_plural ars, rs_group = ars_group ars, rs_schema = ars_name ars,
        rs_storage = StorageCRD\<rparr>],
      ex_claims = claims, ex_identityHash = ''''\<rparr>"

definition UpsertAPIExport :: "('u, 'c, 'k, 'w) kcp_client \<Rightarrow> string \<Rightarrow> api_resource_schema \<Rightarrow> claim list \<Rightarrow>
    ('w, error option) state" where
  "UpsertAPIExport c exportName ars claims =
     (case kc_encode c (export_of exportName ars claims) of
        Inl e \<Rightarrow> ret (Some (Wrapped (''encoding APIExport '' @ go_quote exportName @ '' for apply: '') e))
      | Inr raw \<Rightarrow>
          do {
            err \<leftarrow> kc_apply c fieldManager True raw;
            ret (map_option (Wrapped (''applying APIExport '' @ go_quote exportName @ '': '')) err)
          })"

section \<open>What the registrar relies on of the provider workspace\<close>

text \<open>
  The registrar's objects in the workspace. A pass is taken to be the only writer of them while it
  runs; what a failing write does to the object it names is left open. kcp puts no finalizers on
  schemas and exports, so deleting one removes it.
\<close>

record ('c, 'k) plane =
  pl_blueprints :: "string \<rightharpoonup> ('c, 'k) blueprint"
  pl_schemas :: "string \<rightharpoonup> api_resource_schema"
  pl_exports :: "string \<rightharpoonup> api_export"

definition same_schema :: "api_resource_schema \<Rightarrow> api_resource_schema \<Rightarrow> bool" where
  "same_schema a b \<longleftrightarrow> ars_name a = ars_name b \<and> ars_group a = ars_group b \<and>
     ars_plural a = ars_plural b \<and> ars_kind a = ars_kind b"

lemma same_schema_refl [simp]: "same_schema a a"
  by (simp add: same_schema_def)

locale kcp_plane =
  fixes c :: "('u, 'c, 'k, 'w) kcp_client"
    and view :: "'w \<Rightarrow> ('c, 'k) plane"
  assumes blueprint_key: "pl_blueprints (view w) n = Some bp \<Longrightarrow> bp_name bp = n"
    and export_key: "pl_exports (view w) n = Some ex \<Longrightarrow> ex_name ex = n"
    and get_blueprint_frame: "run_state (kc_get_blueprint c n) w = (rb, w') \<Longrightarrow> view w' = view w"
    and get_blueprint_found: "run_state (kc_get_blueprint c n) w = (Inr bp, w') \<Longrightarrow>
          pl_blueprints (view w) n = Some bp"
    and update_blueprint_frame: "run_state (kc_update_blueprint c bp) w = (rb, w') \<Longrightarrow>
          pl_schemas (view w') = pl_schemas (view w) \<and> pl_exports (view w') = pl_exports (view w) \<and>
          (\<forall>n. n \<noteq> bp_name bp \<longrightarrow> pl_blueprints (view w') n = pl_blueprints (view w) n)"
    and update_blueprint_ok: "run_state (kc_update_blueprint c bp) w = (Inr bp', w') \<Longrightarrow>
          bp_name bp' = bp_name bp \<and> bp_finalizers bp' = bp_finalizers bp \<and>
          bp_deletionTimestamp bp' = bp_deletionTimestamp bp \<and> bp_spec bp' = bp_spec bp \<and>
          pl_blueprints (view w') (bp_name bp) =
            (if bp_deletionTimestamp bp \<noteq> None \<and> bp_finalizers bp = [] then None else Some bp')"
    and update_status_frame: "run_state (kc_update_status c bp) w = (rb, w') \<Longrightarrow>
          pl_schemas (view w') = pl_schemas (view w) \<and> pl_exports (view w') = pl_exports (view w) \<and>
          (\<forall>n. n \<noteq> bp_name bp \<longrightarrow> pl_blueprints (view w') n = pl_blueprints (view w) n)"
    and update_status_keeps: "run_state (kc_update_status c bp) w = (rb, w') \<Longrightarrow>
          pl_blueprints (view w) (bp_name bp) = Some b \<Longrightarrow>
          \<exists>b'. pl_blueprints (view w') (bp_name bp) = Some b' \<and> bp_spec b' = bp_spec b \<and>
            bp_finalizers b' = bp_finalizers b \<and> bp_deletionTimestamp b' = bp_deletionTimestamp b"
    and update_status_ok: "run_state (kc_update_status c bp) w = (Inr bp', w') \<Longrightarrow>
          \<exists>b'. pl_blueprints (view w') (bp_name bp) = Some b' \<and> bp_status b' = bp_status bp"
    and get_schema_frame: "run_state (kc_get_schema c n) w = (rs, w') \<Longrightarrow> view w' = view w"
    and get_schema_found: "run_state (kc_get_schema c n) w = (Inr a, w') \<Longrightarrow>
          pl_schemas (view w) n = Some a"
    and get_schema_missing: "run_state (kc_get_schema c n) w = (Inl e, w') \<Longrightarrow> IsNotFound e \<Longrightarrow>
          pl_schemas (view w) n = None"
    and create_schema_frame: "run_state (kc_create_schema c a) w = (rs, w') \<Longrightarrow>
          pl_blueprints (view w') = pl_blueprints (view w) \<and> pl_exports (view w') = pl_exports (view w) \<and>
          (\<forall>n. n \<noteq> ars_name a \<longrightarrow> pl_schemas (view w') n = pl_schemas (view w) n)"
    and create_schema_ok: "run_state (kc_create_schema c a) w = (Inr a', w') \<Longrightarrow>
          same_schema a' a \<and> pl_schemas (view w') (ars_name a) = Some a'"
    and delete_schema_frame: "run_state (kc_delete_schema c n) w = (re, w') \<Longrightarrow>
          pl_blueprints (view w') = pl_blueprints (view w) \<and> pl_exports (view w') = pl_exports (view w) \<and>
          (\<forall>m. m \<noteq> n \<longrightarrow> pl_schemas (view w') m = pl_schemas (view w) m)"
    and delete_schema_ok: "run_state (kc_delete_schema c n) w = (re, w') \<Longrightarrow> IgnoreNotFound re = None \<Longrightarrow>
          pl_schemas (view w') n = None"
    and list_bindings_frame: "run_state (kc_list_bindings c) w = (rl, w') \<Longrightarrow> view w' = view w"
    and get_export_frame: "run_state (kc_get_export c n) w = (rx, w') \<Longrightarrow> view w' = view w"
    and get_export_found: "run_state (kc_get_export c n) w = (Inr ex, w') \<Longrightarrow>
          pl_exports (view w) n = Some ex"
    and get_export_missing: "run_state (kc_get_export c n) w = (Inl e, w') \<Longrightarrow> IsNotFound e \<Longrightarrow>
          pl_exports (view w) n = None"
    and apply_frame: "kc_encode c ex = Inr u \<Longrightarrow> run_state (kc_apply c fo True u) w = (re, w') \<Longrightarrow>
          pl_blueprints (view w') = pl_blueprints (view w) \<and> pl_schemas (view w') = pl_schemas (view w) \<and>
          (\<forall>n. n \<noteq> ex_name ex \<longrightarrow> pl_exports (view w') n = pl_exports (view w) n)"
    and apply_ok: "kc_encode c ex = Inr u \<Longrightarrow> run_state (kc_apply c fo True u) w = (None, w') \<Longrightarrow>
          \<exists>ex'. pl_exports (view w') (ex_name ex) = Some ex' \<and>
            ex_resources ex' = ex_resources ex \<and> ex_claims ex' = ex_claims ex"
    and delete_export_frame: "run_state (kc_delete_export c ex) w = (re, w') \<Longrightarrow>
          pl_blueprints (view w') = pl_blueprints (view w) \<and> pl_schemas (view w') = pl_schemas (view w) \<and>
          (\<forall>n. n \<noteq> ex_name ex \<longrightarrow> pl_exports (view w') n = pl_exports (view w) n)"
    and delete_export_ok: "run_state (kc_delete_export c ex) w = (re, w') \<Longrightarrow> IgnoreNotFound re = None \<Longrightarrow>
          pl_exports (view w') (ex_name ex) = None"
    and get_blueprint_missing: "run_state (kc_get_blueprint c n) w = (Inl e, w') \<Longrightarrow> IsNotFound e \<Longrightarrow>
          pl_blueprints (view w) n = None"
begin

lemma applyARS_frame:
  assumes "run_state (applyARS c a) w = (r, w')"
  shows "pl_blueprints (view w') = pl_blueprints (view w) \<and> pl_exports (view w') = pl_exports (view w) \<and>
    (\<forall>n x. (n \<noteq> ars_name a \<or> pl_schemas (view w) n = Some x) \<longrightarrow> pl_schemas (view w') n = pl_schemas (view w) n)"
proof -
  obtain got w1 where g: "run_state (kc_get_schema c (ars_name a)) w = (got, w1)" by fastforce
  note v1 = get_schema_frame [OF g]
  show ?thesis
  proof (cases "\<exists>e. got = Inl e \<and> IsNotFound e")
    case False
    then have "w' = w1" using assms g by (auto simp: applyARS_def split: sum.splits if_splits)
    then show ?thesis using v1 by simp
  next
    case True
    then obtain e where e: "got = Inl e" "IsNotFound e" by blast
    obtain made w2 where m: "run_state (kc_create_schema c a) w1 = (made, w2)" by fastforce
    have "w' = w2" using assms g e m by (auto simp: applyARS_def split: sum.splits)
    moreover have "pl_schemas (view w) (ars_name a) = None" using get_schema_missing g e by blast
    ultimately show ?thesis using create_schema_frame [OF m] v1 by auto
  qed
qed

lemma applyARS_ok:
  assumes "run_state (applyARS c a) w = (Inr a', w')"
  shows "same_schema a' a \<and> pl_schemas (view w') (ars_name a) \<noteq> None"
proof -
  obtain got w1 where g: "run_state (kc_get_schema c (ars_name a)) w = (got, w1)" by fastforce
  note v1 = get_schema_frame [OF g]
  show ?thesis
  proof (cases got)
    case (Inr x)
    with assms g have "a' = a" "w' = w1" by (simp_all add: applyARS_def)
    then show ?thesis using get_schema_found [of "ars_name a" w x w1] g Inr v1 by simp
  next
    case (Inl e)
    obtain made w2 where m: "run_state (kc_create_schema c a) w1 = (made, w2)" by fastforce
    have "made = Inr a'" "w' = w2" using assms g Inl m by (auto simp: applyARS_def split: sum.splits if_splits)
    then show ?thesis using create_schema_ok m by blast
  qed
qed

lemma identity_frame:
  "run_state (identityByGroupResource c) w = (r, w') \<Longrightarrow> view w' = view w"
  using list_bindings_frame by (auto simp: identityByGroupResource_def split: sum.splits prod.splits)

lemma UpsertAPIExport_frame:
  assumes "run_state (UpsertAPIExport c n a cls) w = (r, w')"
  shows "pl_blueprints (view w') = pl_blueprints (view w) \<and> pl_schemas (view w') = pl_schemas (view w) \<and>
    (\<forall>m. m \<noteq> n \<longrightarrow> pl_exports (view w') m = pl_exports (view w) m)"
proof (cases "kc_encode c (export_of n a cls)")
  case (Inl e)
  with assms show ?thesis by (simp add: UpsertAPIExport_def)
next
  case (Inr u)
  then obtain re where "run_state (kc_apply c fieldManager True u) w = (re, w')"
    using assms by (auto simp: UpsertAPIExport_def split: prod.splits)
  from apply_frame [OF Inr this] show ?thesis by (simp add: export_of_def)
qed

lemma UpsertAPIExport_ok:
  assumes "run_state (UpsertAPIExport c n a cls) w = (None, w')"
  shows "\<exists>ex. pl_exports (view w') n = Some ex \<and> ex_resources ex = ex_resources (export_of n a cls) \<and> ex_claims ex = cls"
proof (cases "kc_encode c (export_of n a cls)")
  case (Inl e)
  with assms show ?thesis by (simp add: UpsertAPIExport_def)
next
  case (Inr u)
  then have "run_state (kc_apply c fieldManager True u) w = (None, w')"
    using assms by (auto simp: UpsertAPIExport_def split: prod.splits)
  from apply_ok [OF Inr this] show ?thesis by (simp add: export_of_def)
qed

lemma delete_schemas_frame:
  "run_state (delete_schemas c rs) w = (r, w') \<Longrightarrow>
     pl_blueprints (view w') = pl_blueprints (view w) \<and> pl_exports (view w') = pl_exports (view w) \<and>
     (\<forall>n. n \<notin> rs_schema ` set rs \<longrightarrow> pl_schemas (view w') n = pl_schemas (view w) n) \<and>
     (\<forall>n. pl_schemas (view w) n = None \<and> r = None \<longrightarrow> pl_schemas (view w') n = None)"
proof (induction rs arbitrary: w)
  case (Cons x rs)
  obtain re w1 where d: "run_state (kc_delete_schema c (rs_schema x)) w = (re, w1)" by fastforce
  show ?case
  proof (cases "IgnoreNotFound re")
    case None
    with Cons.prems d have r: "run_state (delete_schemas c rs) w1 = (r, w')" by simp
    have "pl_schemas (view w1) n = None" if "pl_schemas (view w) n = None" for n
      using that delete_schema_frame [OF d] delete_schema_ok [OF d None] by (cases "n = rs_schema x") auto
    then show ?thesis using Cons.IH [OF r] delete_schema_frame [OF d] by auto
  next
    case (Some e)
    with Cons.prems d have "w' = w1" "r \<noteq> None" by auto
    then show ?thesis using delete_schema_frame [OF d] by auto
  qed
qed simp

lemma delete_schemas_ok:
  "run_state (delete_schemas c rs) w = (None, w') \<Longrightarrow> n \<in> rs_schema ` set rs \<Longrightarrow> pl_schemas (view w') n = None"
proof (induction rs arbitrary: w)
  case (Cons x rs)
  obtain re w1 where d: "run_state (kc_delete_schema c (rs_schema x)) w = (re, w1)" by fastforce
  with Cons.prems(1) have n: "IgnoreNotFound re = None" and r: "run_state (delete_schemas c rs) w1 = (None, w')"
    by (auto split: option.splits)
  show ?case
  proof (cases "n \<in> rs_schema ` set rs")
    case True
    with Cons.IH [OF r] show ?thesis by blast
  next
    case False
    with Cons.prems(2) have "n = rs_schema x" by auto
    with delete_schema_ok [OF d n] delete_schemas_frame [OF r] show ?thesis by simp
  qed
qed simp


text \<open>How a teardown can end: the export was not there, a schema failed, or the export was reached.\<close>

lemma DeletePublishedAPI_cases:
  assumes "run_state (DeletePublishedAPI c n) w = (r, w')"
  obtains (absent) "pl_exports (view w) n = None" "r = None" "view w' = view w"
    | (unread) "r \<noteq> None" "view w' = view w"
    | (schema) ex w1 e where "pl_exports (view w) n = Some ex" "view w1 = view w"
        "run_state (delete_schemas c (ex_resources ex)) w1 = (Some e, w')" "r = Some e"
    | (reached) ex w1 w2 re where "pl_exports (view w) n = Some ex" "view w1 = view w"
        "run_state (delete_schemas c (ex_resources ex)) w1 = (None, w2)"
        "run_state (kc_delete_export c ex) w2 = (re, w')" "r = None \<longleftrightarrow> IgnoreNotFound re = None"
proof -
  obtain got w1 where g: "run_state (kc_get_export c n) w = (got, w1)" by fastforce
  note v = get_export_frame [OF g]
  show thesis
  proof (cases got)
    case (Inl e)
    show thesis
    proof (cases "IsNotFound e")
      case True
      have "pl_exports (view w) n = None" using get_export_missing [of n w e w1] g Inl True by simp
      then show thesis by (rule absent) (use assms g Inl True v in \<open>simp_all add: DeletePublishedAPI_def\<close>)
    next
      case False
      show thesis by (rule unread) (use assms g Inl False v in \<open>auto simp: DeletePublishedAPI_def\<close>)
    qed
  next
    case (Inr ex)
    have ex: "pl_exports (view w) n = Some ex" using get_export_found [of n w ex w1] g Inr by simp
    obtain d w2 where d: "run_state (delete_schemas c (ex_resources ex)) w1 = (d, w2)" by fastforce
    show thesis
    proof (cases d)
      case None
      obtain re w3 where "run_state (kc_delete_export c ex) w2 = (re, w3)" by fastforce
      then show thesis
        using reached [OF ex v, of w2 re] assms g Inr d None by (auto simp: DeletePublishedAPI_def)
    next
      case (Some e)
      then show thesis using schema [OF ex v] assms g Inr d by (simp add: DeletePublishedAPI_def)
    qed
  qed
qed

lemma DeletePublishedAPI_frame:
  assumes "run_state (DeletePublishedAPI c n) w = (r, w')"
  shows "pl_blueprints (view w') = pl_blueprints (view w) \<and> (\<forall>m. m \<noteq> n \<longrightarrow> pl_exports (view w') m = pl_exports (view w) m)"
  using assms
proof (cases rule: DeletePublishedAPI_cases)
  case (schema ex w1 e)
  then show ?thesis using delete_schemas_frame [OF schema(3)] by simp
next
  case (reached ex w1 w2 re)
  have "ex_name ex = n" using export_key reached(1) .
  then show ?thesis using reached(2) delete_schemas_frame [OF reached(3)] delete_export_frame [OF reached(4)] by simp
qed simp_all

lemma DeletePublishedAPI_ok:
  assumes "run_state (DeletePublishedAPI c n) w = (None, w')"
  shows "pl_exports (view w') n = None"
    and "pl_exports (view w) n = Some ex \<Longrightarrow> m \<in> rs_schema ` set (ex_resources ex) \<Longrightarrow> pl_schemas (view w') m = None"
  using assms
proof (atomize (full), cases rule: DeletePublishedAPI_cases)
  case (reached ex' w1 w2 re)
  have k: "ex_name ex' = n" using export_key reached(1) .
  have "pl_exports (view w') n = None" using delete_export_ok [OF reached(4)] reached(5) k by simp
  then show "pl_exports (view w') n = None \<and>
      (pl_exports (view w) n = Some ex \<longrightarrow> m \<in> rs_schema ` set (ex_resources ex) \<longrightarrow> pl_schemas (view w') m = None)"
    using reached(1) delete_schemas_ok [OF reached(3), of m] delete_export_frame [OF reached(4)] by auto
qed simp_all

text \<open>The export is the handle by which a retry finds the schemas: it outlives them.\<close>

lemma DeletePublishedAPI_handle:
  assumes "run_state (DeletePublishedAPI c n) w = (r, w')" and "pl_exports (view w) n = Some ex"
    and "m \<in> rs_schema ` set (ex_resources ex)" and "pl_schemas (view w') m \<noteq> None"
  shows "pl_exports (view w') n = Some ex \<and> r \<noteq> None"
  using assms(1)
proof (cases rule: DeletePublishedAPI_cases)
  case (schema ex' w1 e)
  then show ?thesis using delete_schemas_frame [OF schema(3)] assms(2) by simp
next
  case (reached ex' w1 w2 re)
  have "pl_schemas (view w2) m = None" using delete_schemas_ok [OF reached(3), of m] assms(2,3) reached(1) by simp
  then have "pl_schemas (view w') m = None" using delete_export_frame [OF reached(4)] by simp
  with assms(4) show ?thesis by simp
qed (use assms(2) in simp_all)

end

end
