(* ===== verification/Registrar.thy ===== *)
theory Registrar
  imports Publish
begin

text \<open>
  The registrar: \<^verbatim>\<open>src/internal/registrar/registrar.go\<close>. One call of \<open>Registrar_Reconcile\<close> is one pass over one
  blueprint: teardown of a deleted blueprint, or finalizer, spec hash, compiled graph, routing,
  schema, claims, export, announcement to the supervisor and status.

  \<open>rlib\<close> collects what the code calls outside the repository: JSON encoding of the spec, kcp's
  conversion of a CRD to a schema, \<^verbatim>\<open>meta.SetStatusCondition\<close>, and the order in which Go iterates
  over a map with given keys. The graph source, whose builder is kro's, is a field of the
  registrar, as are the two callbacks.
\<close>

section \<open>State\<close>

record ('c, 'k, 'w) rlib =
  rl_Marshal :: "('c, 'k) rgd_spec \<Rightarrow> error + string"
  rl_toARS :: "crd \<Rightarrow> string \<Rightarrow> error + api_resource_schema"
  rl_SetStatusCondition :: "condition list \<Rightarrow> condition \<Rightarrow> ('w, condition list) state"
  rl_range :: "string list \<Rightarrow> string list"

record ('u, 'c, 'k, 'w) registrar =
  rg_Client :: "('u, 'c, 'k, 'w) kcp_client"
  rg_Workspace :: string
  rg_Build :: "string \<Rightarrow> ('c, 'k) kro_spec \<Rightarrow> ('w, error + graph) state"
  rg_OnPublished :: "(string \<Rightarrow> gvk \<Rightarrow> graph \<Rightarrow> (string \<rightharpoonup> target) \<Rightarrow> bool \<Rightarrow> ('w, unit) state) option"
  rg_OnDeleted :: "(string \<Rightarrow> ('w, unit) state) option"

text \<open>The cache the registrar points to (\<open>None\<close> is nil) and the world.\<close>

record 'w rstate =
  reg_cache :: "graph_cache option"
  reg_world :: 'w

definition on_world :: "('w, 'a) state \<Rightarrow> ('w rstate, 'a) state" where
  "on_world m = State (\<lambda>s. case run_state m (reg_world s) of (a, w) \<Rightarrow> (a, s\<lparr>reg_world := w\<rparr>))"

definition on_cache :: "(graph_cache \<Rightarrow> graph_cache) \<Rightarrow> ('w rstate, unit) state" where
  "on_cache f = State (\<lambda>s. ((), s\<lparr>reg_cache := map_option f (reg_cache s)\<rparr>))"

definition get_cache :: "('w rstate, graph_cache option) state" where
  "get_cache = State (\<lambda>s. (reg_cache s, s))"

text \<open>How a pass ends: with the requeue delay and error it returns, or with a run-time panic.\<close>

datatype outcome = Returned duration "error option" | Panicked

section \<open>Constants\<close>

definition blueprintFinalizer :: string where
  "blueprintFinalizer = ''krop.opendefense.cloud/registrar''"

definition resyncInterval :: duration where
  "resyncInterval = 5 * Minute"

section \<open>Failing\<close>

definition status_condition :: "string \<Rightarrow> string \<Rightarrow> string \<Rightarrow> condition" where
  "status_condition st rsn msg =
     \<lparr>cond_type = ''Ready'', cond_status = st, cond_observedGeneration = 0, cond_lastTransitionTime = 0,
      cond_reason = rsn, cond_message = msg\<rparr>"

definition set_conditions :: "('c, 'k) blueprint \<Rightarrow> condition list \<Rightarrow> ('c, 'k) blueprint" where
  "set_conditions bp cs = bp\<lparr>bp_status := (bp_status bp)\<lparr>bs_Conditions := cs\<rparr>\<rparr>"

definition fail :: "('c, 'k, 'w) rlib \<Rightarrow> ('u, 'c, 'k, 'w) registrar \<Rightarrow> ('c, 'k) blueprint \<Rightarrow> string \<Rightarrow> error \<Rightarrow>
    ('w rstate, outcome) state" where
  "fail lib r bp rsn err =
     do {
       cs \<leftarrow> on_world (rl_SetStatusCondition lib (bs_Conditions (bp_status bp))
              (status_condition ''False'' rsn (error_text err)));
       _ \<leftarrow> on_world (kc_update_status (rg_Client r) (set_conditions bp cs));
       ret (Returned 0 (Some err))
     }"

text \<open>\<^verbatim>\<open>x, err := m; if err != nil { return r.fail(ctx, bp, rsn, err) }\<close>, followed by \<open>k x\<close>.\<close>

definition or_fail :: "('c, 'k, 'w) rlib \<Rightarrow> ('u, 'c, 'k, 'w) registrar \<Rightarrow> ('c, 'k) blueprint \<Rightarrow> string \<Rightarrow>
    ('w rstate, error + 'a) state \<Rightarrow> ('a \<Rightarrow> ('w rstate, outcome) state) \<Rightarrow> ('w rstate, outcome) state" where
  "or_fail lib r bp rsn m k =
     do {
       x \<leftarrow> m;
       case x of Inl e \<Rightarrow> fail lib r bp rsn e | Inr a \<Rightarrow> k a
     }"

definition as_result :: "error option \<Rightarrow> error + unit" where
  "as_result e = (case e of None \<Rightarrow> Inr () | Some x \<Rightarrow> Inl x)"

section \<open>Withdrawal\<close>

definition release_finalizer :: "('u, 'c, 'k, 'w) registrar \<Rightarrow> ('c, 'k) blueprint \<Rightarrow> ('w rstate, outcome) state" where
  "release_finalizer r bp =
     do {
       upd \<leftarrow> on_world (kc_update_blueprint (rg_Client r)
                (bp\<lparr>bp_finalizers := removeString (bp_finalizers bp) blueprintFinalizer\<rparr>));
       case upd of
         Inl e \<Rightarrow> ret (Returned 0 (Some (Wrapped ''removing blueprint finalizer: '' e)))
       | Inr _ \<Rightarrow> ret (Returned 0 None)
     }"

definition withdraw :: "('u, 'c, 'k, 'w) registrar \<Rightarrow> ('c, 'k) blueprint \<Rightarrow> ('w rstate, outcome) state" where
  "withdraw r bp =
     (if blueprintFinalizer \<in> set (bp_finalizers bp) then
        let exported = bs_ExportedAPI (bp_status bp) in
        do {
          err \<leftarrow> (if exported \<noteq> '''' then on_world (DeletePublishedAPI (rg_Client r) exported) else ret None);
          case err of
            Some e \<Rightarrow> ret (Returned 0 (Some e))
          | None \<Rightarrow>
              do {
                on_cache (\<lambda>c. Cache_Delete c (rg_Workspace r) (bp_name bp));
                (case rg_OnDeleted r of
                   Some f \<Rightarrow> if exported \<noteq> '''' then on_world (f exported) else ret ()
                 | None \<Rightarrow> ret ());
                release_finalizer r bp
              }
        }
      else ret (Returned 0 None))"

section \<open>Publication\<close>

definition ensure_finalizer :: "('u, 'c, 'k, 'w) registrar \<Rightarrow> ('c, 'k) blueprint \<Rightarrow>
    ('w, error + ('c, 'k) blueprint) state" where
  "ensure_finalizer r bp =
     (if blueprintFinalizer \<in> set (bp_finalizers bp) then ret (Inr bp)
      else kc_update_blueprint (rg_Client r) (bp\<lparr>bp_finalizers := bp_finalizers bp @ [blueprintFinalizer]\<rparr>))"

definition compile :: "('u, 'c, 'k, 'w) registrar \<Rightarrow> graph_cache \<Rightarrow> string \<Rightarrow> string \<Rightarrow> ('c, 'k) kro_spec \<Rightarrow>
    ('w rstate, error + graph) state" where
  "compile r c name specHash kroSpec =
     (case Cache_Get c (rg_Workspace r) name specHash of
        Some g \<Rightarrow> ret (Inr g)
      | None \<Rightarrow>
          do {
            built \<leftarrow> on_world (rg_Build r name kroSpec);
            case built of
              Inl e \<Rightarrow> ret (Inl (Wrapped ''building graph: '' e))
            | Inr g \<Rightarrow> do { on_cache (\<lambda>c. Cache_Put c (rg_Workspace r) name specHash g); ret (Inr g) }
          })"

text \<open>The keys of the routing map of \<^verbatim>\<open>ToKro\<close>, once each.\<close>

definition routed_ids :: "('c, 'k) rgd_spec \<Rightarrow> string list" where
  "routed_ids spec = remdups (map (\<lambda>x. kr_id (res_kro x))
     (filter (\<lambda>x. res_target x \<noteq> '''') (map the (filter (\<lambda>x. x \<noteq> None) (spec_resources spec)))))"

fun parse_routing :: "(string \<rightharpoonup> string) \<Rightarrow> string list \<Rightarrow> (string \<rightharpoonup> target) \<Rightarrow> error + (string \<rightharpoonup> target)" where
  "parse_routing raw [] routing = Inr routing"
| "parse_routing raw (i # is) routing =
     (case ParseTarget (go_index raw i) of
        Inl e \<Rightarrow> Inl (Wrapped (''resource '' @ go_quote i @ '': '') e)
      | Inr t \<Rightarrow> parse_routing raw is (routing(i \<mapsto> t)))"

definition published_status :: "('c, 'k) blueprint \<Rightarrow> string \<Rightarrow> string \<Rightarrow> string \<Rightarrow> ('c, 'k) blueprint" where
  "published_status bp exportName identityHash specHash =
     bp\<lparr>bp_status := (bp_status bp)\<lparr>bs_ExportedAPI := exportName, bs_IdentityHash := identityHash,
       bs_ObservedSpecHash := specHash\<rparr>\<rparr>"

definition write_status :: "('c, 'k, 'w) rlib \<Rightarrow> ('u, 'c, 'k, 'w) registrar \<Rightarrow> ('c, 'k) blueprint \<Rightarrow> string \<Rightarrow> string \<Rightarrow>
    ('w rstate, outcome) state" where
  "write_status lib r bp exportName specHash =
     do {
       published \<leftarrow> on_world (kc_get_export (rg_Client r) exportName);
       let identityHash = (case published of Inl _ \<Rightarrow> '''' | Inr ex \<Rightarrow> ex_identityHash ex);
       let bp1 = published_status bp exportName identityHash specHash;
       cs \<leftarrow> on_world (rl_SetStatusCondition lib (bs_Conditions (bp_status bp1))
              (status_condition ''True'' ''Published''
                (''published APIExport '' @ go_quote exportName @ '' (specHash '' @ specHash @ '')'')));
       upd \<leftarrow> on_world (kc_update_status (rg_Client r) (set_conditions bp1 cs));
       case upd of
         Inl e \<Rightarrow> ret (Returned 0 (Some (Wrapped ''updating blueprint status: '' e)))
       | Inr _ \<Rightarrow> ret (Returned resyncInterval None)
     }"

text \<open>Indexing the first version panics when there is none (or no CRD).\<close>

definition crd_version_names :: "graph \<Rightarrow> string list" where
  "crd_version_names g = (case g_crd g of None \<Rightarrow> [] | Some d \<Rightarrow> crd_versions d)"

definition announce :: "('c, 'k, 'w) rlib \<Rightarrow> ('u, 'c, 'k, 'w) registrar \<Rightarrow> ('c, 'k) blueprint \<Rightarrow> string \<Rightarrow> bool \<Rightarrow>
    graph \<Rightarrow> (string \<rightharpoonup> target) \<Rightarrow> api_resource_schema \<Rightarrow> string \<Rightarrow> ('w rstate, outcome) state" where
  "announce lib r bp specHash changed g routing ars exportName =
     (case crd_version_names g of
        [] \<Rightarrow> ret Panicked
      | v # _ \<Rightarrow>
          do {
            (case rg_OnPublished r of
               Some f \<Rightarrow> on_world (f exportName (GVK (ars_group ars) v (ars_kind ars)) g routing changed)
             | None \<Rightarrow> ret ());
            write_status lib r bp exportName specHash
          })"

definition publish_graph :: "('c, 'k, 'w) rlib \<Rightarrow> ('u, 'c, 'k, 'w) registrar \<Rightarrow> ('c, 'k) blueprint \<Rightarrow> string \<Rightarrow> bool \<Rightarrow>
    graph \<Rightarrow> (string \<rightharpoonup> target) \<Rightarrow> ('w rstate, outcome) state" where
  "publish_graph lib r bp specHash changed g routing =
     or_fail lib r bp ''BuildFailed'' (ret (BuildARS (rl_toARS lib) g specHash)) (\<lambda>ars0.
     or_fail lib r bp ''PublishFailed'' (on_world (applyARS (rg_Client r) ars0)) (\<lambda>ars.
     or_fail lib r bp ''PublishFailed'' (on_world (identityByGroupResource (rg_Client r))) (\<lambda>identity.
       case published_claims g routing identity of
         None \<Rightarrow> ret Panicked
       | Some claims \<Rightarrow>
           or_fail lib r bp ''ClaimIdentityUnresolved'' (ret (as_result (validateClaims claims))) (\<lambda>_.
             let exportName = ars_plural ars @ ''.'' @ ars_group ars in
             or_fail lib r bp ''PublishFailed''
               (do { e \<leftarrow> on_world (UpsertAPIExport (rg_Client r) exportName ars claims); ret (as_result e) })
               (\<lambda>_. announce lib r bp specHash changed g routing ars exportName)))))"

definition publish :: "('c, 'k, 'w) rlib \<Rightarrow> ('u, 'c, 'k, 'w) registrar \<Rightarrow> ('c, 'k) blueprint \<Rightarrow>
    ('w rstate, outcome) state" where
  "publish lib r bp =
     or_fail lib r bp ''HashFailed'' (ret (SpecHash (rl_Marshal lib) (bp_spec bp))) (\<lambda>specHash.
       let changed = (bs_ObservedSpecHash (bp_status bp) \<noteq> specHash);
           (kroSpec, routingRaw) = ToKro (bp_spec bp)
       in do {
         cache \<leftarrow> get_cache;
         case cache of
           None \<Rightarrow> ret Panicked
         | Some c \<Rightarrow>
             or_fail lib r bp ''BuildFailed'' (compile r c (bp_name bp) specHash kroSpec) (\<lambda>g.
             or_fail lib r bp ''InvalidTarget''
               (ret (parse_routing routingRaw (rl_range lib (routed_ids (bp_spec bp))) Map.empty)) (\<lambda>routing.
               publish_graph lib r bp specHash changed g routing))
       })"

definition Registrar_Reconcile :: "('c, 'k, 'w) rlib \<Rightarrow> ('u, 'c, 'k, 'w) registrar \<Rightarrow> string \<Rightarrow>
    ('w rstate, outcome) state" where
  "Registrar_Reconcile lib r name =
     do {
       got \<leftarrow> on_world (kc_get_blueprint (rg_Client r) name);
       case got of
         Inl e \<Rightarrow> ret (Returned 0 (IgnoreNotFound (Some e)))
       | Inr bp \<Rightarrow>
           if bp_deletionTimestamp bp \<noteq> None then withdraw r bp
           else do {
             fin \<leftarrow> on_world (ensure_finalizer r bp);
             case fin of
               Inl e \<Rightarrow> ret (Returned 0 (Some (Wrapped ''adding blueprint finalizer: '' e)))
             | Inr bp' \<Rightarrow> publish lib r bp'
           }
     }"

end
