(* ===== verification/RegistrarRun.thy ===== *)
theory RegistrarRun
  imports Registrar
begin

text \<open>
  What the registrar's pass does to the provider workspace. The locale \<open>registrar_run\<close> adds to the
  laws of the workspace what the pass relies on of the graph builder, of \<^verbatim>\<open>meta.SetStatusCondition\<close> and
  of the callbacks; the top-level theorems state the results over the model's definitions with these
  laws as hypotheses.
\<close>

section \<open>Running the steps\<close>

lemma run_on_world [simp]:
  "run_state (on_world m) s = (case run_state m (reg_world s) of (a, w) \<Rightarrow> (a, s\<lparr>reg_world := w\<rparr>))"
  by (simp add: on_world_def)

lemma run_on_cache [simp]:
  "run_state (on_cache f) s = ((), s\<lparr>reg_cache := map_option f (reg_cache s)\<rparr>)"
  by (simp add: on_cache_def)

lemma run_get_cache [simp]: "run_state get_cache s = (reg_cache s, s)"
  by (simp add: get_cache_def)

lemma on_worldE:
  assumes "run_state (on_world m) s = (a, s')"
  obtains w where "run_state m (reg_world s) = (a, w)" "s' = s\<lparr>reg_world := w\<rparr>"
  using assms by (auto split: prod.splits)

lemma or_failE:
  assumes "run_state (or_fail lib r bp rsn m k) s = (out, s')"
  obtains (failed) e s1 where "run_state m s = (Inl e, s1)" "run_state (fail lib r bp rsn e) s1 = (out, s')"
    | (passed) a s1 where "run_state m s = (Inr a, s1)" "run_state (k a) s1 = (out, s')"
  using assms by (auto simp: or_fail_def split: prod.splits sum.splits)

lemma or_fail_retE:
  assumes "run_state (or_fail lib r bp rsn (ret x) k) s = (out, s')"
  obtains (failed) e where "x = Inl e" "run_state (fail lib r bp rsn e) s = (out, s')"
    | (passed) a where "x = Inr a" "run_state (k a) s = (out, s')"
  using assms by (auto simp: or_fail_def split: sum.splits)

lemma as_result_simps [simp]: "as_result e = Inr () \<longleftrightarrow> e = None" "as_result e = Inl x \<longleftrightarrow> e = Some x"
  by (auto simp: as_result_def split: option.splits)

section \<open>The routing of a blueprint\<close>

lemma dom_to_kro_loop:
  "dom (snd (to_kro_loop rs res m)) =
     dom m \<union> (\<lambda>x. kr_id (res_kro x)) ` {x. Some x \<in> set rs \<and> res_target x \<noteq> ''''}"
  by (induction rs res m rule: to_kro_loop.induct) auto

lemma dom_ToKro: "dom (snd (ToKro spec)) = set (routed_ids spec)"
proof -
  let ?rs = "map the (filter (\<lambda>x. x \<noteq> None) (spec_resources spec))"
  have "x \<in> set ?rs \<longleftrightarrow> Some x \<in> set (spec_resources spec)" for x by force
  then have "set (filter (\<lambda>x. res_target x \<noteq> '''') ?rs) =
      {x. Some x \<in> set (spec_resources spec) \<and> res_target x \<noteq> ''''}"
    unfolding set_filter by blast
  then have "set (routed_ids spec) =
      (\<lambda>x. kr_id (res_kro x)) ` {x. Some x \<in> set (spec_resources spec) \<and> res_target x \<noteq> ''''}"
    unfolding routed_ids_def set_remdups list.set_map by (rule arg_cong)
  moreover have "dom (snd (ToKro spec)) =
      (\<lambda>x. kr_id (res_kro x)) ` {x. Some x \<in> set (spec_resources spec) \<and> res_target x \<noteq> ''''}"
    using dom_to_kro_loop [of "spec_resources spec" "[]" Map.empty]
    by (cases "to_kro_loop (spec_resources spec) [] Map.empty") (simp add: ToKro_def)
  ultimately show ?thesis by (simp only:)
qed

lemma parse_routing_ok:
  assumes "parse_routing raw is m = Inr routing"
  shows "\<forall>i. (i \<in> set is \<longrightarrow> ParseTarget (go_index raw i) = Inr (the (routing i)) \<and> routing i \<noteq> None) \<and>
    (i \<notin> set is \<longrightarrow> routing i = m i)"
  using assms
proof (induction "is" arbitrary: m)
  case (Cons i "is")
  then obtain t where t: "ParseTarget (go_index raw i) = Inr t" and p: "parse_routing raw is (m(i \<mapsto> t)) = Inr routing"
    by (auto split: sum.splits)
  show ?case
  proof (intro allI conjI impI)
    fix j
    { assume "j \<in> set (i # is)"
      then show "ParseTarget (go_index raw j) = Inr (the (routing j))" "routing j \<noteq> None"
        using Cons.IH [OF p] t by (cases "j \<in> set is"; auto)+ }
    { assume "j \<notin> set (i # is)"
      then show "routing j = m j" using Cons.IH [OF p] by auto }
  qed
qed simp

text \<open>The typed routing agrees with the targets the blueprint's resources name.\<close>

definition routes :: "('c, 'k) rgd_spec \<Rightarrow> (string \<rightharpoonup> target) \<Rightarrow> bool" where
  "routes spec routing \<longleftrightarrow>
     (\<forall>i. case snd (ToKro spec) i of
            None \<Rightarrow> routing i = None
          | Some t \<Rightarrow> (\<exists>tg. routing i = Some tg \<and> ParseTarget t = Inr tg))"

lemma parse_routing_routes:
  assumes "parse_routing (snd (ToKro spec)) is Map.empty = Inr routing" and "set is = set (routed_ids spec)"
  shows "routes spec routing"
  unfolding routes_def
proof (intro allI)
  fix i
  note ok = parse_routing_ok [OF assms(1), rule_format, of i]
  show "case snd (ToKro spec) i of None \<Rightarrow> routing i = None
      | Some t \<Rightarrow> (\<exists>tg. routing i = Some tg \<and> ParseTarget t = Inr tg)"
  proof (cases "snd (ToKro spec) i")
    case None
    then have "i \<notin> set is" using assms(2) dom_ToKro [of spec] by blast
    then show ?thesis using ok None by simp
  next
    case (Some t)
    then have "i \<in> set is" using assms(2) dom_ToKro [of spec] by blast
    then show ?thesis using ok Some by (auto simp: go_index_def)
  qed
qed

text \<open>What a pass has established when it writes the export.\<close>

definition prepared :: "('c, 'k, 'w) rlib \<Rightarrow> ('c, 'k) blueprint \<Rightarrow> string \<Rightarrow> graph \<Rightarrow> (string \<rightharpoonup> target) \<Rightarrow>
    (group_resource \<rightharpoonup> string) \<Rightarrow> api_resource_schema \<Rightarrow> claim list \<Rightarrow> bool" where
  "prepared lib bp h g routing identity ars claims \<longleftrightarrow>
     SpecHash (rl_Marshal lib) (bp_spec bp) = Inr h \<and> routes (bp_spec bp) routing \<and>
     (\<exists>ars0. BuildARS (rl_toARS lib) g h = Inr ars0 \<and> same_schema ars ars0) \<and>
     published_claims g routing identity = Some claims \<and> validateClaims claims = None"

abbreviation export_name :: "api_resource_schema \<Rightarrow> string" where
  "export_name ars \<equiv> ars_plural ars @ ''.'' @ ars_group ars"

text \<open>Blueprints change in their status only.\<close>

definition status_only :: "(string \<rightharpoonup> ('c, 'k) blueprint) \<Rightarrow> (string \<rightharpoonup> ('c, 'k) blueprint) \<Rightarrow> bool" where
  "status_only m m' \<longleftrightarrow> (\<forall>n b. m n = Some b \<longrightarrow> (\<exists>b'. m' n = Some b' \<and> bp_spec b' = bp_spec b \<and>
     bp_finalizers b' = bp_finalizers b \<and> bp_deletionTimestamp b' = bp_deletionTimestamp b))"

lemma status_only_refl [simp]: "status_only m m"
  by (simp add: status_only_def)

lemma status_only_trans:
  assumes "status_only m m'" and "status_only m' m''"
  shows "status_only m m''"
  unfolding status_only_def
proof (intro allI impI)
  fix n b
  assume "m n = Some b"
  then obtain b' where b': "m' n = Some b'" "bp_spec b' = bp_spec b" "bp_finalizers b' = bp_finalizers b"
    "bp_deletionTimestamp b' = bp_deletionTimestamp b" using assms(1) unfolding status_only_def by blast
  then obtain b'' where "m'' n = Some b''" "bp_spec b'' = bp_spec b'" "bp_finalizers b'' = bp_finalizers b'"
    "bp_deletionTimestamp b'' = bp_deletionTimestamp b'" using assms(2) unfolding status_only_def by blast
  with b' show "\<exists>b''. m'' n = Some b'' \<and> bp_spec b'' = bp_spec b \<and> bp_finalizers b'' = bp_finalizers b \<and>
      bp_deletionTimestamp b'' = bp_deletionTimestamp b" by simp
qed

definition same_but_status :: "('c, 'k) plane \<Rightarrow> ('c, 'k) plane \<Rightarrow> bool" where
  "same_but_status p q \<longleftrightarrow> pl_schemas q = pl_schemas p \<and> pl_exports q = pl_exports p \<and>
     status_only (pl_blueprints p) (pl_blueprints q)"

lemma same_but_status_refl [simp]: "same_but_status p p"
  by (simp add: same_but_status_def)

text \<open>Schemas only appear, and blueprints change in their status only.\<close>

definition grows :: "('c, 'k) plane \<Rightarrow> ('c, 'k) plane \<Rightarrow> bool" where
  "grows p q \<longleftrightarrow> pl_schemas p \<subseteq>\<^sub>m pl_schemas q \<and> status_only (pl_blueprints p) (pl_blueprints q)"

lemma grows_refl [simp]: "grows p p"
  by (simp add: grows_def)

lemma grows_trans: "grows p q \<Longrightarrow> grows q u \<Longrightarrow> grows p u"
  unfolding grows_def by (blast intro: map_le_trans status_only_trans)

lemma same_but_status_grows: "same_but_status p q \<Longrightarrow> grows p q"
  by (simp add: grows_def same_but_status_def)

text \<open>The registrar has let go of a blueprint: it is gone or carries the finalizer no more.\<close>

definition released :: "('c, 'k) plane \<Rightarrow> string \<Rightarrow> bool" where
  "released p n \<longleftrightarrow> (\<forall>b. pl_blueprints p n = Some b \<longrightarrow> blueprintFinalizer \<notin> set (bp_finalizers b))"

text \<open>The status a published blueprint shows.\<close>

definition shows_published :: "('c, 'k) plane \<Rightarrow> string \<Rightarrow> string \<Rightarrow> string \<Rightarrow> bool" where
  "shows_published p n exportName h \<longleftrightarrow>
     (\<exists>b. pl_blueprints p n = Some b \<and> bs_ExportedAPI (bp_status b) = exportName \<and> bs_ObservedSpecHash (bp_status b) = h \<and>
        (\<exists>d \<in> set (bs_Conditions (bp_status b)). cond_type d = ''Ready'' \<and> cond_status d = ''True''))"

text \<open>
  The cache is coherent: what it answers for a blueprint under a hash was compiled for that blueprint
  from a spec with that hash.
\<close>

definition compiled_for :: "('c, 'k, 'w) rlib \<Rightarrow> (string \<Rightarrow> ('c, 'k) kro_spec \<Rightarrow> graph \<Rightarrow> bool) \<Rightarrow> string \<Rightarrow> string \<Rightarrow> graph \<Rightarrow> bool" where
  "compiled_for lib built n h g \<longleftrightarrow>
     (\<exists>spec. SpecHash (rl_Marshal lib) spec = Inr h \<and> built n (fst (ToKro spec)) g)"

definition coherent :: "('c, 'k, 'w) rlib \<Rightarrow> (string \<Rightarrow> ('c, 'k) kro_spec \<Rightarrow> graph \<Rightarrow> bool) \<Rightarrow> string \<Rightarrow> 'w rstate \<Rightarrow> bool" where
  "coherent lib built ws s \<longleftrightarrow>
     (\<forall>c n h g. reg_cache s = Some c \<and> CHR ''|'' \<notin> set n \<and> Cache_Get c ws n h = Some g \<longrightarrow> compiled_for lib built n h g)"

text \<open>The last call of a publication before it is announced.\<close>

definition upsert_then :: "('c, 'k, 'w) rlib \<Rightarrow> ('u, 'c, 'k, 'w) registrar \<Rightarrow> ('c, 'k) blueprint \<Rightarrow> api_resource_schema \<Rightarrow> claim list \<Rightarrow>
    (unit \<Rightarrow> ('w rstate, outcome) state) \<Rightarrow> ('w rstate, outcome) state" where
  "upsert_then lib r bp ars claims k = or_fail lib r bp ''PublishFailed''
     (do { e \<leftarrow> on_world (UpsertAPIExport (rg_Client r) (export_name ars) ars claims); ret (as_result e) }) k"

section \<open>Laws of a pass\<close>

text \<open>\<open>built n ks g\<close>: the builder may compile the blueprint \<open>n\<close> with spec \<open>ks\<close> to \<open>g\<close>.\<close>

locale registrar_run =
  kcp_plane "rg_Client r" view for r :: "('u, 'c, 'k, 'w) registrar" and view :: "'w \<Rightarrow> ('c, 'k) plane" +
  fixes lib :: "('c, 'k, 'w) rlib"
    and built :: "string \<Rightarrow> ('c, 'k) kro_spec \<Rightarrow> graph \<Rightarrow> bool"
  assumes build_frame: "run_state (rg_Build r n ks) w = (rg, w') \<Longrightarrow> view w' = view w"
    and build_sound: "run_state (rg_Build r n ks) w = (Inr g, w') \<Longrightarrow> built n ks g"
    and condition_frame: "run_state (rl_SetStatusCondition lib cs cd) w = (cs', w') \<Longrightarrow> view w' = view w"
    and condition_set: "run_state (rl_SetStatusCondition lib cs cd) w = (cs', w') \<Longrightarrow>
          \<exists>d \<in> set cs'. cond_type d = cond_type cd \<and> cond_status d = cond_status cd \<and> cond_reason d = cond_reason cd"
    and published_frame: "rg_OnPublished r = Some f \<Longrightarrow> run_state (f ex k g routing ch) w = (x, w') \<Longrightarrow> view w' = view w"
    and deleted_frame: "rg_OnDeleted r = Some d \<Longrightarrow> run_state (d ex) w = (x, w') \<Longrightarrow> view w' = view w"
    and range_set: "set (rl_range lib ks') = set ks'"
begin

abbreviation plane_of :: "'w rstate \<Rightarrow> ('c, 'k) plane" where
  "plane_of s \<equiv> view (reg_world s)"

lemma update_status_same:
  assumes "run_state (kc_update_status (rg_Client r) bp) w = (x, w')"
  shows "same_but_status (view w) (view w')"
  unfolding same_but_status_def status_only_def
proof (intro conjI allI impI)
  fix n b
  assume "pl_blueprints (view w) n = Some b"
  then show "\<exists>b'. pl_blueprints (view w') n = Some b' \<and> bp_spec b' = bp_spec b \<and> bp_finalizers b' = bp_finalizers b \<and>
      bp_deletionTimestamp b' = bp_deletionTimestamp b"
    using update_status_frame [OF assms] update_status_keeps [OF assms] by (cases "n = bp_name bp") simp_all
qed (use update_status_frame [OF assms] in simp_all)

lemma fail_run:
  assumes "run_state (fail lib r bp rsn e) s = (out, s')"
  shows "out = Returned 0 (Some e)" "reg_cache s' = reg_cache s" "same_but_status (plane_of s) (plane_of s')"
proof -
  let ?m = "rl_SetStatusCondition lib (bs_Conditions (bp_status bp)) (status_condition ''False'' rsn (error_text e))"
  obtain cs w1 where c: "run_state ?m (reg_world s) = (cs, w1)" by fastforce
  obtain x w2 where u: "run_state (kc_update_status (rg_Client r) (set_conditions bp cs)) w1 = (x, w2)" by fastforce
  have s': "s' = s\<lparr>reg_world := w2\<rparr>" and "out = Returned 0 (Some e)" using assms c u by (auto simp: fail_def)
  then show "out = Returned 0 (Some e)" "reg_cache s' = reg_cache s" by simp_all
  show "same_but_status (plane_of s) (plane_of s')"
    using update_status_same [OF u] condition_frame [OF c] s' by simp
qed

text \<open>A failing pass leaves its reason in the status, provided the status can be written.\<close>

lemma fail_reason:
  assumes "run_state (fail lib r bp rsn e) s = (out, s')"
    and "\<And>b w x w'. run_state (kc_update_status (rg_Client r) b) w = (x, w') \<Longrightarrow> \<not> isl x"
  shows "\<exists>b. pl_blueprints (plane_of s') (bp_name bp) = Some b \<and>
    (\<exists>d \<in> set (bs_Conditions (bp_status b)). cond_type d = ''Ready'' \<and> cond_status d = ''False'' \<and> cond_reason d = rsn)"
proof -
  let ?m = "rl_SetStatusCondition lib (bs_Conditions (bp_status bp)) (status_condition ''False'' rsn (error_text e))"
  obtain cs w1 where c: "run_state ?m (reg_world s) = (cs, w1)" by fastforce
  obtain x w2 where u: "run_state (kc_update_status (rg_Client r) (set_conditions bp cs)) w1 = (x, w2)" by fastforce
  then obtain b where x: "x = Inr b" using assms(2) [OF u] by (cases x) auto
  have s': "s' = s\<lparr>reg_world := w2\<rparr>" using assms(1) c u by (auto simp: fail_def)
  have "bp_name (set_conditions bp cs) = bp_name bp" "bs_Conditions (bp_status (set_conditions bp cs)) = cs"
    by (simp_all add: set_conditions_def)
  then show ?thesis
    using update_status_ok [OF u [unfolded x]] condition_set [OF c] s' by (auto simp: status_condition_def)
qed

lemma compile_run:
  assumes "run_state (compile r c n h ks) s = (x, s')"
  shows "plane_of s' = plane_of s"
    and "x = Inr g \<Longrightarrow> (Cache_Get c (rg_Workspace r) n h = Some g \<and> s' = s) \<or>
      (built n ks g \<and> reg_cache s' = map_option (\<lambda>c. Cache_Put c (rg_Workspace r) n h g) (reg_cache s))"
    and "x = Inl e \<Longrightarrow> reg_cache s' = reg_cache s"
  using assms build_frame build_sound
  by (auto simp: compile_def split: option.splits prod.splits sum.splits)


text \<open>The last two steps of a publication, the upsert and what needs the identities of the bindings, on every branch.\<close>

lemma upsert_thenE:
  assumes "run_state (upsert_then lib r bp ars claims k) s = (out, s')"
  obtains e w where "run_state (UpsertAPIExport (rg_Client r) (export_name ars) ars claims) (reg_world s) = (e, w)"
    "\<And>x. e = Some x \<Longrightarrow> out = Returned 0 (Some x) \<and> reg_cache s' = reg_cache s \<and> same_but_status (view w) (plane_of s')"
    "e = None \<Longrightarrow> run_state (k ()) (s\<lparr>reg_world := w\<rparr>) = (out, s')"
proof -
  obtain e w where e: "run_state (UpsertAPIExport (rg_Client r) (export_name ars) ars claims) (reg_world s) = (e, w)" by fastforce
  show thesis
  proof (rule that [OF e])
    fix x
    assume "e = Some x"
    then have "run_state (fail lib r bp ''PublishFailed'' x) (s\<lparr>reg_world := w\<rparr>) = (out, s')"
      using assms e by (simp add: upsert_then_def or_fail_def as_result_def)
    from fail_run [OF this] show "out = Returned 0 (Some x) \<and> reg_cache s' = reg_cache s \<and> same_but_status (view w) (plane_of s')" by simp
  qed (use assms e in \<open>simp add: upsert_then_def or_fail_def as_result_def\<close>)
qed

lemma identified_cases:
  assumes "run_state (or_fail lib r bp ''PublishFailed'' (on_world (identityByGroupResource (rg_Client r))) (\<lambda>identity.
       case published_claims g routing identity of
         None \<Rightarrow> ret Panicked
       | Some claims \<Rightarrow> or_fail lib r bp ''ClaimIdentityUnresolved'' (ret (as_result (validateClaims claims))) (\<lambda>_. upsert_then lib r bp ars claims k)))
       s = (out, s')"
  obtains (early) "pl_exports (plane_of s') = pl_exports (plane_of s)" "\<forall>d. out \<noteq> Returned d None" "reg_cache s' = reg_cache s"
    | (upsert) identity claims s1 where "published_claims g routing identity = Some claims" "validateClaims claims = None"
        "plane_of s1 = plane_of s" "reg_cache s1 = reg_cache s" "run_state (upsert_then lib r bp ars claims k) s1 = (out, s')"
  using assms
proof (cases rule: or_failE)
  case (failed e s1)
  from failed(1) have "plane_of s1 = plane_of s" "reg_cache s1 = reg_cache s" by (auto split: prod.splits dest: identity_frame)
  with fail_run [OF failed(2)] show thesis by (intro early) (simp_all add: same_but_status_def)
next
  case (passed identity s1)
  from passed(1) have s1: "plane_of s1 = plane_of s" "reg_cache s1 = reg_cache s" by (auto split: prod.splits dest: identity_frame)
  show thesis
  proof (cases "published_claims g routing identity")
    case None
    with passed(2) have "out = Panicked" "s' = s1" by simp_all
    then show thesis using s1 by (intro early) simp_all
  next
    case (Some claims)
    from passed(2) have "run_state (or_fail lib r bp ''ClaimIdentityUnresolved'' (ret (as_result (validateClaims claims)))
        (\<lambda>_. upsert_then lib r bp ars claims k)) s1 = (out, s')"
      by (simp only: Some option.case)
    then show thesis
    proof (cases rule: or_fail_retE)
      case (failed e)
      from fail_run [OF failed(2)] s1 show thesis by (intro early) (simp_all add: same_but_status_def)
    next
      case (passed u)
      then show thesis using Some s1 by (intro upsert [of identity claims s1]) simp_all
    qed
  qed
qed

lemma publish_graph_cases:
  assumes "run_state (publish_graph lib r bp h ch g routing) s = (out, s')"
    and "SpecHash (rl_Marshal lib) (bp_spec bp) = Inr h" and "routes (bp_spec bp) routing"
  obtains (early) "pl_exports (plane_of s') = pl_exports (plane_of s)" "\<forall>d. out \<noteq> Returned d None"
      "reg_cache s' = reg_cache s"
    | (upsert) ars identity claims s1 e w2 where "prepared lib bp h g routing identity ars claims"
        "pl_exports (plane_of s1) = pl_exports (plane_of s)" "pl_schemas (plane_of s1) (ars_name ars) \<noteq> None"
        "reg_cache s1 = reg_cache s"
        "run_state (UpsertAPIExport (rg_Client r) (export_name ars) ars claims) (reg_world s1) = (e, w2)"
        "\<And>x. e = Some x \<Longrightarrow> out = Returned 0 (Some x) \<and> reg_cache s' = reg_cache s1 \<and> same_but_status (view w2) (plane_of s')"
        "e = None \<Longrightarrow> run_state (announce lib r bp h ch g routing ars (export_name ars)) (s1\<lparr>reg_world := w2\<rparr>) = (out, s')"
  using assms(1) unfolding publish_graph_def Let_def upsert_then_def [symmetric]
proof (cases rule: or_fail_retE)
  case (failed e)
  from fail_run [OF failed(2)] show thesis by (intro early) (simp_all add: same_but_status_def)
next
  case (passed ars0)
  note ars0 = passed(1)
  from passed(2) show thesis
  proof (cases rule: or_failE)
    case (failed e s1)
    from failed(1) have "pl_exports (plane_of s1) = pl_exports (plane_of s)" "reg_cache s1 = reg_cache s"
      by (auto split: prod.splits dest: applyARS_frame)
    with fail_run [OF failed(2)] show thesis by (intro early) (simp_all add: same_but_status_def)
  next
    case (passed ars s1)
    from passed(1) obtain w1 where a: "run_state (applyARS (rg_Client r) ars0) (reg_world s) = (Inr ars, w1)"
      and s1: "s1 = s\<lparr>reg_world := w1\<rparr>" by (rule on_worldE)
    have ars: "same_schema ars ars0" "pl_schemas (plane_of s1) (ars_name ars) \<noteq> None"
      using applyARS_ok [OF a] s1 by (simp_all add: same_schema_def)
    have ex1: "pl_exports (plane_of s1) = pl_exports (plane_of s)" using applyARS_frame [OF a] s1 by simp
    from passed(2) show thesis
    proof (cases rule: identified_cases)
      case early
      then show thesis using ex1 s1 by (intro that(1)) simp_all
    next
      case (upsert identity claims s2)
      have p: "prepared lib bp h g routing identity ars claims" using assms(2,3) ars0 ars(1) upsert(1,2) by (simp add: prepared_def)
      from upsert(5) show thesis
      proof (rule upsert_thenE)
        fix e w
        assume "run_state (UpsertAPIExport (rg_Client r) (export_name ars) ars claims) (reg_world s2) = (e, w)"
          "\<And>x. e = Some x \<Longrightarrow> out = Returned 0 (Some x) \<and> reg_cache s' = reg_cache s2 \<and> same_but_status (view w) (plane_of s')"
          "e = None \<Longrightarrow> run_state (announce lib r bp h ch g routing ars (export_name ars)) (s2\<lparr>reg_world := w\<rparr>) = (out, s')"
        from that(2) [OF p _ _ _ this] show thesis using ex1 s1 ars(2) upsert(3,4) by simp
      qed
    qed
  qed
qed

lemma write_status_run:
  assumes "run_state (write_status lib r bp exportName h) s = (out, s')"
  shows "reg_cache s' = reg_cache s" "same_but_status (plane_of s) (plane_of s')" "out \<noteq> Panicked"
    "out = Returned d None \<Longrightarrow> d = resyncInterval \<and> shows_published (plane_of s') (bp_name bp) exportName h"
proof -
  obtain x w1 where g: "run_state (kc_get_export (rg_Client r) exportName) (reg_world s) = (x, w1)" by fastforce
  let ?i = "case x of Inl _ \<Rightarrow> '''' | Inr ex \<Rightarrow> ex_identityHash ex"
  let ?b = "published_status bp exportName ?i h"
  let ?m = "rl_SetStatusCondition lib (bs_Conditions (bp_status ?b)) (status_condition ''True'' ''Published''
     (''published APIExport '' @ go_quote exportName @ '' (specHash '' @ h @ '')''))"
  obtain cs w2 where c: "run_state ?m w1 = (cs, w2)" by fastforce
  obtain u w3 where u: "run_state (kc_update_status (rg_Client r) (set_conditions ?b cs)) w2 = (u, w3)" by fastforce
  have s': "s' = s\<lparr>reg_world := w3\<rparr>"
    and out: "out = (case u of Inl e \<Rightarrow> Returned 0 (Some (Wrapped ''updating blueprint status: '' e)) | Inr _ \<Rightarrow> Returned resyncInterval None)"
    using assms g c u by (auto simp: write_status_def Let_def split: sum.splits)
  have v: "view w2 = plane_of s" using get_export_frame [OF g] condition_frame [OF c] by simp
  show "reg_cache s' = reg_cache s" "out \<noteq> Panicked" using s' out by (simp_all split: sum.splits)
  show "same_but_status (plane_of s) (plane_of s')" using update_status_same [OF u] v s' by simp
  assume "out = Returned d None"
  then obtain b where b: "u = Inr b" and d: "d = resyncInterval" using out by (auto split: sum.splits)
  have "bp_name (set_conditions ?b cs) = bp_name bp" "bs_ExportedAPI (bp_status (set_conditions ?b cs)) = exportName"
    "bs_ObservedSpecHash (bp_status (set_conditions ?b cs)) = h" "bs_Conditions (bp_status (set_conditions ?b cs)) = cs"
    by (simp_all add: set_conditions_def published_status_def)
  then show "d = resyncInterval \<and> shows_published (plane_of s') (bp_name bp) exportName h"
    using update_status_ok [OF u [unfolded b]] condition_set [OF c] s' d
    by (auto simp: shows_published_def status_condition_def)
qed

lemma announce_run:
  assumes "run_state (announce lib r bp h ch g routing ars exportName) s = (out, s')"
  shows "reg_cache s' = reg_cache s" "same_but_status (plane_of s) (plane_of s')"
    "out = Returned d None \<Longrightarrow> d = resyncInterval \<and> shows_published (plane_of s') (bp_name bp) exportName h"
proof (atomize (full), cases "crd_version_names g")
  case Nil
  then show "reg_cache s' = reg_cache s \<and> same_but_status (plane_of s) (plane_of s') \<and> (out = Returned d None \<longrightarrow>
      d = resyncInterval \<and> shows_published (plane_of s') (bp_name bp) exportName h)"
    using assms by (auto simp: announce_def)
next
  case (Cons v vs)
  obtain s1 where s1: "plane_of s1 = plane_of s" "reg_cache s1 = reg_cache s"
    and w: "run_state (write_status lib r bp exportName h) s1 = (out, s')"
  proof (cases "rg_OnPublished r")
    case None
    then show thesis using that [of s] assms Cons by (simp add: announce_def)
  next
    case (Some f)
    obtain x w where f: "run_state (f exportName (GVK (ars_group ars) v (ars_kind ars)) g routing ch) (reg_world s) = (x, w)"
      by (rule prod.exhaust)
    show thesis
      using that [of "s\<lparr>reg_world := w\<rparr>"] published_frame [OF Some f] assms Cons Some f by (simp add: announce_def)
  qed
  show "reg_cache s' = reg_cache s \<and> same_but_status (plane_of s) (plane_of s') \<and> (out = Returned d None \<longrightarrow>
      d = resyncInterval \<and> shows_published (plane_of s') (bp_name bp) exportName h)"
    using write_status_run [OF w] s1 by simp
qed


lemma coherent_cache: "reg_cache s' = reg_cache s \<Longrightarrow> coherent lib built (rg_Workspace r) s \<Longrightarrow> coherent lib built (rg_Workspace r) s'"
  by (simp add: coherent_def)

lemma compile_coherent:
  assumes "run_state (compile r c n h (fst (ToKro spec))) s = (x, s')" and "reg_cache s = Some c"
    and "SpecHash (rl_Marshal lib) spec = Inr h" and "CHR ''|'' \<notin> set n" and "coherent lib built (rg_Workspace r) s"
  shows "coherent lib built (rg_Workspace r) s'"
    and "x = Inr g \<Longrightarrow> compiled_for lib built n h g \<and> (\<exists>c'. reg_cache s' = Some c' \<and> Cache_Get c' (rg_Workspace r) n h = Some g)"
proof (atomize (full), cases x)
  case (Inl e)
  then show "coherent lib built (rg_Workspace r) s' \<and> (x = Inr g \<longrightarrow>
      compiled_for lib built n h g \<and> (\<exists>c'. reg_cache s' = Some c' \<and> Cache_Get c' (rg_Workspace r) n h = Some g))"
    using compile_run(3) [OF assms(1)] assms(5) by (simp add: coherent_def)
next
  case (Inr g')
  from compile_run(2) [OF assms(1) Inr] show "coherent lib built (rg_Workspace r) s' \<and> (x = Inr g \<longrightarrow>
      compiled_for lib built n h g \<and> (\<exists>c'. reg_cache s' = Some c' \<and> Cache_Get c' (rg_Workspace r) n h = Some g))"
  proof (elim disjE conjE)
    assume "Cache_Get c (rg_Workspace r) n h = Some g'" and "s' = s"
    then show ?thesis using assms(2,4,5) Inr by (auto simp: coherent_def)
  next
    assume b: "built n (fst (ToKro spec)) g'"
      and c': "reg_cache s' = map_option (\<lambda>c. Cache_Put c (rg_Workspace r) n h g') (reg_cache s)"
    have new: "compiled_for lib built n h g'" using b assms(3) by (auto simp: compiled_for_def)
    have get: "Cache_Get (Cache_Put c (rg_Workspace r) n h g') (rg_Workspace r) n' h' =
        (if n = n' then if h = h' then Some g' else None else Cache_Get c (rg_Workspace r) n' h')" if "CHR ''|'' \<notin> set n'" for n' h'
      using gcache.get_put [of "(rg_Workspace r, n')" "(rg_Workspace r, n)" c h g' h'] that assms(4) by (simp add: bar_free_def)
    have "coherent lib built (rg_Workspace r) s'"
      using assms(2,5) c' new by (auto simp: coherent_def get split: if_splits)
    then show ?thesis using get [OF assms(4)] Inr c' assms(2) new by auto
  qed
qed

lemma publish_cases:
  assumes "run_state (publish lib r bp) s = (out, s')"
    and "CHR ''|'' \<notin> set (bp_name bp)" and "coherent lib built (rg_Workspace r) s"
  obtains (early) "pl_exports (plane_of s') = pl_exports (plane_of s)" "\<forall>d. out \<noteq> Returned d None"
      "coherent lib built (rg_Workspace r) s'"
    | (upsert) h g routing ars identity claims s1 e w2 c1 where "prepared lib bp h g routing identity ars claims"
        "compiled_for lib built (bp_name bp) h g" "coherent lib built (rg_Workspace r) s1"
        "reg_cache s1 = Some c1" "Cache_Get c1 (rg_Workspace r) (bp_name bp) h = Some g"
        "pl_exports (plane_of s1) = pl_exports (plane_of s)" "pl_schemas (plane_of s1) (ars_name ars) \<noteq> None"
        "run_state (UpsertAPIExport (rg_Client r) (export_name ars) ars claims) (reg_world s1) = (e, w2)"
        "\<And>x. e = Some x \<Longrightarrow> out = Returned 0 (Some x) \<and> reg_cache s' = reg_cache s1 \<and> same_but_status (view w2) (plane_of s')"
        "e = None \<Longrightarrow> run_state (announce lib r bp h (bs_ObservedSpecHash (bp_status bp) \<noteq> h) g routing ars (export_name ars))
           (s1\<lparr>reg_world := w2\<rparr>) = (out, s')"
  using assms(1) unfolding publish_def
proof (cases rule: or_fail_retE)
  case (failed e)
  from fail_run [OF failed(2)] show thesis using assms(3)
    by (intro early) (simp_all add: same_but_status_def coherent_def)
next
  case (passed h)
  note h = passed(1)
  obtain ks raw where tk: "ToKro (bp_spec bp) = (ks, raw)" by fastforce
  show thesis
  proof (cases "reg_cache s")
    case None
    with passed(2) tk have "out = Panicked" "s' = s" by simp_all
    then show thesis using assms(3) by (intro early) simp_all
  next
    case (Some c)
    with passed(2) tk have "run_state (or_fail lib r bp ''BuildFailed'' (compile r c (bp_name bp) h ks) (\<lambda>g.
        or_fail lib r bp ''InvalidTarget'' (ret (parse_routing raw (rl_range lib (routed_ids (bp_spec bp))) Map.empty)) (\<lambda>routing.
        publish_graph lib r bp h (bs_ObservedSpecHash (bp_status bp) \<noteq> h) g routing))) s = (out, s')" by simp
    then show thesis
    proof (cases rule: or_failE)
      case (failed e s1)
      have "coherent lib built (rg_Workspace r) s1" "plane_of s1 = plane_of s"
        using compile_coherent(1) [of c "bp_name bp" h "bp_spec bp" s] compile_run(1) failed(1) tk Some h assms(2,3) by simp_all
      with fail_run [OF failed(2)] show thesis by (intro early) (simp_all add: same_but_status_def coherent_def)
    next
      case (passed g s1)
      have s1: "coherent lib built (rg_Workspace r) s1" "plane_of s1 = plane_of s" "compiled_for lib built (bp_name bp) h g"
        "\<exists>c'. reg_cache s1 = Some c' \<and> Cache_Get c' (rg_Workspace r) (bp_name bp) h = Some g"
        using compile_coherent [of c "bp_name bp" h "bp_spec bp" s] compile_run(1) passed(1) tk Some h assms(2,3) by simp_all
      from passed(2) show thesis
      proof (cases rule: or_fail_retE)
        case (failed e)
        with fail_run [OF failed(2)] s1 show thesis by (intro early) (simp_all add: same_but_status_def coherent_def)
      next
        case (passed routing)
        have "routes (bp_spec bp) routing" using parse_routing_routes [OF _ range_set, of "bp_spec bp" routing] passed(1) tk by simp
        from passed(2) h this show thesis
        proof (cases rule: publish_graph_cases)
          case early
          then show thesis using s1 coherent_cache [of s' s1] by (intro that(1)) simp_all
        next
          case (upsert ars identity claims s2 e w2)
          obtain c1 where "reg_cache s1 = Some c1" "Cache_Get c1 (rg_Workspace r) (bp_name bp) h = Some g"
            using s1(4) by blast
          with upsert show thesis
            using s1 coherent_cache [of s2 s1] by (intro that(2) [of h g routing identity ars claims s2 c1 e w2]) simp_all
        qed
      qed
    qed
  qed
qed


subsection \<open>Only growth\<close>

lemma keeps_grows:
  assumes "\<And>w a w'. run_state m w = (a, w') \<Longrightarrow> grows (view w) (view w')"
  shows "keeps (\<lambda>s. grows p0 (plane_of s)) (on_world m)"
proof (rule keepsI)
  fix s a s'
  assume g: "grows p0 (plane_of s)" and run: "run_state (on_world m) s = (a, s')"
  from run obtain w where "run_state m (reg_world s) = (a, w)" "s' = s\<lparr>reg_world := w\<rparr>" by (rule on_worldE)
  with assms grows_trans [OF g] show "grows p0 (plane_of s')" by simp
qed

lemma keeps_grows_frame:
  assumes "\<And>w a w'. run_state m w = (a, w') \<Longrightarrow> view w' = view w"
  shows "keeps (\<lambda>s. grows p0 (plane_of s)) (on_world m)"
  by (rule keeps_grows) (simp add: assms)

lemma keeps_grows_cache: "keeps (\<lambda>s. grows p0 (plane_of s)) (on_cache f)" "keeps (\<lambda>s. grows p0 (plane_of s)) get_cache"
  by (rule keepsI, force)+

lemma keeps_grows_status: "keeps (\<lambda>s. grows p0 (plane_of s)) (on_world (kc_update_status (rg_Client r) b))"
  by (rule keeps_grows) (rule same_but_status_grows [OF update_status_same])

lemma keeps_grows_condition: "keeps (\<lambda>s. grows p0 (plane_of s)) (on_world (rl_SetStatusCondition lib cs cd))"
  by (rule keeps_grows_frame) (rule condition_frame)

lemma keeps_grows_fail: "keeps (\<lambda>s. grows p0 (plane_of s)) (fail lib r b rsn e)"
  unfolding fail_def by (intro keeps_intros keeps_grows_status keeps_grows_condition)

lemma keeps_grows_or_fail:
  assumes "keeps (\<lambda>s. grows p0 (plane_of s)) m" and "\<And>a. keeps (\<lambda>s. grows p0 (plane_of s)) (k a)"
  shows "keeps (\<lambda>s. grows p0 (plane_of s)) (or_fail lib r b rsn m k)"
  unfolding or_fail_def by (intro keeps_intros keeps_grows_fail assms)

lemma applyARS_grows: "run_state (applyARS (rg_Client r) a) w = (x, w') \<Longrightarrow> grows (view w) (view w')"
  using applyARS_frame [of a w x w'] by (simp add: grows_def map_le_def dom_def) metis

lemma UpsertAPIExport_grows: "run_state (UpsertAPIExport (rg_Client r) n a cls) w = (x, w') \<Longrightarrow> grows (view w) (view w')"
  using UpsertAPIExport_frame [of n a cls w x w'] by (simp add: grows_def)

lemmas grows_intros = keeps_intros keeps_grows_or_fail keeps_grows_cache keeps_grows_status keeps_grows_condition
  keeps_grows_frame [OF identity_frame] keeps_grows_frame [OF get_export_frame] keeps_grows_frame [OF build_frame]
  keeps_grows_frame [OF published_frame] keeps_grows [OF applyARS_grows] keeps_grows [OF UpsertAPIExport_grows]

lemma write_status_grows: "keeps (\<lambda>s. grows p0 (plane_of s)) (write_status lib r bp ex h)"
  unfolding write_status_def by (intro grows_intros)

lemma announce_grows: "keeps (\<lambda>s. grows p0 (plane_of s)) (announce lib r bp h ch g routing ars ex)"
  unfolding announce_def by (intro grows_intros write_status_grows)

lemma publish_graph_grows: "keeps (\<lambda>s. grows p0 (plane_of s)) (publish_graph lib r bp h ch g routing)"
  unfolding publish_graph_def by (intro grows_intros announce_grows)

lemma compile_grows: "keeps (\<lambda>s. grows p0 (plane_of s)) (compile r c n h ks)"
  unfolding compile_def by (intro grows_intros)

lemma publish_grows: "keeps (\<lambda>s. grows p0 (plane_of s)) (publish lib r bp)"
  unfolding publish_def by (intro grows_intros compile_grows publish_graph_grows)

lemma publish_growth: "run_state (publish lib r bp) s = (out, s') \<Longrightarrow> grows (plane_of s) (plane_of s')"
  by (rule keepsD [OF publish_grows]) simp_all


subsection \<open>A pass over a live blueprint\<close>

lemma Reconcile_live_cases:
  assumes "run_state (Registrar_Reconcile lib r n) s = (out, s')" and "pl_blueprints (plane_of s) n = Some bp"
    and "bp_deletionTimestamp bp = None"
  obtains (stopped) "pl_schemas (plane_of s') = pl_schemas (plane_of s)" "pl_exports (plane_of s') = pl_exports (plane_of s)"
      "\<forall>d. out \<noteq> Returned d None" "reg_cache s' = reg_cache s"
    | (published) bp' s1 where "bp_name bp' = n" "bp_spec bp' = bp_spec bp" "blueprintFinalizer \<in> set (bp_finalizers bp')"
        "pl_blueprints (plane_of s1) n = Some bp'" "pl_schemas (plane_of s1) = pl_schemas (plane_of s)"
        "pl_exports (plane_of s1) = pl_exports (plane_of s)" "reg_cache s1 = reg_cache s"
        "run_state (publish lib r bp') s1 = (out, s')"
proof -
  have nm: "bp_name bp = n" using blueprint_key assms(2) .
  obtain got w1 where g: "run_state (kc_get_blueprint (rg_Client r) n) (reg_world s) = (got, w1)" by fastforce
  note v1 = get_blueprint_frame [OF g]
  show thesis
  proof (cases got)
    case (Inl e)
    have "\<not> IsNotFound e" using get_blueprint_missing [of n "reg_world s" e w1] g Inl assms(2) by auto
    then show thesis
      using stopped assms(1) g Inl v1 by (auto simp: Registrar_Reconcile_def IgnoreNotFound_def)
  next
    case (Inr b)
    have b: "b = bp" using get_blueprint_found [of n "reg_world s" b w1] g Inr assms(2) by simp
    obtain fin w2 where f: "run_state (ensure_finalizer r bp) w1 = (fin, w2)" by fastforce
    have run: "(case fin of Inl e \<Rightarrow> (Returned 0 (Some (Wrapped ''adding blueprint finalizer: '' e)), s\<lparr>reg_world := w2\<rparr>)
        | Inr bp' \<Rightarrow> run_state (publish lib r bp') (s\<lparr>reg_world := w2\<rparr>)) = (out, s')"
      using assms(1,3) g Inr b f by (simp add: Registrar_Reconcile_def split: sum.splits)
    show thesis
    proof (cases "blueprintFinalizer \<in> set (bp_finalizers bp)")
      case True
      then have "fin = Inr bp" "w2 = w1" using f by (simp_all add: ensure_finalizer_def)
      then show thesis using published [of bp "s\<lparr>reg_world := w2\<rparr>"] True nm v1 assms(2) run by simp
    next
      case False
      let ?b = "bp\<lparr>bp_finalizers := bp_finalizers bp @ [blueprintFinalizer]\<rparr>"
      have u: "run_state (kc_update_blueprint (rg_Client r) ?b) w1 = (fin, w2)"
        using f False by (simp add: ensure_finalizer_def)
      note fr = update_blueprint_frame [OF u]
      show thesis
      proof (cases fin)
        case (Inl e)
        then show thesis using stopped run fr v1 by auto
      next
        case (Inr bp')
        from update_blueprint_ok [OF u [unfolded Inr]] run Inr fr v1 nm assms(3)
        show thesis by (intro published [of bp' "s\<lparr>reg_world := w2\<rparr>"]) simp_all
      qed
    qed
  qed
qed

lemma Reconcile_publishes_run:
  assumes "run_state (Registrar_Reconcile lib r n) s = (Returned d None, s')" and "pl_blueprints (plane_of s) n = Some bp"
    and "bp_deletionTimestamp bp = None" and "CHR ''|'' \<notin> set n" and "coherent lib built (rg_Workspace r) s"
  shows "d = resyncInterval \<and>
    (\<exists>h g routing identity ars claims ex c. prepared lib bp h g routing identity ars claims \<and> compiled_for lib built n h g \<and>
       reg_cache s' = Some c \<and> Cache_Get c (rg_Workspace r) n h = Some g \<and>
       pl_schemas (plane_of s') (ars_name ars) \<noteq> None \<and>
       pl_exports (plane_of s') (export_name ars) = Some ex \<and> map rs_schema (ex_resources ex) = [ars_name ars] \<and> ex_claims ex = claims \<and>
       shows_published (plane_of s') n (export_name ars) h)"
  using assms(1-3)
proof (cases rule: Reconcile_live_cases)
  case (published bp' s1)
  have co: "coherent lib built (rg_Workspace r) s1" using coherent_cache [OF published(7) assms(5)] .
  from published(8) assms(4) [folded published(1)] co show ?thesis
  proof (cases rule: publish_cases)
    case (upsert h g routing ars identity claims s2 e w2 c)
    have e: "e = None" using upsert(9) by (cases e) auto
    note an = announce_run [OF upsert(10) [OF e]]
    obtain ex where ex: "pl_exports (view w2) (export_name ars) = Some ex"
      "ex_resources ex = ex_resources (export_of (export_name ars) ars claims)" "ex_claims ex = claims"
      using UpsertAPIExport_ok [OF upsert(8) [unfolded e]] by blast
    have "pl_schemas (view w2) (ars_name ars) \<noteq> None" using UpsertAPIExport_frame [OF upsert(8)] upsert(7) by simp
    moreover have "prepared lib bp h g routing identity ars claims" using upsert(1) published(2) by (simp add: prepared_def)
    moreover have "map rs_schema (ex_resources ex) = [ars_name ars]" using ex(2) by (simp add: export_of_def)
    moreover have "reg_cache s' = Some c" "same_but_status (view w2) (plane_of s')" using an(1,2) upsert(4) by simp_all
    ultimately show ?thesis
      using an(3) [of d] upsert(2,5) published(1) ex(1,3)
      by (intro conjI exI [of _ h] exI [of _ g] exI [of _ routing] exI [of _ identity] exI [of _ ars] exI [of _ claims]
          exI [of _ ex] exI [of _ c]) (simp_all add: same_but_status_def)
  qed simp
qed simp

lemma Reconcile_safe_run:
  assumes "run_state (Registrar_Reconcile lib r n) s = (out, s')" and "pl_blueprints (plane_of s) n = Some bp"
    and "bp_deletionTimestamp bp = None" and "CHR ''|'' \<notin> set n" and "coherent lib built (rg_Workspace r) s"
    and "pl_exports (plane_of s') m \<noteq> pl_exports (plane_of s) m"
  shows "\<exists>h g routing identity ars claims b. prepared lib bp h g routing identity ars claims \<and> compiled_for lib built n h g \<and>
    m = export_name ars \<and> pl_schemas (plane_of s') (ars_name ars) \<noteq> None \<and>
    pl_blueprints (plane_of s') n = Some b \<and> blueprintFinalizer \<in> set (bp_finalizers b)"
  using assms(1-3)
proof (cases rule: Reconcile_live_cases)
  case (published bp' s1)
  have co: "coherent lib built (rg_Workspace r) s1" using coherent_cache [OF published(7) assms(5)] .
  have "grows (plane_of s1) (plane_of s')" by (rule publish_growth [OF published(8)])
  then obtain b where b: "pl_blueprints (plane_of s') n = Some b" "blueprintFinalizer \<in> set (bp_finalizers b)"
    using published(3,4) by (fastforce simp: grows_def status_only_def)
  from published(8) assms(4) [folded published(1)] co show ?thesis
  proof (cases rule: publish_cases)
    case early
    then show ?thesis using assms(6) published(6) by simp
  next
    case (upsert h g routing ars identity claims s2 e w2 c)
    have s': "same_but_status (view w2) (plane_of s')"
      using upsert(9) announce_run(2) [OF upsert(10)] by (cases e) auto
    have fr: "pl_schemas (view w2) = pl_schemas (plane_of s2)" "\<forall>k. k \<noteq> export_name ars \<longrightarrow> pl_exports (view w2) k = pl_exports (plane_of s2) k"
      using UpsertAPIExport_frame [OF upsert(8)] by simp_all
    have "m = export_name ars"
    proof (rule ccontr)
      assume "m \<noteq> export_name ars"
      then have "pl_exports (plane_of s') m = pl_exports (plane_of s) m"
        using fr(2) s' upsert(6) published(6) by (simp add: same_but_status_def)
      with assms(6) show False by simp
    qed
    moreover have "pl_schemas (plane_of s') (ars_name ars) \<noteq> None" using s' fr(1) upsert(7) by (simp add: same_but_status_def)
    moreover have "prepared lib bp h g routing identity ars claims" using upsert(1) published(2) by (simp add: prepared_def)
    ultimately show ?thesis using upsert(2) published(1) b by blast
  qed
qed (use assms(6) in simp)


lemma Reconcile_schemas_run:
  assumes "run_state (Registrar_Reconcile lib r n) s = (out, s')" and "pl_blueprints (plane_of s) n = Some bp"
    and "bp_deletionTimestamp bp = None"
  shows "pl_schemas (plane_of s) \<subseteq>\<^sub>m pl_schemas (plane_of s') \<and>
    (pl_schemas (plane_of s') \<noteq> pl_schemas (plane_of s) \<longrightarrow>
       (\<exists>b. pl_blueprints (plane_of s') n = Some b \<and> blueprintFinalizer \<in> set (bp_finalizers b)))"
  using assms
proof (cases rule: Reconcile_live_cases)
  case (published bp' s1)
  have g: "grows (plane_of s1) (plane_of s')" by (rule publish_growth [OF published(8)])
  then have "\<exists>b. pl_blueprints (plane_of s') n = Some b \<and> blueprintFinalizer \<in> set (bp_finalizers b)"
    using published(3,4) by (fastforce simp: grows_def status_only_def)
  then show ?thesis using g published(5) by (simp add: grows_def)
qed simp

subsection \<open>Withdrawal\<close>

lemma withdraw_cases:
  assumes "run_state (withdraw r bp) s = (out, s')" and "blueprintFinalizer \<in> set (bp_finalizers bp)"
    and "bs_ExportedAPI (bp_status bp) = x" and "x \<noteq> ''''"
  obtains (kept) e w where "run_state (DeletePublishedAPI (rg_Client r) x) (reg_world s) = (Some e, w)"
      "out = Returned 0 (Some e)" "s' = s\<lparr>reg_world := w\<rparr>"
    | (gone) w s1 upd w2 where "run_state (DeletePublishedAPI (rg_Client r) x) (reg_world s) = (None, w)"
        "plane_of s1 = view w" "reg_cache s1 = map_option (\<lambda>c. Cache_Delete c (rg_Workspace r) (bp_name bp)) (reg_cache s)"
        "run_state (kc_update_blueprint (rg_Client r)
           (bp\<lparr>bp_finalizers := removeString (bp_finalizers bp) blueprintFinalizer\<rparr>)) (reg_world s1) = (upd, w2)"
        "s' = s1\<lparr>reg_world := w2\<rparr>" "out = Returned 0 None \<longleftrightarrow> \<not> isl upd" "out \<noteq> Panicked"
proof -
  obtain err w where d: "run_state (DeletePublishedAPI (rg_Client r) x) (reg_world s) = (err, w)" by fastforce
  show thesis
  proof (cases err)
    case (Some e)
    then show thesis using kept d assms by (auto simp: withdraw_def Let_def)
  next
    case None
    define s0 where "s0 = s\<lparr>reg_world := w, reg_cache := map_option (\<lambda>c. Cache_Delete c (rg_Workspace r) (bp_name bp)) (reg_cache s)\<rparr>"
    obtain s1 where s1: "plane_of s1 = view w" "reg_cache s1 = reg_cache s0"
      and rel: "run_state (release_finalizer r bp) s1 = (out, s')"
    proof (cases "rg_OnDeleted r")
      case nil: None
      show thesis
        by (rule that [of s0]) (use assms d None nil in \<open>simp_all add: withdraw_def Let_def s0_def\<close>)
    next
      case (Some f)
      obtain y w1 where f: "run_state (f x) w = (y, w1)" by (rule prod.exhaust)
      show thesis
        by (rule that [of "s0\<lparr>reg_world := w1\<rparr>"])
          (use assms d None Some f deleted_frame [OF Some f] in \<open>simp_all add: withdraw_def Let_def s0_def\<close>)
    qed
    obtain upd w2 where u: "run_state (kc_update_blueprint (rg_Client r)
        (bp\<lparr>bp_finalizers := removeString (bp_finalizers bp) blueprintFinalizer\<rparr>)) (reg_world s1) = (upd, w2)" by fastforce
    show thesis
      by (rule gone [OF d [unfolded None] s1(1) _ u])
        (use rel u s1(2) in \<open>auto simp: release_finalizer_def s0_def split: sum.splits\<close>)
  qed
qed

text \<open>How much of the publication a pass over a deleted blueprint leaves, if it fails and if it completes.\<close>

lemma withdraw_released:
  assumes "run_state (kc_update_blueprint (rg_Client r) (bp\<lparr>bp_finalizers := removeString (bp_finalizers bp) blueprintFinalizer\<rparr>)) w = (Inr b, w')"
  shows "released (view w') (bp_name bp)"
  using update_blueprint_ok [OF assms] by (auto simp: released_def removeString_def split: if_splits)

lemma withdraw_run:
  assumes "run_state (withdraw r bp) s = (out, s')" and "pl_blueprints (plane_of s) (bp_name bp) = Some bp" and "blueprintFinalizer \<in> set (bp_finalizers bp)"
    and "bs_ExportedAPI (bp_status bp) = x" and "x \<noteq> ''''" and "pl_exports (plane_of s) x = Some ex"
  shows "(released (plane_of s') (bp_name bp) \<longrightarrow> pl_exports (plane_of s') x = None \<and>
        rs_schema ` set (ex_resources ex) \<inter> dom (pl_schemas (plane_of s')) = {}) \<and>
      (rs_schema ` set (ex_resources ex) \<inter> dom (pl_schemas (plane_of s')) \<noteq> {} \<longrightarrow> pl_exports (plane_of s') x = Some ex) \<and>
      (out = Returned 0 None \<longrightarrow> released (plane_of s') (bp_name bp) \<and>
        (\<forall>c h. reg_cache s' = Some c \<longrightarrow> Cache_Get c (rg_Workspace r) (bp_name bp) h = None))"
  using assms(1,3,4,5)
proof (cases rule: withdraw_cases)
  case (kept e w)
  have "\<not> released (plane_of s') (bp_name bp)"
    using DeletePublishedAPI_frame [OF kept(1)] assms(2,3) kept(3) by (auto simp: released_def)
  moreover have "pl_exports (plane_of s') x = Some ex" if "rs_schema ` set (ex_resources ex) \<inter> dom (pl_schemas (plane_of s')) \<noteq> {}"
  proof -
    from that obtain m where "m \<in> rs_schema ` set (ex_resources ex)" "pl_schemas (view w) m \<noteq> None"
      using kept(3) by (auto simp: dom_def)
    from DeletePublishedAPI_handle [OF kept(1) assms(6) this] show ?thesis using kept(3) by simp
  qed
  ultimately show ?thesis unfolding kept(2) by blast
next
  case (gone w s1 upd w2)
  have planes: "pl_exports (plane_of s') = pl_exports (view w)" "pl_schemas (plane_of s') = pl_schemas (view w)"
    using update_blueprint_frame [OF gone(4)] gone(2,5) by simp_all
  have "rs_schema ` set (ex_resources ex) \<inter> dom (pl_schemas (plane_of s')) = {}"
    unfolding planes(2) disjoint_iff domIff not_not by (intro allI impI DeletePublishedAPI_ok(2) [OF gone(1) assms(6)])
  moreover have "released (plane_of s') (bp_name bp) \<and> (\<forall>c h. reg_cache s' = Some c \<longrightarrow> Cache_Get c (rg_Workspace r) (bp_name bp) h = None)"
    if "out = Returned 0 None"
  proof -
    from that gone(6) obtain b' where u: "upd = Inr b'" by (cases upd) auto
    have "Cache_Get (Cache_Delete c (rg_Workspace r) n) (rg_Workspace r) n h = None" for c n h by (simp add: cache_defs)
    then show ?thesis using withdraw_released [OF gone(4) [unfolded u]] gone(3,5) by auto
  qed
  ultimately show ?thesis using DeletePublishedAPI_ok(1) [OF gone(1)] planes(1) by simp
qed

lemma Reconcile_withdraw_run:
  assumes "run_state (Registrar_Reconcile lib r n) s = (out, s')" and "pl_blueprints (plane_of s) n = Some bp"
    and "bp_deletionTimestamp bp \<noteq> None" and "blueprintFinalizer \<in> set (bp_finalizers bp)"
    and "bs_ExportedAPI (bp_status bp) = x" and "x \<noteq> ''''" and "pl_exports (plane_of s) x = Some ex"
  shows "(released (plane_of s') n \<longrightarrow> pl_exports (plane_of s') x = None \<and>
        rs_schema ` set (ex_resources ex) \<inter> dom (pl_schemas (plane_of s')) = {}) \<and>
      (rs_schema ` set (ex_resources ex) \<inter> dom (pl_schemas (plane_of s')) \<noteq> {} \<longrightarrow> pl_exports (plane_of s') x = Some ex) \<and>
      (out = Returned 0 None \<longrightarrow> released (plane_of s') n \<and> (\<forall>c h. reg_cache s' = Some c \<longrightarrow> Cache_Get c (rg_Workspace r) n h = None))"
proof -
  have nm: "bp_name bp = n" using blueprint_key assms(2) .
  obtain got w0 where g: "run_state (kc_get_blueprint (rg_Client r) n) (reg_world s) = (got, w0)" by fastforce
  note v0 = get_blueprint_frame [OF g]
  show ?thesis
  proof (cases got)
    case (Inl e)
    have "\<not> IsNotFound e" using get_blueprint_missing [of n "reg_world s" e w0] g Inl assms(2) by auto
    then have "out = Returned 0 (Some e)" "s' = s\<lparr>reg_world := w0\<rparr>"
      using assms(1) g Inl by (auto simp: Registrar_Reconcile_def IgnoreNotFound_def)
    then show ?thesis using v0 assms(2,4,7) by (auto simp: released_def)
  next
    case (Inr b)
    have "b = bp" using get_blueprint_found [of n "reg_world s" b w0] g Inr assms(2) by simp
    then have "run_state (withdraw r bp) (s\<lparr>reg_world := w0\<rparr>) = (out, s')"
      using assms(1,3) g Inr by (simp add: Registrar_Reconcile_def)
    from withdraw_run [OF this _ assms(4-6)] show ?thesis using v0 nm assms(2,7) by simp
  qed
qed

lemma withdraw_coherent:
  assumes "run_state (withdraw r bp) s = (out, s')" and "CHR ''|'' \<notin> set (bp_name bp)" and "coherent lib built (rg_Workspace r) s"
  shows "coherent lib built (rg_Workspace r) s'"
proof -
  have "reg_cache s' = reg_cache s \<or> reg_cache s' = map_option (\<lambda>c. Cache_Delete c (rg_Workspace r) (bp_name bp)) (reg_cache s)"
    using assms(1)
    by (auto simp: withdraw_def Let_def release_finalizer_def split: if_splits option.splits prod.splits sum.splits)
  moreover have "Cache_Get (Cache_Delete c (rg_Workspace r) (bp_name bp)) (rg_Workspace r) n h =
      (if bp_name bp = n then None else Cache_Get c (rg_Workspace r) n h)" if "CHR ''|'' \<notin> set n" for c n h
    using gcache.get_del [of "(rg_Workspace r, n)" "(rg_Workspace r, bp_name bp)" c h] that assms(2) by (simp add: bar_free_def)
  ultimately show ?thesis using assms(3) by (auto simp: coherent_def split: if_splits)
qed

lemma Reconcile_coherent_run:
  assumes "run_state (Registrar_Reconcile lib r n) s = (out, s')" and "CHR ''|'' \<notin> set n" and "coherent lib built (rg_Workspace r) s"
  shows "coherent lib built (rg_Workspace r) s'"
proof -
  obtain got w0 where g: "run_state (kc_get_blueprint (rg_Client r) n) (reg_world s) = (got, w0)" by fastforce
  show ?thesis
  proof (cases got)
    case (Inl e)
    then have "reg_cache s' = reg_cache s" using assms(1) g by (auto simp: Registrar_Reconcile_def)
    then show ?thesis using assms(3) by (rule coherent_cache)
  next
    case (Inr bp)
    have st: "pl_blueprints (plane_of s) n = Some bp" using get_blueprint_found [of n "reg_world s" bp w0] g Inr by simp
    then have nm: "bp_name bp = n" by (rule blueprint_key)
    show ?thesis
    proof (cases "bp_deletionTimestamp bp")
      case None
      from assms(1) st None show ?thesis
      proof (cases rule: Reconcile_live_cases)
        case stopped
        then show ?thesis using assms(3) coherent_cache by blast
      next
        case (published bp' s1)
        have co: "coherent lib built (rg_Workspace r) s1" using coherent_cache [OF published(7) assms(3)] .
        from published(8) assms(2) [folded published(1)] co show ?thesis
        proof (cases rule: publish_cases)
          case (upsert h g routing ars identity claims s2 e w2 c)
          have "reg_cache s' = reg_cache s2"
            using upsert(9) announce_run(1) [OF upsert(10)] by (cases e) auto
          then show ?thesis using upsert(3) by (rule coherent_cache)
        qed simp
      qed
    next
      case (Some t)
      then have "run_state (withdraw r bp) (s\<lparr>reg_world := w0\<rparr>) = (out, s')"
        using assms(1) g Inr by (simp add: Registrar_Reconcile_def)
      then show ?thesis by (rule withdraw_coherent) (use nm assms in \<open>simp_all add: coherent_def\<close>)
    qed
  qed
qed

end

section \<open>Properties of the registrar\<close>

text \<open>
  C3. A pass of the registrar that succeeds on a live blueprint has published it completely: it asks for a resync in five minutes; the
  workspace holds the export \<open><plural>.<group>\<close> with exactly the schema minted for the blueprint's spec hash,
  which is stored too, and with the derived, fully resolved permission claims; routing follows the
  targets the blueprint names; the graph was compiled for this blueprint from a spec with this hash
  and is cached under it; and the status shows export, hash and Ready.
\<close>

theorem Registrar_publishes:
  assumes "registrar_run r view lib built"
    and "run_state (Registrar_Reconcile lib r n) s = (Returned d None, s')"
    and "pl_blueprints (view (reg_world s)) n = Some bp" and "bp_deletionTimestamp bp = None"
    and "CHR ''|'' \<notin> set n" and "coherent lib built (rg_Workspace r) s"
  shows "d = resyncInterval \<and>
    (\<exists>h g routing identity ars claims ex c. prepared lib bp h g routing identity ars claims \<and> compiled_for lib built n h g \<and>
       reg_cache s' = Some c \<and> Cache_Get c (rg_Workspace r) n h = Some g \<and>
       pl_schemas (view (reg_world s')) (ars_name ars) \<noteq> None \<and>
       pl_exports (view (reg_world s')) (export_name ars) = Some ex \<and> map rs_schema (ex_resources ex) = [ars_name ars] \<and>
       ex_claims ex = claims \<and> shows_published (view (reg_world s')) n (export_name ars) h)"
  by (rule registrar_run.Reconcile_publishes_run [OF assms])

text \<open>
  C12. Nothing half-valid is ever published. If a pass over a live blueprint, however it ends, changes any export, then
  that export is the blueprint's own, all targets it names are valid, every foreign claim has an
  identity hash, the schema the export needs is stored, and the blueprint carries the finalizer that will
  tear the export down.
\<close>

theorem Registrar_publishes_only_valid:
  assumes "registrar_run r view lib built"
    and "run_state (Registrar_Reconcile lib r n) s = (out, s')"
    and "pl_blueprints (view (reg_world s)) n = Some bp" and "bp_deletionTimestamp bp = None"
    and "CHR ''|'' \<notin> set n" and "coherent lib built (rg_Workspace r) s"
    and "pl_exports (view (reg_world s')) m \<noteq> pl_exports (view (reg_world s)) m"
  shows "\<exists>h g routing identity ars claims b. prepared lib bp h g routing identity ars claims \<and> compiled_for lib built n h g \<and>
    m = export_name ars \<and> pl_schemas (view (reg_world s')) (ars_name ars) \<noteq> None \<and>
    pl_blueprints (view (reg_world s')) n = Some b \<and> blueprintFinalizer \<in> set (bp_finalizers b)"
  by (rule registrar_run.Reconcile_safe_run [OF assms])

text \<open>
  C32. Schemas are immutable once served: a pass over a live blueprint never changes or removes a stored schema, and it adds
  one only after the blueprint carries the finalizer.
\<close>

theorem Registrar_schemas_immutable:
  assumes "registrar_run r view lib built"
    and "run_state (Registrar_Reconcile lib r n) s = (out, s')"
    and "pl_blueprints (view (reg_world s)) n = Some bp" and "bp_deletionTimestamp bp = None"
  shows "pl_schemas (view (reg_world s)) \<subseteq>\<^sub>m pl_schemas (view (reg_world s')) \<and>
    (pl_schemas (view (reg_world s')) \<noteq> pl_schemas (view (reg_world s)) \<longrightarrow>
       (\<exists>b. pl_blueprints (view (reg_world s')) n = Some b \<and> blueprintFinalizer \<in> set (bp_finalizers b)))"
  by (rule registrar_run.Reconcile_schemas_run [OF assms])

text \<open>
  C6. Withdrawal is all or retried. A pass over a deleted blueprint with an export lets go of the blueprint only when the export
  and every schema it references are gone; as long as one of these schemas is left, the export that
  names them is still there, unchanged, so a retry finds them; and a pass without error has
  released the finalizer and dropped the blueprint from the graph cache.
\<close>

theorem Registrar_withdraws:
  assumes "registrar_run r view lib built"
    and "run_state (Registrar_Reconcile lib r n) s = (out, s')"
    and "pl_blueprints (view (reg_world s)) n = Some bp" and "bp_deletionTimestamp bp \<noteq> None"
    and "blueprintFinalizer \<in> set (bp_finalizers bp)" and "bs_ExportedAPI (bp_status bp) = x" and "x \<noteq> ''''"
    and "pl_exports (view (reg_world s)) x = Some ex"
  shows "(released (view (reg_world s')) n \<longrightarrow> pl_exports (view (reg_world s')) x = None \<and>
        rs_schema ` set (ex_resources ex) \<inter> dom (pl_schemas (view (reg_world s'))) = {}) \<and>
      (rs_schema ` set (ex_resources ex) \<inter> dom (pl_schemas (view (reg_world s'))) \<noteq> {} \<longrightarrow>
        pl_exports (view (reg_world s')) x = Some ex) \<and>
      (out = Returned 0 None \<longrightarrow> released (view (reg_world s')) n \<and>
        (\<forall>c h. reg_cache s' = Some c \<longrightarrow> Cache_Get c (rg_Workspace r) n h = None))"
  by (rule registrar_run.Reconcile_withdraw_run [OF assms])

text \<open>
  C31. The graph cache stays coherent under every pass, whether it publishes, fails, panics or withdraws: whatever it
  answers for a blueprint and a spec hash was compiled for that blueprint from a spec with that hash.
\<close>

theorem Registrar_cache_coherent:
  assumes "registrar_run r view lib built"
    and "run_state (Registrar_Reconcile lib r n) s = (out, s')" and "CHR ''|'' \<notin> set n"
    and "coherent lib built (rg_Workspace r) s"
  shows "coherent lib built (rg_Workspace r) s'"
  by (rule registrar_run.Reconcile_coherent_run [OF assms])

text \<open>
  C38. A blueprint without a foreign consumer-plane resource can never be published: after a successful pass over a live
  blueprint, the graph cached for the hash of the blueprint's own spec has a node that the blueprint's own targets route to the
  consumer plane and whose group resource is not the instance's. (Without one, merging the claims panics after the schema has been created.)
\<close>

theorem Registrar_needs_foreign_node:
  assumes "registrar_run r view lib built"
    and "run_state (Registrar_Reconcile lib r n) s = (Returned d None, s')"
    and "pl_blueprints (view (reg_world s)) n = Some bp" and "bp_deletionTimestamp bp = None"
    and "CHR ''|'' \<notin> set n" and "coherent lib built (rg_Workspace r) s"
  shows "\<exists>h c g routing nd. SpecHash (rl_Marshal lib) (bp_spec bp) = Inr h \<and> reg_cache s' = Some c \<and> Cache_Get c (rg_Workspace r) n h = Some g \<and>
    compiled_for lib built n h g \<and> routes (bp_spec bp) routing \<and> nd \<in> set (g_nodes g) \<and>
    TargetForNode (nd_id nd) routing = TargetConsumer \<and> GroupResource (nd_gvr nd) \<noteq> GroupResource (g_instance_gvr g)"
proof -
  obtain h g routing identity ars claims c where p: "prepared lib bp h g routing identity ars claims" "compiled_for lib built n h g"
    and c: "reg_cache s' = Some c" "Cache_Get c (rg_Workspace r) n h = Some g"
    using registrar_run.Reconcile_publishes_run [OF assms] by blast
  from p have "published_claims g routing identity \<noteq> None" by (simp add: prepared_def)
  then have "{nd \<in> set (g_nodes g). needs_claim g routing nd} \<noteq> {}"
    using published_claims_eq [of g routing identity] by force
  then show ?thesis using p c unfolding needs_claim_def prepared_def by blast
qed

end
