(* ===== verification/Workspace.thy ===== *)
theory Workspace
  imports Publish
begin

text \<open>
  An executable in-memory provider workspace for the registrar. It keeps blueprints, schemas and
  exports by name and the list of bindings; \<open>km_conflict\<close> makes the next status update fail with a
  conflict, as an API server does when the object changed since it was read. It satisfies the
  laws of \<open>kcp_plane\<close> and serves to evaluate the registrar on concrete inputs.
\<close>

section \<open>Lists of named objects\<close>

definition kfind :: "('a \<Rightarrow> string) \<Rightarrow> 'a list \<Rightarrow> string \<rightharpoonup> 'a" where
  "kfind nm xs n = find (\<lambda>x. nm x = n) xs"

fun kput :: "('a \<Rightarrow> string) \<Rightarrow> 'a \<Rightarrow> 'a list \<Rightarrow> 'a list" where
  "kput nm a [] = [a]"
| "kput nm a (x # xs) = (if nm x = nm a then a # xs else x # kput nm a xs)"

definition kdel :: "('a \<Rightarrow> string) \<Rightarrow> string \<Rightarrow> 'a list \<Rightarrow> 'a list" where
  "kdel nm n xs = filter (\<lambda>x. nm x \<noteq> n) xs"

lemma kfind_simps [simp]:
  "kfind nm [] n = None"
  "kfind nm (x # xs) n = (if nm x = n then Some x else kfind nm xs n)"
  by (simp_all add: kfind_def)

lemma kfind_key: "kfind nm xs n = Some x \<Longrightarrow> nm x = n"
  by (induction xs) (auto split: if_splits)

lemma kfind_kput [simp]: "kfind nm (kput nm a xs) = (kfind nm xs)(nm a \<mapsto> a)"
  by (induction xs) auto

lemma kfind_kdel [simp]: "kfind nm (kdel nm n xs) = (kfind nm xs)(n := None)"
  by (induction xs) (auto simp: kdel_def)

section \<open>The workspace\<close>

record ('c, 'k) kmem =
  km_blueprints :: "('c, 'k) blueprint list"
  km_schemas :: "api_resource_schema list"
  km_exports :: "api_export list"
  km_bindings :: "api_binding list"
  km_conflict :: bool

definition kmem_view :: "('c, 'k, 'z) kmem_scheme \<Rightarrow> ('c, 'k) plane" where
  "kmem_view w = \<lparr>pl_blueprints = kfind bp_name (km_blueprints w), pl_schemas = kfind ars_name (km_schemas w),
     pl_exports = kfind ex_name (km_exports w)\<rparr>"

definition found :: "'a option \<Rightarrow> error + 'a" where
  "found r = (case r of None \<Rightarrow> Inl not_found | Some a \<Rightarrow> Inr a)"

definition kmem_update :: "('c, 'k) blueprint \<Rightarrow> (('c, 'k, 'z) kmem_scheme, error + ('c, 'k) blueprint) state" where
  "kmem_update bp = State (\<lambda>w.
     (case kfind bp_name (km_blueprints w) (bp_name bp) of
        None \<Rightarrow> (Inl not_found, w)
      | Some b \<Rightarrow>
          (let bp' = bp\<lparr>bp_status := bp_status b\<rparr> in
           (Inr bp', w\<lparr>km_blueprints :=
              (if bp_deletionTimestamp bp \<noteq> None \<and> bp_finalizers bp = []
               then kdel bp_name (bp_name bp) (km_blueprints w)
               else kput bp_name bp' (km_blueprints w))\<rparr>))))"

definition kmem_update_status :: "('c, 'k) blueprint \<Rightarrow>
    (('c, 'k, 'z) kmem_scheme, error + ('c, 'k) blueprint) state" where
  "kmem_update_status bp = State (\<lambda>w.
     (if km_conflict w then (Inl (StatusError ReasonConflict ''the object has been modified''), w\<lparr>km_conflict := False\<rparr>)
      else case kfind bp_name (km_blueprints w) (bp_name bp) of
        None \<Rightarrow> (Inl not_found, w)
      | Some b \<Rightarrow>
          (let bp' = b\<lparr>bp_status := bp_status bp\<rparr> in
           (Inr bp', w\<lparr>km_blueprints := kput bp_name bp' (km_blueprints w)\<rparr>))))"

definition kmem_create_schema :: "api_resource_schema \<Rightarrow>
    (('c, 'k, 'z) kmem_scheme, error + api_resource_schema) state" where
  "kmem_create_schema a = State (\<lambda>w.
     (case kfind ars_name (km_schemas w) (ars_name a) of
        Some _ \<Rightarrow> (Inl (StatusError ReasonAlreadyExists ''already exists''), w)
      | None \<Rightarrow> (Inr a, w\<lparr>km_schemas := kput ars_name a (km_schemas w)\<rparr>)))"

definition kmem_delete_schema :: "string \<Rightarrow> (('c, 'k, 'z) kmem_scheme, error option) state" where
  "kmem_delete_schema n = State (\<lambda>w.
     (case kfind ars_name (km_schemas w) n of
        None \<Rightarrow> (Some not_found, w)
      | Some _ \<Rightarrow> (None, w\<lparr>km_schemas := kdel ars_name n (km_schemas w)\<rparr>)))"

definition kmem_apply :: "string \<Rightarrow> bool \<Rightarrow> api_export \<Rightarrow> (('c, 'k, 'z) kmem_scheme, error option) state" where
  "kmem_apply fo force ex = State (\<lambda>w.
     (None, w\<lparr>km_exports := kput ex_name
        (case kfind ex_name (km_exports w) (ex_name ex) of
           None \<Rightarrow> ex
         | Some b \<Rightarrow> ex\<lparr>ex_identityHash := ex_identityHash b\<rparr>) (km_exports w)\<rparr>))"

definition kmem_delete_export :: "api_export \<Rightarrow> (('c, 'k, 'z) kmem_scheme, error option) state" where
  "kmem_delete_export ex = State (\<lambda>w.
     (case kfind ex_name (km_exports w) (ex_name ex) of
        None \<Rightarrow> (Some not_found, w)
      | Some _ \<Rightarrow> (None, w\<lparr>km_exports := kdel ex_name (ex_name ex) (km_exports w)\<rparr>)))"

definition kmem_client :: "(api_export, 'c, 'k, ('c, 'k, 'z) kmem_scheme) kcp_client" where
  "kmem_client =
     \<lparr>kc_get_blueprint = (\<lambda>n. State (\<lambda>w. (found (kfind bp_name (km_blueprints w) n), w))),
      kc_update_blueprint = kmem_update,
      kc_update_status = kmem_update_status,
      kc_get_schema = (\<lambda>n. State (\<lambda>w. (found (kfind ars_name (km_schemas w) n), w))),
      kc_create_schema = kmem_create_schema,
      kc_delete_schema = kmem_delete_schema,
      kc_list_bindings = State (\<lambda>w. (Inr (km_bindings w), w)),
      kc_get_export = (\<lambda>n. State (\<lambda>w. (found (kfind ex_name (km_exports w) n), w))),
      kc_encode = Inr,
      kc_apply = kmem_apply,
      kc_delete_export = kmem_delete_export\<rparr>"

lemmas kmem_defs = kmem_client_def kmem_update_def kmem_update_status_def kmem_create_schema_def
  kmem_delete_schema_def kmem_apply_def kmem_delete_export_def

lemma found_cases [simp]: "found r = Inr a \<longleftrightarrow> r = Some a" "found r = Inl e \<longleftrightarrow> r = None \<and> e = not_found"
  by (auto simp: found_def split: option.splits)

lemmas kmem_rules = kmem_defs kmem_view_def Let_def

interpretation kmem: kcp_plane kmem_client kmem_view
proof (unfold_locales, goal_cases)
  case (1 w n bp) then show ?case by (auto simp: kmem_view_def dest: kfind_key)
next
  case (2 w n ex) then show ?case by (auto simp: kmem_view_def dest: kfind_key)
next
  case (6 bp w bp' w') then show ?case by (auto simp: kmem_rules split: option.splits)
next
  case (7 bp w rb w')
  then show ?case by (auto simp: kmem_rules split: option.splits if_splits dest: kfind_key)
next
  case (8 bp w rb w' b)
  then show ?case by (auto simp: kmem_rules split: option.splits if_splits dest: kfind_key)
next
  case (9 bp w bp' w')
  then show ?case by (auto simp: kmem_rules split: option.splits if_splits dest: kfind_key)
next
  case (13 a w rs w') then show ?case by (auto simp: kmem_rules split: option.splits)
next
  case (14 a w a' w') then show ?case by (auto simp: kmem_rules split: option.splits)
next
  case (16 n w re w')
  then show ?case by (auto simp: kmem_rules IgnoreNotFound_def not_found_def split: option.splits)
next
  case (21 ex u fo w re w') then show ?case by (auto simp: kmem_rules split: option.splits)
next
  case (22 ex u fo w w') then show ?case by (auto simp: kmem_rules split: option.splits)
next
  case (24 ex w re w')
  then show ?case by (auto simp: kmem_rules IgnoreNotFound_def not_found_def split: option.splits)
qed (auto simp: kmem_rules split: option.splits)

end
