(* ===== verification/Supervisor.thy ===== *)
theory Supervisor
  imports GoStrings
begin

text \<open>
  The supervisor of the per-export instance managers: \<^verbatim>\<open>src/internal/supervisor/supervisor.go\<close>. The state holds the
  map of running entries, the goroutines it has started and what it has logged. An \<^verbatim>\<open>entry\<close> pointer is a number, the
  next one fresh: the Go code compares entries by identity only. \<open>sv_step\<close> interleaves what can happen: calls of
  the methods, a start function returning (at any time, of its own or after its context was
  cancelled), the goroutine's deferred \<^verbatim>\<open>forget\<close>, and the cancellation of the root context.
  \<^verbatim>\<open>Stop\<close> releases the mutex before it cancels, so it is two steps.
\<close>

section \<open>State and methods\<close>

record goroutine =
  go_export :: string
  go_cancelled :: bool
  go_returned :: bool

record supervisor =
  sv_running :: "string \<rightharpoonup> nat"
  sv_goroutines :: "nat \<rightharpoonup> goroutine"
  sv_next :: nat
  sv_cancels :: "nat list"
  sv_root_cancelled :: bool
  sv_log :: "(string \<times> error) list"

definition New :: supervisor where
  "New = \<lparr>sv_running = Map.empty, sv_goroutines = Map.empty, sv_next = 0, sv_cancels = [],
     sv_root_cancelled = False, sv_log = []\<rparr>"

definition Ensure :: "string \<Rightarrow> supervisor \<Rightarrow> supervisor" where
  "Ensure exportName sv =
     (case sv_running sv exportName of
        Some _ \<Rightarrow> sv
      | None \<Rightarrow>
          let e = sv_next sv in
          sv\<lparr>sv_running := (sv_running sv)(exportName \<mapsto> e),
            sv_goroutines := (sv_goroutines sv)(e \<mapsto>
              \<lparr>go_export = exportName, go_cancelled = False, go_returned = False\<rparr>),
            sv_next := Suc e\<rparr>)"

definition forget :: "string \<Rightarrow> nat \<Rightarrow> supervisor \<Rightarrow> supervisor" where
  "forget exportName e sv =
     (if sv_running sv exportName = Some e
      then sv\<lparr>sv_running := (sv_running sv)(exportName := None)\<rparr> else sv)"

definition Running :: "supervisor \<Rightarrow> string \<Rightarrow> bool" where
  "Running sv exportName \<longleftrightarrow> sv_running sv exportName \<noteq> None"

text \<open>The locked part of \<^verbatim>\<open>Stop\<close>; the entry it found is still to be cancelled.\<close>

definition Stop_locked :: "string \<Rightarrow> supervisor \<Rightarrow> supervisor" where
  "Stop_locked exportName sv =
     sv\<lparr>sv_running := (sv_running sv)(exportName := None),
       sv_cancels := (case sv_running sv exportName of None \<Rightarrow> sv_cancels sv | Some e \<Rightarrow> sv_cancels sv @ [e])\<rparr>"

definition cancel :: "nat \<Rightarrow> supervisor \<Rightarrow> supervisor" where
  "cancel e sv = sv\<lparr>sv_cancels := removeAll e (sv_cancels sv),
     sv_goroutines := (sv_goroutines sv)(e := map_option (\<lambda>p. p\<lparr>go_cancelled := True\<rparr>) (sv_goroutines sv e))\<rparr>"

definition Stop :: "string \<Rightarrow> supervisor \<Rightarrow> supervisor" where
  "Stop exportName sv =
     (case sv_running sv exportName of
        None \<Rightarrow> Stop_locked exportName sv
      | Some e \<Rightarrow> cancel e (Stop_locked exportName sv))"

text \<open>Whether the goroutine logs the error of its start function, given whether its context is done.\<close>

definition surfaces :: "error option \<Rightarrow> bool \<Rightarrow> bool" where
  "surfaces err done = (case err of None \<Rightarrow> False | Some e \<Rightarrow> \<not> errors_Is e ContextCanceled \<and> \<not> done)"

definition start_returns :: "nat \<Rightarrow> error option \<Rightarrow> supervisor \<Rightarrow> supervisor" where
  "start_returns e err sv =
     (case sv_goroutines sv e of
        None \<Rightarrow> sv
      | Some p \<Rightarrow>
          sv\<lparr>sv_goroutines := (sv_goroutines sv)(e \<mapsto> p\<lparr>go_returned := True\<rparr>),
            sv_log := sv_log sv @ (if surfaces err (go_cancelled p \<or> sv_root_cancelled sv)
                                   then [(go_export p, the err)] else [])\<rparr>)"

definition goroutine_ends :: "nat \<Rightarrow> supervisor \<Rightarrow> supervisor" where
  "goroutine_ends e sv =
     (case sv_goroutines sv e of
        None \<Rightarrow> sv
      | Some p \<Rightarrow> (forget (go_export p) e sv)\<lparr>sv_goroutines := (sv_goroutines sv)(e := None)\<rparr>)"

section \<open>Interleavings\<close>

datatype sv_event =
    EvEnsure string
  | EvStop string
  | EvCancel nat
  | EvReturn nat "error option"
  | EvForget nat
  | EvShutdown

inductive sv_step :: "supervisor \<Rightarrow> sv_event \<Rightarrow> supervisor \<Rightarrow> bool" where
  ensure: "sv_step sv (EvEnsure n) (Ensure n sv)"
| stop: "sv_step sv (EvStop n) (Stop_locked n sv)"
| cancelling: "e \<in> set (sv_cancels sv) \<Longrightarrow> sv_step sv (EvCancel e) (cancel e sv)"
| returning: "sv_goroutines sv e = Some p \<Longrightarrow> \<not> go_returned p \<Longrightarrow> sv_step sv (EvReturn e err) (start_returns e err sv)"
| forgetting: "sv_goroutines sv e = Some p \<Longrightarrow> go_returned p \<Longrightarrow> sv_step sv (EvForget e) (goroutine_ends e sv)"
| shutdown: "sv_step sv EvShutdown (sv\<lparr>sv_root_cancelled := True\<rparr>)"

inductive_cases sv_stepE: "sv_step sv ev sv'"

inductive sv_reachable :: "supervisor \<Rightarrow> bool" where
  start: "sv_reachable New"
| step: "sv_reachable sv \<Longrightarrow> sv_step sv ev sv' \<Longrightarrow> sv_reachable sv'"

section \<open>The invariant\<close>

definition stopped :: "supervisor \<Rightarrow> nat \<Rightarrow> bool" where
  "stopped sv e \<longleftrightarrow> e \<in> set (sv_cancels sv) \<or> (\<exists>p. sv_goroutines sv e = Some p \<and> go_cancelled p)"

text \<open>A goroutine is the tracked one of its export exactly until it is stopped or ends.\<close>

definition sv_inv :: "supervisor \<Rightarrow> bool" where
  "sv_inv sv \<longleftrightarrow>
     (\<forall>n e. sv_running sv n = Some e \<longleftrightarrow> (\<exists>p. sv_goroutines sv e = Some p \<and> go_export p = n \<and> \<not> stopped sv e)) \<and>
     (\<forall>e. sv_goroutines sv e \<noteq> None \<or> e \<in> set (sv_cancels sv) \<longrightarrow> e < sv_next sv)"

lemma sv_invD:
  assumes "sv_inv sv"
  shows "sv_running sv n = Some e \<longleftrightarrow> (\<exists>p. sv_goroutines sv e = Some p \<and> go_export p = n \<and> \<not> stopped sv e)"
    and "sv_goroutines sv e = Some p \<Longrightarrow> e < sv_next sv"
    and "e \<in> set (sv_cancels sv) \<Longrightarrow> e < sv_next sv"
  using assms by (auto simp: sv_inv_def)

lemma sv_inv_New: "sv_inv New"
  by (simp add: sv_inv_def New_def stopped_def)

lemma sv_inv_Ensure:
  assumes "sv_inv sv"
  shows "sv_inv (Ensure n sv)"
proof (cases "sv_running sv n")
  case (Some e)
  then show ?thesis using assms by (simp add: Ensure_def)
next
  case None
  have fresh: "sv_goroutines sv (sv_next sv) = None" "sv_next sv \<notin> set (sv_cancels sv)"
    using sv_invD(2,3) [OF assms, of "sv_next sv"] by (cases "sv_goroutines sv (sv_next sv)"; auto)+
  show ?thesis
    unfolding sv_inv_def
  proof (intro conjI allI impI)
    fix m e
    show "sv_running (Ensure n sv) m = Some e \<longleftrightarrow>
        (\<exists>p. sv_goroutines (Ensure n sv) e = Some p \<and> go_export p = m \<and> \<not> stopped (Ensure n sv) e)"
      using sv_invD(1) [OF assms, of m e] None fresh sv_invD(1) [OF assms, of m "sv_next sv"]
      by (cases "e = sv_next sv") (auto simp: Ensure_def Let_def stopped_def)
  next
    fix e
    assume "sv_goroutines (Ensure n sv) e \<noteq> None \<or> e \<in> set (sv_cancels (Ensure n sv))"
    then show "e < sv_next (Ensure n sv)"
      using sv_invD(2,3) [OF assms, of e] None by (auto simp: Ensure_def Let_def less_SucI split: if_splits)
  qed
qed

lemma sv_inv_one:
  assumes "sv_inv sv" and "sv_running sv n = Some e" and "sv_running sv m = Some e"
  shows "n = m"
  using sv_invD(1) [OF assms(1)] assms(2,3) by fastforce

lemma sv_inv_Stop_locked:
  assumes "sv_inv sv"
  shows "sv_inv (Stop_locked n sv)"
  unfolding sv_inv_def
proof (intro conjI allI impI)
  fix m e
  have "stopped (Stop_locked n sv) e \<longleftrightarrow> stopped sv e \<or> sv_running sv n = Some e"
    by (auto simp: stopped_def Stop_locked_def split: option.splits)
  then show "sv_running (Stop_locked n sv) m = Some e \<longleftrightarrow>
      (\<exists>p. sv_goroutines (Stop_locked n sv) e = Some p \<and> go_export p = m \<and> \<not> stopped (Stop_locked n sv) e)"
    using sv_invD(1) [OF assms, of m e] sv_inv_one [OF assms, of n e m] sv_invD(1) [OF assms, of n e]
    by (auto simp: Stop_locked_def)
next
  fix e
  assume "sv_goroutines (Stop_locked n sv) e \<noteq> None \<or> e \<in> set (sv_cancels (Stop_locked n sv))"
  then show "e < sv_next (Stop_locked n sv)"
    using sv_invD [OF assms] by (fastforce simp: Stop_locked_def split: option.splits)
qed

lemma sv_inv_cancel:
  assumes "sv_inv sv" and "e \<in> set (sv_cancels sv)"
  shows "sv_inv (cancel e sv)"
  unfolding sv_inv_def
proof (intro conjI allI impI)
  fix m e'
  have "stopped (cancel e sv) e' = stopped sv e'" if "sv_goroutines sv e' \<noteq> None"
    using that assms(2) by (auto simp: stopped_def cancel_def)
  then show "sv_running (cancel e sv) m = Some e' \<longleftrightarrow>
      (\<exists>p. sv_goroutines (cancel e sv) e' = Some p \<and> go_export p = m \<and> \<not> stopped (cancel e sv) e')"
    using sv_invD(1) [OF assms(1), of m e'] by (cases "e' = e") (auto simp: cancel_def)
next
  fix e'
  assume "sv_goroutines (cancel e sv) e' \<noteq> None \<or> e' \<in> set (sv_cancels (cancel e sv))"
  then show "e' < sv_next (cancel e sv)"
    using sv_invD(2,3) [OF assms(1), of e'] by (auto simp: cancel_def split: if_splits)
qed

lemma sv_inv_start_returns:
  assumes "sv_inv sv"
  shows "sv_inv (start_returns e err sv)"
proof (cases "sv_goroutines sv e")
  case None
  then show ?thesis using assms by (simp add: start_returns_def)
next
  case (Some p)
  have "stopped (start_returns e err sv) e' = stopped sv e'" for e'
    using Some by (auto simp: stopped_def start_returns_def)
  then show ?thesis
    using assms Some unfolding sv_inv_def by (simp add: start_returns_def)
qed

lemma sv_inv_goroutine_ends:
  assumes "sv_inv sv"
  shows "sv_inv (goroutine_ends e sv)"
proof (cases "sv_goroutines sv e")
  case None
  then show ?thesis using assms by (simp add: goroutine_ends_def)
next
  case (Some p)
  have st: "stopped (goroutine_ends e sv) e' = stopped sv e'" if "e' \<noteq> e" for e'
    using Some that by (auto simp: stopped_def goroutine_ends_def forget_def)
  have run: "sv_running (goroutine_ends e sv) m = (if sv_running sv m = Some e then None else sv_running sv m)" for m
    using sv_invD(1) [OF assms, of m e] Some by (auto simp: goroutine_ends_def forget_def)
  show ?thesis
    unfolding sv_inv_def
  proof (intro conjI allI impI)
    fix m e'
    show "sv_running (goroutine_ends e sv) m = Some e' \<longleftrightarrow>
        (\<exists>q. sv_goroutines (goroutine_ends e sv) e' = Some q \<and> go_export q = m \<and> \<not> stopped (goroutine_ends e sv) e')"
    proof (cases "e' = e")
      case True
      then show ?thesis using Some by (simp add: run) (simp add: goroutine_ends_def)
    next
      case False
      then show ?thesis using sv_invD(1) [OF assms, of m e'] Some
        by (simp add: run st) (auto simp: goroutine_ends_def)
    qed
  next
    fix e'
    assume "sv_goroutines (goroutine_ends e sv) e' \<noteq> None \<or> e' \<in> set (sv_cancels (goroutine_ends e sv))"
    then show "e' < sv_next (goroutine_ends e sv)"
      using sv_invD(2,3) [OF assms, of e'] Some by (auto simp: goroutine_ends_def forget_def split: if_splits)
  qed
qed

lemma sv_inv_step: "sv_step sv ev sv' \<Longrightarrow> sv_inv sv \<Longrightarrow> sv_inv sv'"
  by (induction rule: sv_step.induct)
    (simp_all add: sv_inv_Ensure sv_inv_Stop_locked sv_inv_cancel sv_inv_start_returns sv_inv_goroutine_ends,
     simp add: sv_inv_def stopped_def)

lemma sv_inv_reachable: "sv_reachable sv \<Longrightarrow> sv_inv sv"
  by (induction rule: sv_reachable.induct) (auto intro: sv_inv_New sv_inv_step)

lemma tracked_iff:
  assumes "sv_inv sv"
  shows "sv_running sv n = Some e \<longleftrightarrow>
    (\<exists>p. sv_goroutines sv e = Some p \<and> go_export p = n \<and> \<not> go_cancelled p \<and> e \<notin> set (sv_cancels sv))"
  using sv_invD(1) [OF assms, of n e] by (auto simp: stopped_def)

section \<open>Properties\<close>

text \<open>
  C10. However the supervisor's calls, the returns of managers and their deferred cleanups interleave, a manager
  goroutine is the tracked one of its export exactly while it has neither been stopped nor
  ended. So an export never has two unstopped managers, a stopped manager is never tracked, and
  no unstopped manager is lost track of.
\<close>

theorem supervisor_tracks:
  assumes "sv_reachable sv"
  shows "sv_running sv n = Some e \<longleftrightarrow>
    (\<exists>p. sv_goroutines sv e = Some p \<and> go_export p = n \<and> \<not> go_cancelled p \<and> e \<notin> set (sv_cancels sv))"
  by (rule tracked_iff [OF sv_inv_reachable [OF assms]])

text \<open>A run: restart of an export while the old manager is still on its way out.\<close>

definition restarted :: supervisor where
  "restarted = Ensure ''x'' (cancel 0 (Stop_locked ''x'' (Ensure ''x'' New)))"

lemma restarted_reachable: "sv_reachable restarted"
  unfolding restarted_def
  by (rule sv_reachable.step [OF sv_reachable.step [OF sv_reachable.step [OF sv_reachable.step
      [OF sv_reachable.start sv_step.ensure] sv_step.stop] sv_step.cancelling] sv_step.ensure])
    (simp add: Stop_locked_def Ensure_def New_def)

theorem supervisor_tracks_witness:
  "sv_running restarted ''x'' = Some 1 \<and> (\<exists>p. sv_goroutines restarted 1 = Some p \<and> go_export p = ''x'' \<and>
     \<not> go_cancelled p \<and> 1 \<notin> set (sv_cancels restarted))"
  using supervisor_tracks [OF restarted_reachable, of "''x''" 1]
  by (simp add: restarted_def Ensure_def cancel_def Stop_locked_def New_def Let_def)


text \<open>The abstract supervisor: the set of exports that are served.\<close>

datatype serve_label = Serve string | Withdraw string | Crash string | Quiet

inductive serve_step :: "string set \<Rightarrow> serve_label \<Rightarrow> string set \<Rightarrow> bool" where
  serve: "serve_step S (Serve n) (insert n S)"
| withdraw: "serve_step S (Withdraw n) (S - {n})"
| crash: "n \<in> S \<Longrightarrow> serve_step S (Crash n) (S - {n})"
| quiet: "serve_step S Quiet S"

inductive_simps serve_step_simps [simp]:
  "serve_step S (Serve n) S'" "serve_step S (Withdraw n) S'" "serve_step S (Crash n) S'" "serve_step S Quiet S'"

definition served :: "supervisor \<Rightarrow> string set" where
  "served sv = {n. Running sv n}"

text \<open>A goroutine that ends is a crash of its export unless it had been stopped.\<close>

fun label_of :: "supervisor \<Rightarrow> sv_event \<Rightarrow> serve_label" where
  "label_of sv (EvEnsure n) = Serve n"
| "label_of sv (EvStop n) = Withdraw n"
| "label_of sv (EvForget e) =
     (case sv_goroutines sv e of
        None \<Rightarrow> Quiet
      | Some p \<Rightarrow> if go_cancelled p \<or> e \<in> set (sv_cancels sv) then Quiet else Crash (go_export p))"
| "label_of sv _ = Quiet"

lemma served_simps:
  "served (Ensure n sv) = insert n (served sv)"
  "served (Stop_locked n sv) = served sv - {n}"
  "served (cancel e sv) = served sv"
  "served (start_returns e err sv) = served sv"
  by (auto simp: served_def Running_def Ensure_def Stop_locked_def cancel_def start_returns_def Let_def
      split: option.splits)

lemma served_ends:
  assumes "sv_inv sv" and "sv_goroutines sv e = Some p"
  shows "served (goroutine_ends e sv) = (if stopped sv e then served sv else served sv - {go_export p})"
    and "\<not> stopped sv e \<Longrightarrow> go_export p \<in> served sv"
  using sv_invD(1) [OF assms(1), of "go_export p" e] assms(2)
  by (auto simp: served_def Running_def goroutine_ends_def forget_def)

text \<open>
  C11. The supervisor refines a set of served exports. Ensuring an export adds it, stopping removes it, a manager that
  ends without having been stopped removes its own export, and nothing else changes the set: the
  cleanup of a manager that was stopped earlier never touches the export's newer manager.
\<close>

theorem supervisor_refines:
  assumes "sv_reachable sv" and "sv_step sv ev sv'"
  shows "serve_step (served sv) (label_of sv ev) (served sv')"
  using assms(2)
proof cases
  case (forgetting e p)
  have inv: "sv_inv sv" by (rule sv_inv_reachable [OF assms(1)])
  have "stopped sv e \<longleftrightarrow> go_cancelled p \<or> e \<in> set (sv_cancels sv)" using forgetting by (auto simp: stopped_def)
  then show ?thesis using served_ends [OF inv forgetting(3)] forgetting by auto
next
  case shutdown
  then show ?thesis by (simp add: served_def Running_def)
qed (simp_all add: served_simps)

text \<open>The old manager of \<open>restarted\<close> returns and cleans up: the export stays served.\<close>

theorem supervisor_refines_witness:
  "serve_step (served (start_returns 0 None restarted)) Quiet (served (goroutine_ends 0 (start_returns 0 None restarted)))"
proof -
  have g: "sv_goroutines restarted 0 = Some \<lparr>go_export = ''x'', go_cancelled = True, go_returned = False\<rparr>"
    by (simp add: restarted_def Ensure_def cancel_def Stop_locked_def New_def Let_def)
  then have "sv_step restarted (EvReturn 0 None) (start_returns 0 None restarted)" by (rule sv_step.returning) simp
  then have r: "sv_reachable (start_returns 0 None restarted)" by (rule sv_reachable.step [OF restarted_reachable])
  have g': "sv_goroutines (start_returns 0 None restarted) 0 = Some \<lparr>go_export = ''x'', go_cancelled = True, go_returned = True\<rparr>"
    using g by (simp add: start_returns_def)
  then have "sv_step (start_returns 0 None restarted) (EvForget 0) (goroutine_ends 0 (start_returns 0 None restarted))"
    by (rule sv_step.forgetting) simp
  from supervisor_refines [OF r this] show ?thesis using g' by simp
qed

text \<open>
  C34. Ensuring an export heals it: if the export has an unstopped manager the call does nothing, otherwise it starts
  exactly one new manager under a fresh entry, leaving all others alone. Either way the
  export is served afterwards by an unstopped manager.
\<close>

theorem Ensure_heals:
  assumes "sv_reachable sv"
  shows "(if \<exists>e p. sv_goroutines sv e = Some p \<and> go_export p = n \<and> \<not> go_cancelled p \<and> e \<notin> set (sv_cancels sv)
          then Ensure n sv = sv
          else sv_goroutines (Ensure n sv) = (sv_goroutines sv)(sv_next sv \<mapsto>
                 \<lparr>go_export = n, go_cancelled = False, go_returned = False\<rparr>) \<and>
               sv_goroutines sv (sv_next sv) = None) \<and>
     (\<exists>e p. sv_running (Ensure n sv) n = Some e \<and> sv_goroutines (Ensure n sv) e = Some p \<and> \<not> go_cancelled p)"
proof -
  have inv: "sv_inv sv" by (rule sv_inv_reachable [OF assms])
  have fresh: "sv_goroutines sv (sv_next sv) = None"
    using sv_invD(2) [OF inv, of "sv_next sv"] by (cases "sv_goroutines sv (sv_next sv)") auto
  have eq: "(\<exists>e p. sv_goroutines sv e = Some p \<and> go_export p = n \<and> \<not> go_cancelled p \<and> e \<notin> set (sv_cancels sv)) \<longleftrightarrow>
      sv_running sv n \<noteq> None"
    unfolding not_None_eq tracked_iff [OF inv] ..
  show ?thesis
  proof (cases "sv_running sv n")
    case None
    then show ?thesis unfolding eq using fresh by (simp add: Ensure_def Let_def)
  next
    case (Some e)
    then show ?thesis unfolding eq using tracked_iff [OF inv, of n e] by (auto simp: Ensure_def)
  qed
qed

text \<open>The manager of \<open>''x''\<close> crashes and is forgotten; ensuring it again starts a new one.\<close>

definition crashed :: supervisor where
  "crashed = goroutine_ends 0 (start_returns 0 (Some (ErrorString ''bind: address in use'')) (Ensure ''x'' New))"

lemma crashed_reachable: "sv_reachable crashed"
proof -
  have "sv_reachable (Ensure ''x'' New)" by (rule sv_reachable.step [OF sv_reachable.start sv_step.ensure])
  then have "sv_reachable (start_returns 0 (Some (ErrorString ''bind: address in use'')) (Ensure ''x'' New))"
    by (rule sv_reachable.step [OF _ sv_step.returning]) (simp add: Ensure_def New_def Let_def, simp)
  then show ?thesis
    unfolding crashed_def
    by (rule sv_reachable.step [OF _ sv_step.forgetting]) (simp add: start_returns_def Ensure_def New_def Let_def, simp)
qed

theorem Ensure_heals_witness:
  "\<not> Running crashed ''x'' \<and> sv_log crashed = [(''x'', ErrorString ''bind: address in use'')] \<and>
   (\<exists>e p. sv_running (Ensure ''x'' crashed) ''x'' = Some e \<and> sv_goroutines (Ensure ''x'' crashed) e = Some p \<and> \<not> go_cancelled p)"
proof (intro conjI)
  show "\<not> Running crashed ''x''" "sv_log crashed = [(''x'', ErrorString ''bind: address in use'')]"
    by (simp_all add: crashed_def goroutine_ends_def forget_def start_returns_def Running_def surfaces_def Ensure_def New_def Let_def)
qed (use Ensure_heals [OF crashed_reachable, of "''x''"] in blast)

text \<open>
  Stopping does not wait. A state is reachable in which an export has two managers whose start functions are
  both still running: the one just stopped, with its context cancelled, and its replacement.
\<close>

lemma restart_overlaps:
  "\<exists>sv e e' p p'. sv_reachable sv \<and> e \<noteq> e' \<and> sv_goroutines sv e = Some p \<and> sv_goroutines sv e' = Some p' \<and>
     go_export p = go_export p' \<and> \<not> go_returned p \<and> \<not> go_returned p' \<and> sv = Ensure ''x'' (Stop ''x'' (Ensure ''x'' New))"
proof -
  have "restarted = Ensure ''x'' (Stop ''x'' (Ensure ''x'' New))"
    by (simp add: restarted_def Stop_def Ensure_def New_def Let_def)
  moreover have "sv_goroutines restarted 0 = Some \<lparr>go_export = ''x'', go_cancelled = True, go_returned = False\<rparr>"
    "sv_goroutines restarted 1 = Some \<lparr>go_export = ''x'', go_cancelled = False, go_returned = False\<rparr>"
    by (simp_all add: restarted_def Ensure_def cancel_def Stop_locked_def New_def Let_def)
  ultimately show ?thesis
    using restarted_reachable by (intro exI [of _ restarted] exI [of _ 0] exI [of _ 1]) auto
qed

section \<open>Winding down\<close>

text \<open>
  What still happens when nobody calls \<^verbatim>\<open>Ensure\<close> or \<^verbatim>\<open>Stop\<close> any more: pending cancellations, start
  functions returning and goroutines ending. \<open>work\<close> bounds the steps that are left. Of these steps some are due: a pending cancellation,
  the return of a start function whose context has been cancelled, by \<^verbatim>\<open>Stop\<close> or with the root context, and the deferred \<^verbatim>\<open>forget\<close>. A start
  function whose context is alive may return, with a fatal error, but need not: the supervisor is at rest when no step is due.
\<close>

fun internal :: "sv_event \<Rightarrow> bool" where
  "internal (EvCancel e) = True"
| "internal (EvReturn e err) = True"
| "internal (EvForget e) = True"
| "internal _ = False"

definition sv_internal :: "supervisor \<Rightarrow> supervisor \<Rightarrow> bool" where
  "sv_internal sv sv' \<longleftrightarrow> (\<exists>ev. internal ev \<and> sv_step sv ev sv')"

definition goroutine_work :: "supervisor \<Rightarrow> nat \<Rightarrow> nat" where
  "goroutine_work sv e = (case sv_goroutines sv e of None \<Rightarrow> 0 | Some p \<Rightarrow> if go_returned p then 1 else 2)"

definition work :: "supervisor \<Rightarrow> nat" where
  "work sv = length (sv_cancels sv) + (\<Sum>e<sv_next sv. goroutine_work sv e)"

lemma work_decreases:
  assumes "sv_inv sv" and "sv_internal sv sv'"
  shows "work sv' < work sv"
proof -
  have smaller: "(\<Sum>i<sv_next sv. goroutine_work sv' i) < (\<Sum>i<sv_next sv. goroutine_work sv i)"
    if "e < sv_next sv" "goroutine_work sv' e < goroutine_work sv e" "\<And>i. i \<noteq> e \<Longrightarrow> goroutine_work sv' i = goroutine_work sv i" for e
  proof (rule sum_strict_mono_ex1)
    show "\<forall>i\<in>{..<sv_next sv}. goroutine_work sv' i \<le> goroutine_work sv i" using that(2,3) by (metis le_less order_refl)
  qed (use that in auto)
  from assms(2) obtain ev where "internal ev" "sv_step sv ev sv'" by (auto simp: sv_internal_def)
  from this(2,1) show ?thesis
  proof cases
    case (cancelling e)
    then have "length (sv_cancels sv') < length (sv_cancels sv)" by (simp add: cancel_def length_removeAll_less)
    moreover have "goroutine_work sv' i = goroutine_work sv i" for i
      using cancelling by (auto simp: goroutine_work_def cancel_def split: option.splits)
    ultimately show ?thesis using cancelling by (simp add: work_def cancel_def)
  next
    case (returning e p err)
    have "e < sv_next sv" using sv_invD(2) [OF assms(1)] returning by blast
    from smaller [OF this] returning show ?thesis
      by (simp add: work_def start_returns_def goroutine_work_def)
  next
    case (forgetting e p)
    have "e < sv_next sv" using sv_invD(2) [OF assms(1)] forgetting by blast
    from smaller [OF this] forgetting show ?thesis
      by (simp add: work_def goroutine_ends_def forget_def goroutine_work_def)
  qed auto
qed

lemma sv_internal_run: "(sv_internal ^^ k) sv sv' \<Longrightarrow> sv_inv sv \<Longrightarrow> sv_inv sv' \<and> work sv' + k \<le> work sv"
proof (induction k arbitrary: sv')
  case (Suc k)
  then obtain sv1 where r: "(sv_internal ^^ k) sv sv1" "sv_internal sv1 sv'" by auto
  with Suc have "sv_inv sv1" "work sv1 + k \<le> work sv" by auto
  moreover have "sv_inv sv'" using r(2) sv_inv_step \<open>sv_inv sv1\<close> by (auto simp: sv_internal_def)
  ultimately show ?case using work_decreases r(2) by fastforce
qed simp

fun due :: "supervisor \<Rightarrow> sv_event \<Rightarrow> bool" where
  "due sv (EvCancel e) = True"
| "due sv (EvReturn e err) = (sv_root_cancelled sv \<or> (\<exists>p. sv_goroutines sv e = Some p \<and> go_cancelled p))"
| "due sv (EvForget e) = True"
| "due sv _ = False"

definition at_rest :: "supervisor \<Rightarrow> bool" where
  "at_rest sv \<longleftrightarrow> (\<forall>ev sv'. due sv ev \<longrightarrow> \<not> sv_step sv ev sv')"

lemma at_restD:
  assumes "at_rest sv"
  shows "sv_cancels sv = []"
    and "sv_goroutines sv e = Some p \<Longrightarrow> \<not> go_returned p \<and> \<not> go_cancelled p \<and> \<not> sv_root_cancelled sv"
proof -
  have no: "\<not> sv_step sv ev sv'" if "due sv ev" for ev sv' using assms that by (simp add: at_rest_def)
  show "sv_cancels sv = []"
    using no [of "EvCancel _"] sv_step.cancelling [of _ sv] by (cases "sv_cancels sv") auto
  assume p: "sv_goroutines sv e = Some p"
  with no [of "EvForget e"] sv_step.forgetting have "\<not> go_returned p" by auto
  with p no [of "EvReturn e None"] sv_step.returning [OF p] show "\<not> go_returned p \<and> \<not> go_cancelled p \<and> \<not> sv_root_cancelled sv"
    by auto
qed

lemma sv_internal_running:
  assumes "sv_internal sv sv'"
  shows "sv_running sv' \<subseteq>\<^sub>m sv_running sv"
proof -
  from assms obtain ev where ev: "internal ev" "sv_step sv ev sv'" by (auto simp: sv_internal_def)
  from ev(2,1) show ?thesis
    by cases (auto simp: map_le_def cancel_def start_returns_def goroutine_ends_def forget_def split: if_splits)
qed

lemma sv_internal_run_running: "(sv_internal ^^ k) sv sv' \<Longrightarrow> sv_running sv' \<subseteq>\<^sub>m sv_running sv"
proof (induction k arbitrary: sv')
  case (Suc k)
  then show ?case using sv_internal_running map_le_trans by (metis relpowp_Suc_E)
qed simp

text \<open>
  C21. The supervisor winds down and leaks no manager. From any reachable state, once no more managers are requested or stopped, at
  most \<open>work sv\<close> steps follow, in any order and with managers crashing or not: there is no infinite run. Where it comes to
  rest, every cancellation has been carried out, nothing that has returned is left over, and the goroutines still running are exactly the
  tracked managers: each is the tracked one of its export, was tracked before, and its context is alive. So an export that is not
  tracked, for instance because it was stopped, has no manager left, and after the root context is cancelled there is none at all.
\<close>

theorem supervisor_drains:
  assumes "sv_reachable sv" and "(sv_internal ^^ k) sv sv'"
  shows "k \<le> work sv \<and> sv_running sv' \<subseteq>\<^sub>m sv_running sv \<and>
    (at_rest sv' \<longrightarrow> sv_cancels sv' = [] \<and>
       (\<forall>n e. sv_running sv' n = Some e \<longleftrightarrow> (\<exists>p. sv_goroutines sv' e = Some p \<and> go_export p = n)) \<and>
       (\<forall>e p. sv_goroutines sv' e = Some p \<longrightarrow> \<not> go_returned p \<and> \<not> go_cancelled p \<and> \<not> sv_root_cancelled sv'))"
proof -
  have inv: "sv_inv sv'" and "work sv' + k \<le> work sv"
    using sv_internal_run [OF assms(2) sv_inv_reachable [OF assms(1)]] by blast+
  moreover have "sv_running sv' n = Some e \<longleftrightarrow> (\<exists>p. sv_goroutines sv' e = Some p \<and> go_export p = n)" if "at_rest sv'" for n e
    using tracked_iff [OF inv, of n e] at_restD [OF that] by fastforce
  ultimately show ?thesis using at_restD [of sv'] sv_internal_run_running [OF assms(2)] by auto
qed

text \<open>A manager that was stopped ends; its replacement runs on, and the supervisor is at rest.\<close>

definition drained :: supervisor where
  "drained = goroutine_ends 0 (start_returns 0 (Some ContextCanceled) restarted)"

lemma drained_state:
  "sv_goroutines drained = [1 \<mapsto> \<lparr>go_export = ''x'', go_cancelled = False, go_returned = False\<rparr>]"
  "sv_cancels drained = []" "\<not> sv_root_cancelled drained"
  by (simp_all add: drained_def restarted_def start_returns_def goroutine_ends_def forget_def Ensure_def cancel_def Stop_locked_def
      New_def Let_def surfaces_def fun_eq_iff)

lemma drained_at_rest: "at_rest drained"
  unfolding at_rest_def
proof (intro allI impI notI)
  fix ev sv'
  assume "due drained ev" and "sv_step drained ev sv'"
  from this(2,1) show False by cases (auto simp: drained_state split: if_splits)
qed

theorem supervisor_drains_witness:
  "(sv_internal ^^ 2) restarted drained \<and> 2 \<le> work restarted \<and> at_rest drained \<and> sv_running drained ''x'' = Some 1 \<and>
   dom (sv_goroutines drained) = {1}"
proof -
  let ?s1 = "start_returns 0 (Some ContextCanceled) restarted"
  have g: "sv_goroutines restarted 0 = Some \<lparr>go_export = ''x'', go_cancelled = True, go_returned = False\<rparr>"
    by (simp add: restarted_def Ensure_def cancel_def Stop_locked_def New_def Let_def)
  have "sv_internal restarted ?s1"
    unfolding sv_internal_def by (intro exI [of _ "EvReturn 0 (Some ContextCanceled)"]) (simp add: sv_step.returning [OF g])
  moreover have "sv_internal ?s1 drained"
    unfolding sv_internal_def drained_def
    by (intro exI [of _ "EvForget 0"]) (simp add: sv_step.forgetting [of _ 0 "\<lparr>go_export = ''x'', go_cancelled = True, go_returned = True\<rparr>"] start_returns_def g)
  ultimately have run: "(sv_internal ^^ 2) restarted drained" by (auto simp: eval_nat_numeral)
  from supervisor_drains [OF restarted_reachable run] drained_at_rest run show ?thesis by (simp add: drained_state)
qed

end
