(* ===== verification/Kcp.thy ===== *)
theory Kcp
  imports GoStrings
begin

text \<open>
  Workspace addresses and endpoint slices: \<^verbatim>\<open>src/internal/kcp/endpointslice.go\<close> and the helpers of
  \<^verbatim>\<open>src/cmd/controller/main.go\<close> that read the workspace from the host and the pod's namespace from the environment.
\<close>

section \<open>Searching strings\<close>

text \<open>\<^verbatim>\<open>strings.Cut(s, sep)\<close>: around the first occurrence; \<open>None\<close> is its third result, false.\<close>

fun go_Cut :: "string \<Rightarrow> string \<Rightarrow> (string \<times> string) option" where
  "go_Cut sep s =
     (if prefix sep s then Some ([], drop (length sep) s)
      else case s of
             [] \<Rightarrow> None
           | x # xs \<Rightarrow> (case go_Cut sep xs of None \<Rightarrow> None | Some (a, b) \<Rightarrow> Some (x # a, b)))"

declare go_Cut.simps [simp del]

definition go_Contains :: "string \<Rightarrow> string \<Rightarrow> bool" where
  "go_Contains s sub \<longleftrightarrow> go_Cut sub s \<noteq> None"

section \<open>Workspace addresses\<close>

definition clustersPath :: string where
  "clustersPath = ''/clusters/''"

definition ValidateKubeconfig :: "string \<Rightarrow> error option" where
  "ValidateKubeconfig host =
     (if \<not> go_Contains host clustersPath
      then Some (ErrorString (''kubeconfig host '' @ go_quote host @ '' is not workspace-scoped (missing '' @
        go_quote clustersPath @ '')''))
      else None)"

definition providerWorkspaceName :: "string \<Rightarrow> string" where
  "providerWorkspaceName host =
     (case go_Cut ''/clusters/'' host of
        None \<Rightarrow> host
      | Some (_, after) \<Rightarrow>
          let name = takeWhile (\<lambda>c. c \<noteq> CHR ''/'') after in
          if name = '''' then host else name)"

text \<open>\<open>Getenv\<close> is \<^verbatim>\<open>os.Getenv\<close>: the empty string for an unset variable.\<close>

definition podNamespace :: "(string \<Rightarrow> string) \<Rightarrow> string" where
  "podNamespace Getenv = (let ns = Getenv ''POD_NAMESPACE'' in if ns \<noteq> '''' then ns else ''default'')"

section \<open>Endpoint slices\<close>

record endpoint_slice =
  es_name :: string
  es_export :: string

text \<open>\<open>list\<close> is the client's \<^verbatim>\<open>List\<close> on \<^verbatim>\<open>APIExportEndpointSliceList\<close>.\<close>

definition FindEndpointSlice :: "('w, error + endpoint_slice list) state \<Rightarrow> string \<Rightarrow> ('w, error + string) state" where
  "FindEndpointSlice list apiExportName =
     do {
       slices \<leftarrow> list;
       case slices of
         Inl e \<Rightarrow> ret (Inl (Wrapped ''listing APIExportEndpointSlices: '' e))
       | Inr items \<Rightarrow>
           (case find (\<lambda>s. es_export s = apiExportName) items of
              Some s \<Rightarrow> ret (Inr (es_name s))
            | None \<Rightarrow> ret (Inl (ErrorString (''no APIExportEndpointSlice found for APIExport '' @ go_quote apiExportName))))
     }"

section \<open>Facts\<close>

lemma go_Cut_Some: "go_Cut sep s = Some (a, b) \<Longrightarrow> s = a @ sep @ b"
proof (induction s arbitrary: a)
  case Nil
  then show ?case by (auto simp: go_Cut.simps [of sep "[]"] split: if_splits)
next
  case (Cons x xs)
  then show ?case
    by (auto simp: go_Cut.simps [of sep "x # xs"] prefix_def split: if_splits option.splits)
qed

lemma go_Cut_None: "go_Cut sep s = None \<longleftrightarrow> (\<nexists>a b. s = a @ sep @ b)"
proof (induction s)
  case Nil
  then show ?case by (auto simp: go_Cut.simps [of sep "[]"] prefix_def)
next
  case (Cons x xs)
  show ?case
  proof (cases "prefix sep (x # xs)")
    case True
    then show ?thesis by (auto simp: go_Cut.simps [of sep "x # xs"] prefix_def) (metis append_Nil)
  next
    case False
    then have "(\<nexists>a b. x # xs = a @ sep @ b) \<longleftrightarrow> (\<nexists>a b. xs = a @ sep @ b)"
      by (metis append_Cons append_Nil list.sel(3) neq_Nil_conv prefixI)
    then show ?thesis using Cons.IH False
      by (auto simp: go_Cut.simps [of sep "x # xs"] split: option.splits)
  qed
qed

lemma go_Cut_first:
  assumes "sep \<noteq> []" and "\<nexists>u v. a @ butlast sep = u @ sep @ v"
  shows "go_Cut sep (a @ sep @ b) = Some (a, b)"
  using assms(2)
proof (induction a)
  case Nil
  then show ?case by (simp add: go_Cut.simps [of sep "sep @ b"])
next
  case (Cons x a)
  have "\<not> prefix sep (x # a @ sep @ b)"
  proof
    assume "prefix sep (x # a @ sep @ b)"
    moreover have "prefix ((x # a) @ butlast sep) (x # a @ sep @ b)"
      by (metis append_Cons append_butlast_last_id assms(1) prefix_append prefix_prefix prefixI append.assoc)
    moreover have "length sep \<le> length ((x # a) @ butlast sep)" by (cases sep) simp_all
    ultimately have "prefix sep ((x # a) @ butlast sep)" by (rule prefix_length_prefix)
    then show False using Cons.prems by (metis append_Nil prefix_def)
  qed
  moreover have "\<nexists>u v. a @ butlast sep = u @ sep @ v" using Cons.prems by (metis append_Cons)
  ultimately show ?case using Cons.IH by (simp add: go_Cut.simps [of sep "x # a @ sep @ b"])
qed

text \<open>
  The name of the provider workspace is read back from its address: for a host with a first \<^verbatim>\<open>/clusters/\<close>
  segment that is followed by a workspace name and possibly a further path, the kubeconfig is accepted
  and the workspace name is that name.
\<close>

lemma providerWorkspaceName_roundtrip:
  assumes "\<nexists>u v. base @ ''/clusters'' = u @ ''/clusters/'' @ v"
    and "name \<noteq> ''''" and "CHR ''/'' \<notin> set name" and "rest = '''' \<or> hd rest = CHR ''/''"
  shows "ValidateKubeconfig (base @ ''/clusters/'' @ name @ rest) = None \<and>
    providerWorkspaceName (base @ ''/clusters/'' @ name @ rest) = name"
proof -
  let ?host = "base @ ''/clusters/'' @ name @ rest"
  have cut: "go_Cut ''/clusters/'' ?host = Some (base, name @ rest)"
    using go_Cut_first [of "''/clusters/''" base "name @ rest"] assms(1) by simp
  have "takeWhile (\<lambda>c. c \<noteq> CHR ''/'') (name @ rest) = name"
    using assms(3,4) by (cases rest) (auto simp: takeWhile_append)
  then have "providerWorkspaceName ?host = name" unfolding providerWorkspaceName_def cut using assms(2) by simp
  moreover have "ValidateKubeconfig ?host = None"
    unfolding ValidateKubeconfig_def go_Contains_def clustersPath_def cut by simp
  ultimately show ?thesis by blast
qed

lemma providerWorkspaceName_example:
  "ValidateKubeconfig ''https://kcp:6443/clusters/root:provider/apis'' = None \<and>
   providerWorkspaceName ''https://kcp:6443/clusters/root:provider/apis'' = ''root:provider''"
proof -
  have "go_Cut ''/clusters/'' ''https://kcp:6443/clusters'' = None" by (simp add: go_Cut.simps)
  then have "\<nexists>u v. ''https://kcp:6443'' @ ''/clusters'' = u @ ''/clusters/'' @ v" using go_Cut_None by simp
  from providerWorkspaceName_roundtrip [OF this, of "''root:provider''" "''/apis''"] show ?thesis by simp
qed

text \<open>
  The endpoint slice found for an export is the name of a listed slice of that export, the first one;
  it fails exactly if the listing fails or no listed slice belongs to the export, and it changes
  nothing beyond what listing does.
\<close>

lemma FindEndpointSlice_spec:
  "run_state (FindEndpointSlice list n) w =
     (case run_state list w of
        (Inl e, w') \<Rightarrow> (Inl (Wrapped ''listing APIExportEndpointSlices: '' e), w')
      | (Inr items, w') \<Rightarrow>
          (case filter (\<lambda>s. es_export s = n) items of
             [] \<Rightarrow> (Inl (ErrorString (''no APIExportEndpointSlice found for APIExport '' @ go_quote n)), w')
           | s # _ \<Rightarrow> (Inr (es_name s), w')))"
proof -
  have "find P xs = (case filter P xs of [] \<Rightarrow> None | x # _ \<Rightarrow> Some x)" for P and xs :: "endpoint_slice list"
    by (induction xs) auto
  then show ?thesis by (auto simp: FindEndpointSlice_def split: prod.splits sum.splits list.splits)
qed

end
