(* ===== verification/Wiring.thy ===== *)
theory Wiring
  imports Sweeper RegistrarRun Workspace Supervisor Kcp
begin

text \<open>
  How \<^verbatim>\<open>src/cmd/controller/main.go\<close> puts the parts together: the timing constants, the registry of served
  blueprints, the callbacks by which the registrar drives the supervisor, the start function of a
  per-export manager with its reconcile function, the host client and the sweeper's settings.
  Managers, schemes, polling and client construction belong to libraries and are parameters.
\<close>

section \<open>Constants\<close>

definition requeueInterval :: duration where "requeueInterval = 30 * Second"
definition orphanStaleAfter :: duration where "orphanStaleAfter = 5 * Minute"
definition orphanSweepInterval :: duration where "orphanSweepInterval = 1 * Minute"
definition endpointSlicePollInterval :: duration where "endpointSlicePollInterval = 2 * Second"
definition endpointSliceTimeout :: duration where "endpointSliceTimeout = 30 * Second"

lemmas timing_defs = requeueInterval_def orphanStaleAfter_def orphanSweepInterval_def Minute_def Second_def

section \<open>The registry of served blueprints\<close>

record served_blueprint =
  sb_graph :: graph
  sb_gvk :: gvk
  sb_routing :: "string \<rightharpoonup> target"

type_synonym published = "string \<rightharpoonup> served_blueprint"

definition published_Get :: "published \<Rightarrow> string \<Rightarrow> served_blueprint option" where
  "published_Get m export = m export"

definition published_Set :: "published \<Rightarrow> string \<Rightarrow> served_blueprint \<Rightarrow> published" where
  "published_Set m export sb = m(export \<mapsto> sb)"

definition published_Delete :: "published \<Rightarrow> string \<Rightarrow> published" where
  "published_Delete m export = m(export := None)"

lemmas published_defs = published_Get_def published_Set_def published_Delete_def

interpretation registry: slot_store "\<lambda>_. True" "\<lambda>m k (_ :: unit). published_Get m k"
  "\<lambda>m k _ sb. published_Set m k sb" published_Delete
  by unfold_locales (auto simp: published_defs)

section \<open>Callbacks\<close>

text \<open>\<open>wi_serving e\<close> is what the start function of the manager goroutine \<open>e\<close> read from the registry.\<close>

record wiring =
  wi_registry :: published
  wi_sup :: supervisor
  wi_serving :: "nat \<rightharpoonup> served_blueprint"

definition OnPublished :: "string \<Rightarrow> gvk \<Rightarrow> graph \<Rightarrow> (string \<rightharpoonup> target) \<Rightarrow> bool \<Rightarrow> wiring \<Rightarrow> wiring" where
  "OnPublished exportName instanceGVK g routing changed w =
     (let w1 = w\<lparr>wi_registry := published_Set (wi_registry w) exportName
                  \<lparr>sb_graph = g, sb_gvk = instanceGVK, sb_routing = routing\<rparr>\<rparr>;
          w2 = (if changed then w1\<lparr>wi_sup := Stop exportName (wi_sup w1)\<rparr> else w1)
      in w2\<lparr>wi_sup := Ensure exportName (wi_sup w2)\<rparr>)"

definition OnDeleted :: "string \<Rightarrow> wiring \<Rightarrow> wiring" where
  "OnDeleted export w =
     (if export \<noteq> ''''
      then w\<lparr>wi_sup := Stop export (wi_sup w), wi_registry := published_Delete (wi_registry w) export\<rparr>
      else w)"

text \<open>
  The graph source of \<^verbatim>\<open>src/internal/engine/graphsource.go\<close>. The builder and its construction belong to kro and
  client-go: \<open>HTTPClientFor\<close>, \<open>NewBuilder\<close> and the builder's \<open>newRGD\<close> are parameters; a nil config is \<open>None\<close>.
\<close>

record build_config =
  MaxCollectionSize :: int
  MaxCollectionDimensionSize :: int

definition NewEndpointGraphSource :: "('cfg \<Rightarrow> error + 'http) \<Rightarrow> ('cfg \<Rightarrow> 'http \<Rightarrow> error + 'builder) \<Rightarrow> 'cfg option \<Rightarrow> error + 'builder" where
  "NewEndpointGraphSource HTTPClientFor NewBuilder cfg =
     (case cfg of
        None \<Rightarrow> Inl (ErrorString ''EndpointGraphSource: nil rest.Config'')
      | Some c \<Rightarrow>
          (case HTTPClientFor c of
             Inl e \<Rightarrow> Inl (Wrapped ''EndpointGraphSource: http client: '' e)
           | Inr httpClient \<Rightarrow>
               (case NewBuilder c httpClient of
                  Inl e \<Rightarrow> Inl (Wrapped ''EndpointGraphSource: '' e)
                | Inr b \<Rightarrow> Inr b)))"

definition EndpointGraphSource_Build :: "(string \<Rightarrow> ('c, 'k) kro_spec \<Rightarrow> build_config \<Rightarrow> ('w, error + graph) state) \<Rightarrow>
    string \<Rightarrow> ('c, 'k) kro_spec \<Rightarrow> ('w, error + graph) state" where
  "EndpointGraphSource_Build newRGD name spec = newRGD name spec \<lparr>MaxCollectionSize = 1000, MaxCollectionDimensionSize = 1000\<rparr>"

text \<open>
  The example blueprint of \<^verbatim>\<open>src/internal/engine/blueprint.go\<close>; the embedded file and \<^verbatim>\<open>yaml.Unmarshal\<close> are parameters.
\<close>

definition LoadExampleBlueprint :: "(string \<Rightarrow> error + 'rgd) \<Rightarrow> string \<Rightarrow> error + 'rgd" where
  "LoadExampleBlueprint Unmarshal exampleBlueprintYAML =
     (case Unmarshal exampleBlueprintYAML of
        Inl e \<Rightarrow> Inl (Wrapped ''unmarshalling example blueprint: '' e)
      | Inr rgd \<Rightarrow> Inr rgd)"

text \<open>
  The registrar as main builds it; \<open>upd\<close> updates the wiring inside the world the API calls act on.
\<close>

definition main_registrar :: "((wiring \<Rightarrow> wiring) \<Rightarrow> 'w \<Rightarrow> 'w) \<Rightarrow> ('u, 'c, 'k, 'w) kcp_client \<Rightarrow> string \<Rightarrow>
    (string \<Rightarrow> ('c, 'k) kro_spec \<Rightarrow> build_config \<Rightarrow> ('w, error + graph) state) \<Rightarrow> ('u, 'c, 'k, 'w) registrar" where
  "main_registrar upd c host newRGD =
     \<lparr>rg_Client = c, rg_Workspace = providerWorkspaceName host, rg_Build = EndpointGraphSource_Build newRGD,
      rg_OnPublished = Some (\<lambda>ex k g routing changed. State (\<lambda>w. ((), upd (OnPublished ex k g routing changed) w))),
      rg_OnDeleted = Some (\<lambda>ex. State (\<lambda>w. ((), upd (OnDeleted ex) w)))\<rparr>"

section \<open>Serving one export\<close>

definition newInstance :: "gvk \<Rightarrow> obj" where
  "newInstance k = new_obj k"

definition export_reconciler :: "served_blueprint \<Rightarrow> string \<Rightarrow> 'w client \<Rightarrow> 'w client option \<Rightarrow> 'w reconciler" where
  "export_reconciler sb exportName pc hc =
     \<lparr>rc_Graph = sb_graph sb, rc_ProviderClient = pc, rc_HostClient = hc, rc_InstanceGVK = sb_gvk sb,
      rc_BlueprintName = exportName, rc_RecordNamespace = '''', rc_Routing = sb_routing sb\<rparr>"

definition reconcileFn :: "('rt, 'w) env \<Rightarrow> 'w reconciler \<Rightarrow> (string \<Rightarrow> ('w, error + 'w client) state) \<Rightarrow>
    string \<Rightarrow> string \<Rightarrow> string \<Rightarrow> ('w, duration \<times> error option) state" where
  "reconcileFn env r GetCluster clusterName ns name =
     do {
       cl \<leftarrow> GetCluster clusterName;
       case cl of
         Inl e \<Rightarrow> ret (0, Some (Wrapped (''getting cluster '' @ go_quote clusterName @ '': '') e))
       | Inr cc \<Rightarrow>
           do {
             (res, err) \<leftarrow> Reconcile env r cc clusterName ns name;
             case err of
               Some e \<Rightarrow> ret (0, Some e)
             | None \<Rightarrow> ret (if Requeue res then requeueInterval else 0, None)
           }
     }"

text \<open>
  What the start function calls in libraries: the poll loop of apimachinery (interval, timeout,
  immediate, condition; the condition assigns the captured variable \<^verbatim>\<open>sliceName\<close>, the second part of its
  state), an empty scheme and the functions that add types to it (a \<^verbatim>\<open>runtime.Scheme\<close> is of the unknown type \<open>'s\<close>, and registration,
  which updates it in place, returns it), the apiexport provider for a slice and a scheme, the multicluster manager with its scheme and
  metrics address, and its builder.
\<close>

record 'w imanager =
  im_GetCluster :: "string \<Rightarrow> ('w, error + 'w client) state"
  im_Start :: "('w, error option) state"

type_synonym 's add = "'s \<Rightarrow> error + 's"

record ('s, 'w) manager_lib =
  ml_Poll :: "duration \<Rightarrow> duration \<Rightarrow> bool \<Rightarrow> ('w \<times> string, error + bool) state \<Rightarrow> ('w \<times> string, error option) state"
  ml_NewScheme :: 's
  ml_clientgo_AddToScheme :: "'s add"
  ml_apisv1alpha1_AddToScheme :: "'s add"
  ml_corev1alpha1_AddToScheme :: "'s add"
  ml_tenancyv1alpha1_AddToScheme :: "'s add"
  ml_apiexport_New :: "string \<Rightarrow> 's \<Rightarrow> ('w, error option) state"
  ml_manager_New :: "'s \<Rightarrow> string \<Rightarrow> ('w, error + 'w imanager) state"
  ml_Complete :: "'w imanager \<Rightarrow> string \<Rightarrow> obj \<Rightarrow> (string \<Rightarrow> string \<Rightarrow> string \<Rightarrow> ('w, duration \<times> error option) state) \<Rightarrow>
    ('w, error option) state"

definition slice_condition :: "('w, error + endpoint_slice list) state \<Rightarrow> string \<Rightarrow> ('w \<times> string, error + bool) state" where
  "slice_condition list exportName = State (\<lambda>(w, sliceName).
     (case run_state (FindEndpointSlice list exportName) w of
        (Inl _, w') \<Rightarrow> (Inr False, (w', sliceName))
      | (Inr name, w') \<Rightarrow> (Inr True, (w', name))))"

definition await_slice :: "('s, 'w) manager_lib \<Rightarrow> ('w, error + endpoint_slice list) state \<Rightarrow> string \<Rightarrow> ('w, error + string) state" where
  "await_slice ml list exportName = State (\<lambda>w.
     (case run_state (ml_Poll ml endpointSlicePollInterval endpointSliceTimeout True (slice_condition list exportName)) (w, '''') of
        (Some e, (w', _)) \<Rightarrow>
          (Inl (Wrapped (''waiting for APIExportEndpointSlice for '' @ go_quote exportName @ '': '') e), w')
      | (None, (w', sliceName)) \<Rightarrow> (Inr sliceName, w')))"

text \<open>Both schemes are filled by a loop over registration functions that stops at the first error.\<close>

fun register :: "string \<Rightarrow> 's add list \<Rightarrow> 's add" where
  "register ctx [] scheme = Inr scheme"
| "register ctx (add # adds) scheme =
     (case add scheme of
        Inl e \<Rightarrow> Inl (Wrapped ctx e)
      | Inr scheme' \<Rightarrow> register ctx adds scheme')"

definition instance_scheme :: "('s, 'w) manager_lib \<Rightarrow> error + 's" where
  "instance_scheme ml = register ''registering instance scheme: ''
     [ml_clientgo_AddToScheme ml, ml_apisv1alpha1_AddToScheme ml, ml_corev1alpha1_AddToScheme ml, ml_tenancyv1alpha1_AddToScheme ml]
     (ml_NewScheme ml)"

definition serve_slice :: "('rt, 'w) env \<Rightarrow> ('s, 'w) manager_lib \<Rightarrow> 'w client \<Rightarrow> 'w client option \<Rightarrow> string \<Rightarrow>
    served_blueprint \<Rightarrow> string \<Rightarrow> ('w, error option) state" where
  "serve_slice env ml pc hc exportName sb sliceName =
     (case instance_scheme ml of
        Inl e \<Rightarrow> ret (Some e)
      | Inr instanceScheme \<Rightarrow>
          do {
            perr \<leftarrow> ml_apiexport_New ml sliceName instanceScheme;
            case perr of
              Some e \<Rightarrow> ret (Some (Wrapped (''constructing apiexport provider for '' @ go_quote exportName @ '': '') e))
            | None \<Rightarrow>
                do {
                  mgr \<leftarrow> ml_manager_New ml instanceScheme ''0'';
                  case mgr of
                    Inl e \<Rightarrow> ret (Some (Wrapped (''setting up instance manager for '' @ go_quote exportName @ '': '') e))
                  | Inr imgr \<Rightarrow>
                      do {
                        berr \<leftarrow> ml_Complete ml imgr (''krop-instance-'' @ exportName) (newInstance (sb_gvk sb))
                                  (reconcileFn env (export_reconciler sb exportName pc hc) (im_GetCluster imgr));
                        case berr of
                          Some e \<Rightarrow> ret (Some (Wrapped (''building krop-instance controller for '' @ go_quote exportName @ '': '') e))
                        | None \<Rightarrow> im_Start imgr
                      }
                }
          })"

definition startFn :: "('rt, 'w) env \<Rightarrow> ('s, 'w) manager_lib \<Rightarrow> ('w, error + endpoint_slice list) state \<Rightarrow> 'w client \<Rightarrow>
    'w client option \<Rightarrow> ('w \<Rightarrow> published) \<Rightarrow> string \<Rightarrow> ('w, error option) state" where
  "startFn env ml list pc hc registry exportName =
     do {
       sb \<leftarrow> State (\<lambda>w. (published_Get (registry w) exportName, w));
       case sb of
         None \<Rightarrow> ret (Some (ErrorString (''no served blueprint recorded for export '' @ go_quote exportName)))
       | Some sb \<Rightarrow>
           do {
             slice \<leftarrow> await_slice ml list exportName;
             case slice of
               Inl e \<Rightarrow> ret (Some e)
             | Inr sliceName \<Rightarrow> serve_slice env ml pc hc exportName sb sliceName
           }
     }"

section \<open>The host client and the sweeper\<close>

definition resolve_host :: "string \<Rightarrow> (string \<Rightarrow> error + 'cfg) \<Rightarrow> error + 'cfg \<Rightarrow> error option \<Rightarrow> ('cfg \<Rightarrow> error + 'cl) \<Rightarrow>
    error + 'cl option" where
  "resolve_host hostKubeconfig BuildConfig InClusterConfig AddToScheme client_New =
     (let cfg = (if hostKubeconfig \<noteq> ''''
            then (case BuildConfig hostKubeconfig of
                    Inl e \<Rightarrow> Inl (Wrapped (''loading host kubeconfig '' @ go_quote hostKubeconfig @ '': '') e)
                  | Inr c \<Rightarrow> Inr (Some c))
            else (case InClusterConfig of Inl _ \<Rightarrow> Inr None | Inr c \<Rightarrow> Inr (Some c)))
      in case cfg of
           Inl e \<Rightarrow> Inl e
         | Inr None \<Rightarrow> Inr None
         | Inr (Some hostCfg) \<Rightarrow>
             (case AddToScheme of
                Some e \<Rightarrow> Inl (Wrapped ''registering host scheme: '' e)
              | None \<Rightarrow>
                  (case client_New hostCfg of
                     Inl e \<Rightarrow> Inl (Wrapped ''host client: '' e)
                   | Inr cl \<Rightarrow> Inr (Some cl))))"

definition main_sweeper :: "'w client \<Rightarrow> 'w client option \<Rightarrow> 'w sweeper" where
  "main_sweeper pc hc =
     \<lparr>sw_ProviderClient = pc, sw_HostClient = hc, sw_RecordNamespace = '''', sw_StaleAfter = orphanStaleAfter,
      sw_SweepInterval = orphanSweepInterval, sw_Clock = None, sw_startedAt = 0\<rparr>"

text \<open>
  Only a missing in-cluster config without an explicit kubeconfig disables the host target; an
  explicit kubeconfig that does not load is an error.
\<close>

lemma resolve_host_disabled:
  "resolve_host kc BuildConfig InCluster AddToScheme client_New = Inr None \<longleftrightarrow> kc = '''' \<and> isl InCluster"
  by (auto simp: resolve_host_def Let_def split: sum.splits option.splits)

section \<open>Timing\<close>

text \<open>
  C30. A live instance is not swept while its heartbeat keeps going. An error-free pass of the wired reconcile function over
  an instance that is not being deleted and carries the finalizer asks for the next pass after \<^verbatim>\<open>requeueInterval\<close>;
  and a record written at \<open>t\<close> is not stale for the wired sweeper until more than nine such intervals
  have passed, so that nine consecutive passes may fail or be late.
\<close>

theorem heartbeat_margin:
  assumes "run_state (reconcileFn env r GetCluster cn ns nm) w = ((d, None), w')"
    and "run_state (GetCluster cn) w = (Inr cc, w0)"
    and "run_state (c_get cc (rc_InstanceGVK r) ns nm) w0 = (Inr inst, w1)"
    and "o_deletionTimestamp inst = None" and "Finalizer \<in> set (o_finalizers inst)"
    and "nested_map rec ''data'' = Some (\<lambda>k. map_option JStr (record_data r t k))"
    and "0 \<le> t" and "year_of_day (t div Second div 86400) \<le> 9999" and "now \<le> t + 9 * d"
  shows "d = requeueInterval \<and> \<not> stale (main_sweeper pc hc) now rec"
proof -
  obtain res err w2 where r: "run_state (Reconcile env r cc cn ns nm) w0 = ((res, err), w2)"
    by (metis prod.exhaust)
  with assms(1,2) have e: "err = None" and d: "d = (if Requeue res then requeueInterval else 0)"
    by (auto simp: reconcileFn_def split: option.splits)
  have d: "d = requeueInterval" using pass_requeues [OF r [unfolded e] assms(3-5)] d by simp
  moreover have "\<not> stale (main_sweeper pc hc) now rec"
    by (rule record_age(1) [OF assms(6-8)]) (use assms(9) in \<open>simp_all add: d main_sweeper_def timing_defs\<close>)
  ultimately show ?thesis by blast
qed

theorem heartbeat_margin_witness:
  "requeueInterval = 30 * Second \<and> \<not> stale (main_sweeper (mem_client TargetProvider) None) (4 * Minute + 30 * Second) (demo_record 0)"
proof -
  have rc: "run_state (reconcileFn (mem_env demo_runtime 0) (demo_reconciler jobGVK) (\<lambda>_. ret (Inr (mem_client TargetConsumer)))
      ''c1'' ''default'' ''w1'') (demo_world None jobGVK) = ((requeueInterval, None), demo_after demo_runtime None jobGVK)"
    by (simp add: reconcileFn_def demo_run)
  have "year_of_day 0 = 1" by (simp add: year_of_day_def find_year.simps days_before_year_def)
  with heartbeat_margin [OF rc _ _ _ _ demo_record_facts(3), of "mem_client TargetConsumer" _ "demo_instance None" _ 0
      "4 * Minute + 30 * Second" "mem_client TargetProvider" None]
  show ?thesis by (simp add: demo_get timing_defs)
qed

section \<open>Starting a manager\<close>



text \<open>A poll loop that tries once, a manager that ends at once, and one endpoint slice.\<close>

definition once_lib :: "(string list, 'w) manager_lib" where
  "once_lib =
     \<lparr>ml_Poll = (\<lambda>i tmo imm c. State (\<lambda>s. case run_state c s of
        (Inr True, s') \<Rightarrow> (None, s') | (_, s') \<Rightarrow> (Some (ErrorString ''timed out waiting for the condition''), s'))),
      ml_NewScheme = [], ml_clientgo_AddToScheme = (\<lambda>s. Inr (''core'' # s)), ml_apisv1alpha1_AddToScheme = Inr, ml_corev1alpha1_AddToScheme = Inr,
      ml_tenancyv1alpha1_AddToScheme = Inr, ml_apiexport_New = (\<lambda>_ _. ret None),
      ml_manager_New = (\<lambda>_ _. ret (Inr \<lparr>im_GetCluster = (\<lambda>_. ret (Inl (ErrorString ''cluster not found''))), im_Start = ret None\<rparr>)),
      ml_Complete = (\<lambda>_ _ _ _. ret None)\<rparr>"


section \<open>What the managers serve\<close>

text \<open>
  Everything that happens to the wiring: the registrar's callbacks, a start function reading the registry, and managers
  returning and being forgotten. A callback is one step although it takes the locks of registry and supervisor one after the other:
  the registrar runs one pass at a time, so only the goroutines' steps can fall between its calls, and these could as well come before or
  after it. (What a start function reads between \<^verbatim>\<open>Set\<close> and \<^verbatim>\<open>Stop\<close> it also reads after the callback; a return or a \<^verbatim>\<open>forget\<close> in
  between has the same effect before it or, once \<^verbatim>\<open>Stop\<close> has run, after it.) A publication is \<open>truthful\<close> if it calls a blueprint unchanged only
  when the registry has no entry for the export or the same one.
\<close>

definition truthful :: "wiring \<Rightarrow> string \<Rightarrow> served_blueprint \<Rightarrow> bool \<Rightarrow> bool" where
  "truthful w n sb changed \<longleftrightarrow> changed \<or> published_Get (wi_registry w) n = None \<or> published_Get (wi_registry w) n = Some sb"

inductive wi_step :: "wiring \<Rightarrow> wiring \<Rightarrow> bool" where
  publishes: "truthful w n \<lparr>sb_graph = g, sb_gvk = k, sb_routing = routing\<rparr> changed \<Longrightarrow>
    wi_step w (OnPublished n k g routing changed w)"
| deletes: "wi_step w (OnDeleted n w)"
| reads: "sv_goroutines (wi_sup w) e = Some p \<Longrightarrow> \<not> go_returned p \<Longrightarrow> wi_serving w e = None \<Longrightarrow>
    published_Get (wi_registry w) (go_export p) = Some sb \<Longrightarrow> wi_step w (w\<lparr>wi_serving := (wi_serving w)(e \<mapsto> sb)\<rparr>)"
| returns: "sv_step (wi_sup w) (EvReturn e err) sv' \<Longrightarrow> wi_step w (w\<lparr>wi_sup := sv'\<rparr>)"
| forgets: "sv_step (wi_sup w) (EvForget e) sv' \<Longrightarrow> wi_step w (w\<lparr>wi_sup := sv'\<rparr>)"

definition wi_init :: wiring where
  "wi_init = \<lparr>wi_registry = Map.empty, wi_sup = New, wi_serving = Map.empty\<rparr>"

inductive wi_reachable :: "wiring \<Rightarrow> bool" where
  start: "wi_reachable wi_init"
| step: "wi_reachable w \<Longrightarrow> wi_step w w' \<Longrightarrow> wi_reachable w'"

definition wi_inv :: "wiring \<Rightarrow> bool" where
  "wi_inv w \<longleftrightarrow> sv_inv (wi_sup w) \<and> (\<forall>e. sv_next (wi_sup w) \<le> e \<longrightarrow> wi_serving w e = None) \<and>
     (\<forall>n e sb. sv_running (wi_sup w) n = Some e \<and> wi_serving w e = Some sb \<longrightarrow> wi_registry w n = Some sb)"

lemma sv_inv_Stop:
  assumes "sv_inv sv"
  shows "sv_inv (Stop n sv)"
proof (cases "sv_running sv n")
  case None
  then show ?thesis using sv_inv_Stop_locked [OF assms] by (simp add: Stop_def)
next
  case (Some e)
  then have "e \<in> set (sv_cancels (Stop_locked n sv))" by (simp add: Stop_locked_def)
  then show ?thesis using sv_inv_cancel [OF sv_inv_Stop_locked [OF assms]] Some by (simp add: Stop_def)
qed

lemma Stop_frame:
  "sv_next (Stop n sv) = sv_next sv" "sv_running (Stop n sv) = (sv_running sv)(n := None)"
  by (auto simp: Stop_def Stop_locked_def cancel_def split: option.splits)

lemma Ensure_frame:
  "sv_next sv \<le> sv_next (Ensure n sv)"
  "sv_running (Ensure n sv) = (if sv_running sv n = None then (sv_running sv)(n \<mapsto> sv_next sv) else sv_running sv)"
  by (auto simp: Ensure_def Let_def split: option.splits)

lemma wi_inv_OnPublished:
  assumes "wi_inv w" and "truthful w n \<lparr>sb_graph = g, sb_gvk = k, sb_routing = routing\<rparr> changed"
  shows "wi_inv (OnPublished n k g routing changed w)"
proof -
  let ?sup = "if changed then Stop n (wi_sup w) else wi_sup w"
  let ?w = "OnPublished n k g routing changed w"
  have sup: "wi_sup ?w = Ensure n ?sup" and ser: "wi_serving ?w = wi_serving w"
    and reg: "wi_registry ?w = (wi_registry w)(n \<mapsto> \<lparr>sb_graph = g, sb_gvk = k, sb_routing = routing\<rparr>)"
    by (simp_all add: OnPublished_def Let_def published_Set_def)
  have inv: "sv_inv ?sup" using assms(1) sv_inv_Stop by (simp add: wi_inv_def)
  have nxt: "sv_next ?sup = sv_next (wi_sup w)" by (simp add: Stop_frame)
  show ?thesis
    unfolding wi_inv_def
  proof (intro conjI allI impI)
    show "sv_inv (wi_sup ?w)" unfolding sup by (rule sv_inv_Ensure [OF inv])
    show "wi_serving ?w e = None" if "sv_next (wi_sup ?w) \<le> e" for e
      using that Ensure_frame(1) [of ?sup n] nxt assms(1) unfolding sup ser by (simp add: wi_inv_def)
    fix m e sb
    assume a: "sv_running (wi_sup ?w) m = Some e \<and> wi_serving ?w e = Some sb"
    have "e \<noteq> sv_next (wi_sup w)" using a assms(1) unfolding ser by (auto simp: wi_inv_def)
    with a have "sv_running ?sup m = Some e" unfolding sup Ensure_frame(2) nxt by (auto split: if_splits)
    then have old: "sv_running (wi_sup w) m = Some e" and "\<not> (changed \<and> m = n)"
      by (auto simp: Stop_frame split: if_splits)
    with a assms show "wi_registry ?w m = Some sb"
      unfolding ser reg by (auto simp: wi_inv_def truthful_def published_Get_def)
  qed
qed

lemma wi_inv_step: "wi_step w w' \<Longrightarrow> wi_inv w \<Longrightarrow> wi_inv w'"
proof (induction rule: wi_step.induct)
  case (publishes w n g k routing changed)
  then show ?case by (blast intro: wi_inv_OnPublished)
next
  case (deletes w n)
  then show ?case
    by (auto simp: OnDeleted_def wi_inv_def sv_inv_Stop Stop_frame published_Delete_def split: if_splits)
next
  case (reads w e p sb)
  then have "e < sv_next (wi_sup w)" using sv_invD(2) by (auto simp: wi_inv_def)
  moreover have "go_export p = n" if "sv_running (wi_sup w) n = Some e" for n
    using that reads sv_invD(1) [of "wi_sup w" n e] by (auto simp: wi_inv_def)
  ultimately show ?case using reads by (auto simp: wi_inv_def published_Get_def)
next
  case (returns w e err sv')
  have "sv_inv sv'" using sv_inv_step [OF returns.hyps] returns.prems by (simp add: wi_inv_def)
  moreover have "sv_running sv' = sv_running (wi_sup w)" "sv_next sv' = sv_next (wi_sup w)"
    using returns.hyps by (auto elim!: sv_stepE simp: start_returns_def split: option.splits)
  ultimately show ?case using returns.prems by (auto simp: wi_inv_def)
next
  case (forgets w e sv')
  have "sv_inv sv'" using sv_inv_step [OF forgets.hyps] forgets.prems by (simp add: wi_inv_def)
  moreover have "sv_running sv' \<subseteq>\<^sub>m sv_running (wi_sup w)" "sv_next sv' = sv_next (wi_sup w)"
    using forgets.hyps by (auto elim!: sv_stepE simp: goroutine_ends_def forget_def map_le_def split: option.splits if_splits)
  ultimately show ?case using forgets.prems by (auto simp: wi_inv_def map_le_def dom_def)
qed

lemma wi_inv_reachable: "wi_reachable w \<Longrightarrow> wi_inv w"
proof (induction rule: wi_reachable.induct)
  case start
  then show ?case by (simp add: wi_inv_def wi_init_def sv_inv_New)
qed (blast intro: wi_inv_step)

text \<open>
  Under truthful publications no tracked manager serves an outdated graph: in every reachable state, what the tracked
  manager of an export read from the registry is what the registry holds for that export, whatever the
  order of publications, withdrawals, restarts, crashes and slow exits.
\<close>

lemma managers_serve_latest:
  assumes "wi_reachable w" and "sv_running (wi_sup w) n = Some e" and "wi_serving w e = Some sb"
  shows "published_Get (wi_registry w) n = Some sb"
  using wi_inv_reachable [OF assms(1)] assms(2,3) by (auto simp: wi_inv_def published_Get_def)

end
