(* ===== verification/Serving.thy ===== *)
theory Serving
  imports Wiring
begin

text \<open>
  The registrar, the registry and the supervisor together: what a pass of the registrar that main
  wires does to the registry of served blueprints and to the running managers. The locale
  \<open>serving\<close> extends \<open>registrar_run\<close> by the wiring inside the world, which only the callbacks touch.
\<close>

section \<open>Calls that leave the wiring alone\<close>

text \<open>Every operation of the client preserves a predicate of the world.\<close>

definition client_keeps :: "('w \<Rightarrow> bool) \<Rightarrow> ('u, 'c, 'k, 'w) kcp_client \<Rightarrow> bool" where
  "client_keeps I c \<longleftrightarrow>
     (\<forall>n. keeps I (kc_get_blueprint c n)) \<and> (\<forall>b. keeps I (kc_update_blueprint c b)) \<and>
     (\<forall>b. keeps I (kc_update_status c b)) \<and> (\<forall>n. keeps I (kc_get_schema c n)) \<and>
     (\<forall>a. keeps I (kc_create_schema c a)) \<and> (\<forall>n. keeps I (kc_delete_schema c n)) \<and>
     keeps I (kc_list_bindings c) \<and> (\<forall>n. keeps I (kc_get_export c n)) \<and>
     (\<forall>fo f u. keeps I (kc_apply c fo f u)) \<and> (\<forall>ex. keeps I (kc_delete_export c ex))"

lemma client_keepsD:
  assumes "client_keeps I c"
  shows "keeps I (kc_get_blueprint c n)" "keeps I (kc_update_blueprint c b)" "keeps I (kc_update_status c b)"
    "keeps I (kc_get_schema c n)" "keeps I (kc_create_schema c a)" "keeps I (kc_delete_schema c n)"
    "keeps I (kc_list_bindings c)" "keeps I (kc_get_export c n)" "keeps I (kc_apply c fo f u)" "keeps I (kc_delete_export c ex)"
  using assms by (simp_all add: client_keeps_def)

lemma keeps_on_world [keeps_intros]: "keeps I m \<Longrightarrow> keeps (\<lambda>s. I (reg_world s)) (on_world m)"
  by (rule keepsI) (auto dest: keepsD split: prod.splits)

lemma keeps_on_cache [keeps_intros]: "keeps (\<lambda>s. I (reg_world s)) (on_cache f)" "keeps (\<lambda>s. I (reg_world s)) get_cache"
  by (rule keepsI, force)+

lemma publishing_keeps:
  assumes "client_keeps I c"
  shows "keeps I (applyARS c a)" "keeps I (identityByGroupResource c)" "keeps I (UpsertAPIExport c n a cls)"
  unfolding applyARS_def identityByGroupResource_def UpsertAPIExport_def
  by (intro keeps_intros client_keepsD [OF assms])+

lemma delete_schemas_keeps: "client_keeps I c \<Longrightarrow> keeps I (delete_schemas c rs)"
  by (induction rs) (auto intro!: keeps_intros dest: client_keepsD)

lemma DeletePublishedAPI_keeps: "client_keeps I c \<Longrightarrow> keeps I (DeletePublishedAPI c n)"
  unfolding DeletePublishedAPI_def by (intro keeps_intros delete_schemas_keeps client_keepsD)

section \<open>Effects of the callbacks\<close>

lemma OnPublished_effect:
  "published_Get (wi_registry (OnPublished ex k g routing ch w)) m =
     (if m = ex then Some \<lparr>sb_graph = g, sb_gvk = k, sb_routing = routing\<rparr> else published_Get (wi_registry w) m)"
  "Running (wi_sup (OnPublished ex k g routing ch w)) m \<longleftrightarrow> m = ex \<or> Running (wi_sup w) m"
  "m \<noteq> ex \<Longrightarrow> sv_running (wi_sup (OnPublished ex k g routing ch w)) m = sv_running (wi_sup w) m"
  "ch \<Longrightarrow> sv_running (wi_sup (OnPublished ex k g routing ch w)) ex = Some (sv_next (wi_sup w))"
  by (auto simp: OnPublished_def Let_def published_defs Running_def Ensure_frame Stop_frame)

lemma OnDeleted_effect:
  assumes "ex \<noteq> ''''"
  shows "published_Get (wi_registry (OnDeleted ex w)) m = (if m = ex then None else published_Get (wi_registry w) m)"
    "sv_running (wi_sup (OnDeleted ex w)) m = (if m = ex then None else sv_running (wi_sup w) m)"
  using assms by (auto simp: OnDeleted_def published_defs Stop_frame)

section \<open>A pass and the wiring\<close>

locale serving =
  registrar_run "main_registrar upd c host newRGD" view lib built
  for upd :: "(wiring \<Rightarrow> wiring) \<Rightarrow> 'w \<Rightarrow> 'w" and c :: "('u, 'c, 'k, 'w) kcp_client" and host :: string
    and newRGD :: "string \<Rightarrow> ('c, 'k) kro_spec \<Rightarrow> build_config \<Rightarrow> ('w, error + graph) state"
    and view :: "'w \<Rightarrow> ('c, 'k) plane" and lib :: "('c, 'k, 'w) rlib"
    and built :: "string \<Rightarrow> ('c, 'k) kro_spec \<Rightarrow> graph \<Rightarrow> bool" +
  fixes wi :: "'w \<Rightarrow> wiring"
  assumes wi_upd: "wi (upd f w) = f (wi w)"
    and client_quiet: "client_keeps (\<lambda>w. wi w = x) c"
    and build_quiet: "keeps (\<lambda>w. wi w = x) (newRGD n ks cfg)"
    and condition_quiet: "keeps (\<lambda>w. wi w = x) (rl_SetStatusCondition lib cs cd)"
begin

abbreviation reg :: "('u, 'c, 'k, 'w) registrar" where
  "reg \<equiv> main_registrar upd c host newRGD"

abbreviation wi_of :: "'w rstate \<Rightarrow> wiring" where
  "wi_of s \<equiv> wi (reg_world s)"

lemma reg_simps [simp]:
  "rg_Client reg = c" "rg_Build reg = EndpointGraphSource_Build newRGD"
  "rg_OnPublished reg = Some (\<lambda>ex k g routing ch. State (\<lambda>w. ((), upd (OnPublished ex k g routing ch) w)))"
  "rg_OnDeleted reg = Some (\<lambda>ex. State (\<lambda>w. ((), upd (OnDeleted ex) w)))"
  by (simp_all add: main_registrar_def)

subsection \<open>What the calls of a pass preserve\<close>

text \<open>\<open>quiet I\<close>: all calls but the writes of blueprints and the callbacks preserve \<open>I\<close>; \<open>fails_quietly I bp\<close>: so does reporting a failure.\<close>

definition quiet :: "('w \<Rightarrow> bool) \<Rightarrow> bool" where
  "quiet I \<longleftrightarrow> (\<forall>n. keeps I (kc_get_blueprint c n)) \<and> (\<forall>n. keeps I (kc_get_export c n)) \<and> (\<forall>a. keeps I (applyARS c a)) \<and>
     keeps I (identityByGroupResource c) \<and> (\<forall>n a cls. keeps I (UpsertAPIExport c n a cls)) \<and> (\<forall>n. keeps I (DeletePublishedAPI c n)) \<and>
     (\<forall>n ks. keeps I (EndpointGraphSource_Build newRGD n ks)) \<and> (\<forall>cs cd. keeps I (rl_SetStatusCondition lib cs cd))"

definition fails_quietly :: "('w \<Rightarrow> bool) \<Rightarrow> ('c, 'k) blueprint \<Rightarrow> bool" where
  "fails_quietly I bp \<longleftrightarrow> (\<forall>cs. keeps I (kc_update_status c (set_conditions bp cs)))"

lemma quietD:
  assumes "quiet I"
  shows "keeps I (kc_get_blueprint c n)" "keeps I (kc_get_export c n)" "keeps I (applyARS c a)" "keeps I (identityByGroupResource c)"
    "keeps I (UpsertAPIExport c n a cls)" "keeps I (DeletePublishedAPI c n)" "keeps I (EndpointGraphSource_Build newRGD n ks)"
    "keeps I (rl_SetStatusCondition lib cs cd)"
  using assms by (simp_all add: quiet_def)

lemma quiet_wi: "quiet (\<lambda>w. wi w = x)" and fails_quietly_wi: "fails_quietly (\<lambda>w. wi w = x) bp"
  unfolding quiet_def fails_quietly_def EndpointGraphSource_Build_def
  by (intro conjI allI client_keepsD [OF client_quiet] publishing_keeps [OF client_quiet]
      DeletePublishedAPI_keeps [OF client_quiet] condition_quiet build_quiet)+

lemma fail_keeps: "quiet I \<Longrightarrow> fails_quietly I bp \<Longrightarrow> keeps (\<lambda>s. I (reg_world s)) (fail lib reg bp rsn e)"
  unfolding fail_def by (simp only: reg_simps) (intro keeps_intros quietD, simp_all add: fails_quietly_def)

lemma compile_keeps: "quiet I \<Longrightarrow> keeps (\<lambda>s. I (reg_world s)) (compile reg cc n h ks)"
  unfolding compile_def reg_simps by (intro keeps_intros quietD)

lemma write_status_wi: "keeps (\<lambda>s. wi_of s = x) (write_status lib reg bp ex h)"
  unfolding write_status_def by (simp only: reg_simps) (intro keeps_intros quietD quiet_wi client_keepsD [OF client_quiet])

lemma release_wi: "keeps (\<lambda>s. wi_of s = x) (release_finalizer reg bp)"
  unfolding release_finalizer_def by (simp only: reg_simps) (intro keeps_intros client_keepsD [OF client_quiet])

lemma ensure_finalizer_wi: "keeps (\<lambda>w. wi w = x) (ensure_finalizer reg bp)"
  unfolding ensure_finalizer_def by (simp only: reg_simps) (intro keeps_intros client_keepsD [OF client_quiet])

subsection \<open>A pass over a live blueprint\<close>

text \<open>
  A pass is settled if it failed and preserved \<open>I\<close>, or if it has announced the blueprint and \<open>A\<close> holds. \<open>ready\<close> is what it has established
  when it announces.
\<close>

definition settled :: "('w \<Rightarrow> bool) \<Rightarrow> (outcome \<Rightarrow> 'w rstate \<Rightarrow> bool) \<Rightarrow> outcome \<Rightarrow> 'w rstate \<Rightarrow> bool" where
  "settled I A out s' \<longleftrightarrow> (I (reg_world s') \<and> (\<forall>d. out \<noteq> Returned d None)) \<or> A out s'"

definition ready :: "('c, 'k) blueprint \<Rightarrow> string \<Rightarrow> graph \<Rightarrow> (string \<rightharpoonup> target) \<Rightarrow> api_resource_schema \<Rightarrow> 'w rstate \<Rightarrow> bool" where
  "ready bp h g routing ars s \<longleftrightarrow> SpecHash (rl_Marshal lib) (bp_spec bp) = Inr h \<and> routes (bp_spec bp) routing \<and>
     compiled_for lib built (bp_name bp) h g \<and> (\<exists>ars0. BuildARS (rl_toARS lib) g h = Inr ars0 \<and> same_schema ars ars0) \<and>
     pl_exports (plane_of s) (export_name ars) \<noteq> None"

abbreviation announces :: "('c, 'k) blueprint \<Rightarrow> string \<Rightarrow> graph \<Rightarrow> (string \<rightharpoonup> target) \<Rightarrow> api_resource_schema \<Rightarrow> ('w rstate, outcome) state" where
  "announces bp h g routing ars \<equiv> announce lib reg bp h (bs_ObservedSpecHash (bp_status bp) \<noteq> h) g routing ars (export_name ars)"

lemma wp_or_fail:
  assumes "quiet I" and "fails_quietly I bp" and "I (reg_world s)" and "keeps (\<lambda>s. I (reg_world s)) m"
    and "\<And>a s1. run_state m s = (Inr a, s1) \<Longrightarrow> I (reg_world s1) \<Longrightarrow> wp (k a) (settled I A) s1"
  shows "wp (or_fail lib reg bp rsn m k) (settled I A) s"
proof (rule wpI)
  fix out s'
  assume "run_state (or_fail lib reg bp rsn m k) s = (out, s')"
  then show "settled I A out s'"
  proof (cases rule: or_failE)
    case (failed e s1)
    have "I (reg_world s1)" using keepsD [OF assms(4,3) failed(1)] .
    from keepsD [OF fail_keeps [OF assms(1,2)] this failed(2)] fail_run(1) [OF failed(2)] show ?thesis by (simp add: settled_def)
  next
    case (passed a s1)
    have "I (reg_world s1)" using keepsD [OF assms(4,3) passed(1)] .
    from wpD [OF assms(5) [OF passed(1) this] passed(2)] show ?thesis .
  qed
qed

lemma publish_graph_settled:
  assumes "quiet I" and "fails_quietly I bp" and "I (reg_world s)" and "SpecHash (rl_Marshal lib) (bp_spec bp) = Inr h"
    and "routes (bp_spec bp) routing" and "compiled_for lib built (bp_name bp) h g"
    and "\<And>ars s. ready bp h g routing ars s \<Longrightarrow> I (reg_world s) \<Longrightarrow> wp (announces bp h g routing ars) (settled I A) s"
  shows "wp (publish_graph lib reg bp h (bs_ObservedSpecHash (bp_status bp) \<noteq> h) g routing) (settled I A) s"
  unfolding publish_graph_def reg_simps
proof (rule wp_or_fail [OF assms(1-3)], intro keeps_intros, goal_cases)
  case (1 ars0 s1)
  then have ars0: "BuildARS (rl_toARS lib) g h = Inr ars0" by simp
  show ?case
  proof (rule wp_or_fail [OF assms(1,2) 1(2)], intro keeps_intros quietD [OF assms(1)], goal_cases)
    case (1 ars s2)
    from 1(1) obtain w where "run_state (applyARS c ars0) (reg_world s1) = (Inr ars, w)" by (rule on_worldE)
    then have ars: "same_schema ars ars0" using applyARS_ok [unfolded reg_simps] by blast
    show ?case
    proof (rule wp_or_fail [OF assms(1,2) 1(2)], intro keeps_intros quietD [OF assms(1)], goal_cases)
      case (1 identity s3)
      show ?case
      proof (cases "published_claims g routing identity")
        case None
        then show ?thesis using 1(2) by (simp add: settled_def)
      next
        case (Some claims)
        have "wp (or_fail lib reg bp ''ClaimIdentityUnresolved'' (ret (as_result (validateClaims claims)))
            (\<lambda>_. let exportName = export_name ars in or_fail lib reg bp ''PublishFailed''
               (do { e \<leftarrow> on_world (UpsertAPIExport c exportName ars claims); ret (as_result e) })
               (\<lambda>_. announce lib reg bp h (bs_ObservedSpecHash (bp_status bp) \<noteq> h) g routing ars exportName))) (settled I A) s3"
          unfolding Let_def
        proof (rule wp_or_fail [OF assms(1,2) 1(2)], intro keeps_intros, goal_cases)
          case (1 u s4)
          show ?case
          proof (rule wp_or_fail [OF assms(1,2) 1(2)], intro keeps_intros quietD [OF assms(1)], goal_cases)
            case (1 u s5)
            then have u: "run_state (UpsertAPIExport c (export_name ars) ars claims) (reg_world s4) = (None, reg_world s5)"
              by (auto split: prod.splits option.splits simp: as_result_def)
            have "ready bp h g routing ars s5"
              using UpsertAPIExport_ok [unfolded reg_simps, OF u] assms(4-6) ars0 ars by (auto simp: ready_def)
            then show ?case using assms(7) 1(2) by blast
          qed
        qed
        then show ?thesis by (simp only: Some option.case)
      qed
    qed
  qed
qed

lemma publish_settled:
  assumes "quiet I" and "fails_quietly I bp" and "I (reg_world s)" and "CHR ''|'' \<notin> set (bp_name bp)"
    and "coherent lib built (rg_Workspace reg) s"
    and "\<And>h g routing ars s. ready bp h g routing ars s \<Longrightarrow> I (reg_world s) \<Longrightarrow> wp (announces bp h g routing ars) (settled I A) s"
  shows "wp (publish lib reg bp) (settled I A) s"
  unfolding publish_def
proof (rule wp_or_fail [OF assms(1-3)], intro keeps_intros, goal_cases)
  case (1 h s0)
  then have h: "SpecHash (rl_Marshal lib) (bp_spec bp) = Inr h" and s0: "s0 = s" by simp_all
  obtain ks raw where tk: "ToKro (bp_spec bp) = (ks, raw)" by fastforce
  show ?case
  proof (cases "reg_cache s")
    case None
    then show ?thesis using assms(3) s0 by (simp add: tk wp_def settled_def)
  next
    case (Some cc)
    have "wp (or_fail lib reg bp ''BuildFailed'' (compile reg cc (bp_name bp) h ks) (\<lambda>g.
        or_fail lib reg bp ''InvalidTarget'' (ret (parse_routing raw (rl_range lib (routed_ids (bp_spec bp))) Map.empty)) (\<lambda>routing.
        publish_graph lib reg bp h (bs_ObservedSpecHash (bp_status bp) \<noteq> h) g routing))) (settled I A) s"
    proof (rule wp_or_fail [OF assms(1-3)], rule compile_keeps [OF assms(1)], goal_cases)
      case (1 g s1)
      have g: "compiled_for lib built (bp_name bp) h g"
        using compile_coherent(2) [of cc "bp_name bp" h "bp_spec bp" s] 1(1) tk Some h assms(4,5) by simp
      show ?case
      proof (rule wp_or_fail [OF assms(1,2) 1(2)], intro keeps_intros, goal_cases)
        case (1 routing s2)
        then have "routes (bp_spec bp) routing"
          using parse_routing_routes [OF _ range_set, of "bp_spec bp" routing] tk by simp
        from publish_graph_settled [OF assms(1,2) 1(2) h this g assms(6)] show ?case .
      qed
    qed
    then show ?thesis using Some tk s0 by (simp add: wp_def)
  qed
qed

lemma ensure_finalizer_same:
  assumes "run_state (ensure_finalizer reg bp) w = (Inr b, w')"
  shows "bp_name b = bp_name bp" "bp_spec b = bp_spec bp" "blueprintFinalizer \<in> set (bp_finalizers bp) \<Longrightarrow> b = bp \<and> w' = w"
    "blueprintFinalizer \<notin> set (bp_finalizers bp) \<Longrightarrow>
      run_state (kc_update_blueprint c (bp\<lparr>bp_finalizers := bp_finalizers bp @ [blueprintFinalizer]\<rparr>)) w = (Inr b, w')"
  using assms update_blueprint_ok [unfolded reg_simps]
  by (auto simp: ensure_finalizer_def split: if_splits)

text \<open>The pass up to the publication: the blueprint that is published is the stored one, with the finalizer.\<close>

lemma Reconcile_settled:
  assumes "run_state (Registrar_Reconcile lib reg n) s = (out, s')" and "pl_blueprints (plane_of s) n = Some bp"
    and "bp_deletionTimestamp bp = None" and "CHR ''|'' \<notin> set n" and "coherent lib built (rg_Workspace reg) s"
    and "quiet I" and "I (reg_world s)"
    and "\<And>w x w'. I w \<Longrightarrow> view w = plane_of s \<Longrightarrow> run_state (ensure_finalizer reg bp) w = (x, w') \<Longrightarrow> I w'"
    and "\<And>w b w'. I w \<Longrightarrow> view w = plane_of s \<Longrightarrow> run_state (ensure_finalizer reg bp) w = (Inr b, w') \<Longrightarrow>
      fails_quietly I b \<and> (\<forall>h g routing ars s. ready b h g routing ars s \<longrightarrow> I (reg_world s) \<longrightarrow> wp (announces b h g routing ars) (settled I A) s)"
  shows "settled I A out s'"
proof -
  have nm: "bp_name bp = n" using blueprint_key assms(2) .
  obtain got w1 where g: "run_state (kc_get_blueprint c n) (reg_world s) = (got, w1)" by fastforce
  have i1: "I w1" using keepsD [OF quietD(1) [OF assms(6)] assms(7) g] .
  have v1: "view w1 = plane_of s" using get_blueprint_frame [unfolded reg_simps, OF g] .
  show ?thesis
  proof (cases got)
    case (Inl e)
    have "\<not> IsNotFound e" using get_blueprint_missing [unfolded reg_simps, of n "reg_world s" e w1] g Inl assms(2) by auto
    then show ?thesis using assms(1) g Inl i1 by (auto simp: Registrar_Reconcile_def IgnoreNotFound_def settled_def)
  next
    case (Inr b)
    have b: "b = bp" using get_blueprint_found [unfolded reg_simps, of n "reg_world s" b w1] g Inr assms(2) by simp
    obtain fin w2 where f: "run_state (ensure_finalizer reg bp) w1 = (fin, w2)" by fastforce
    have i2: "I w2" using assms(8) [OF i1 v1 f] .
    have run: "(case fin of Inl e \<Rightarrow> (Returned 0 (Some (Wrapped ''adding blueprint finalizer: '' e)), s\<lparr>reg_world := w2\<rparr>)
        | Inr bp' \<Rightarrow> run_state (publish lib reg bp') (s\<lparr>reg_world := w2\<rparr>)) = (out, s')"
      using assms(1,3) g Inr b f by (simp add: Registrar_Reconcile_def split: sum.splits)
    show ?thesis
    proof (cases fin)
      case (Inl e)
      then show ?thesis using run i2 by (auto simp: settled_def)
    next
      case (Inr bp')
      note b' = assms(9) [OF i1 v1 f [unfolded Inr]]
      have "bp_name bp' = n" using ensure_finalizer_same [OF f [unfolded Inr]] nm by simp
      then have "wp (publish lib reg bp') (settled I A) (s\<lparr>reg_world := w2\<rparr>)"
        by (intro publish_settled) (use b' assms(4-6) i2 in \<open>simp_all add: coherent_def\<close>)
      then show ?thesis using run Inr by (simp add: wp_def)
    qed
  qed
qed

text \<open>What an announcement of the graph \<open>g\<close> with hash \<open>h\<close> does to the wiring \<open>x\<close>.\<close>

definition announced :: "('c, 'k) blueprint \<Rightarrow> wiring \<Rightarrow> outcome \<Rightarrow> 'w rstate \<Rightarrow> string \<Rightarrow> graph \<Rightarrow> (string \<rightharpoonup> target) \<Rightarrow>
    api_resource_schema \<Rightarrow> bool" where
  "announced bp x out s' h g routing ars \<longleftrightarrow>
     SpecHash (rl_Marshal lib) (bp_spec bp) = Inr h \<and> routes (bp_spec bp) routing \<and>
     compiled_for lib built (bp_name bp) h g \<and> BuildARS (rl_toARS lib) g h = Inr ars \<and>
     (\<exists>v vs. crd_version_names g = v # vs \<and>
        wi_of s' = OnPublished (export_name ars) (GVK (ars_group ars) v (ars_kind ars)) g routing (bs_ObservedSpecHash (bp_status bp) \<noteq> h) x) \<and>
     pl_exports (plane_of s') (export_name ars) \<noteq> None \<and>
     (\<forall>d. out = Returned d None \<longrightarrow> shows_published (plane_of s') (bp_name bp) (export_name ars) h)"

lemma announced_cases:
  assumes "run_state (announces bp h g routing ars) s = (out, s')" and "ready bp h g routing ars s" and "wi_of s = x"
  obtains (panicked) "out = Panicked" "s' = s"
    | (announced) ars0 s1 where "announced bp x out s' h g routing ars0" "plane_of s1 = plane_of s"
        "run_state (write_status lib reg bp (export_name ars0) h) s1 = (out, s')"
proof (cases "crd_version_names g")
  case Nil
  with assms(1) show thesis by (intro panicked) (simp_all add: announce_def)
next
  case (Cons v vs)
  let ?ch = "bs_ObservedSpecHash (bp_status bp) \<noteq> h"
  obtain ars0 where b: "BuildARS (rl_toARS lib) g h = Inr ars0" "same_schema ars ars0" using assms(2) by (auto simp: ready_def)
  then have ex: "export_name ars = export_name ars0" by (simp add: same_schema_def)
  let ?f = "OnPublished (export_name ars) (GVK (ars_group ars) v (ars_kind ars)) g routing ?ch"
  let ?s = "s\<lparr>reg_world := upd ?f (reg_world s)\<rparr>"
  have w: "run_state (write_status lib reg bp (export_name ars) h) ?s = (out, s')"
    using assms(1) Cons by (simp add: announce_def)
  have "wi_of ?s = ?f x" using wi_upd assms(3) by simp
  then have "wi_of s' = ?f x" using keepsD [OF write_status_wi _ w] by blast
  moreover have "pl_exports (plane_of s') (export_name ars) \<noteq> None"
    using announce_run(2) [OF assms(1)] assms(2) by (simp add: same_but_status_def ready_def)
  moreover have "shows_published (plane_of s') (bp_name bp) (export_name ars) h" if "out = Returned d None" for d
    using announce_run(3) [OF assms(1) that] by blast
  ultimately have "announced bp x out s' h g routing ars0"
    using assms(2) b Cons unfolding announced_def by (simp add: ready_def same_schema_def)
  moreover have "view (upd ?f (reg_world s)) = plane_of s" using published_frame [of _ "export_name ars"] by simp
  ultimately show thesis by (intro announced [of ars0 ?s]) (use w ex in simp_all)
qed

lemma Reconcile_announces_run:
  assumes "run_state (Registrar_Reconcile lib reg n) s = (out, s')" and "pl_blueprints (plane_of s) n = Some bp"
    and "bp_deletionTimestamp bp = None" and "CHR ''|'' \<notin> set n" and "coherent lib built (rg_Workspace reg) s"
  shows "(wi_of s' = wi_of s \<and> (\<forall>d. out \<noteq> Returned d None)) \<or>
    (\<exists>h g routing ars v vs. SpecHash (rl_Marshal lib) (bp_spec bp) = Inr h \<and> routes (bp_spec bp) routing \<and>
       compiled_for lib built n h g \<and> BuildARS (rl_toARS lib) g h = Inr ars \<and> crd_version_names g = v # vs \<and>
       pl_exports (plane_of s') (export_name ars) \<noteq> None \<and>
       (\<forall>d. out = Returned d None \<longrightarrow> shows_published (plane_of s') n (export_name ars) h) \<and>
       published_Get (wi_registry (wi_of s')) (export_name ars) =
         Some \<lparr>sb_graph = g, sb_gvk = GVK (ars_group ars) v (ars_kind ars), sb_routing = routing\<rparr> \<and>
       Running (wi_sup (wi_of s')) (export_name ars) \<and>
       (blueprintFinalizer \<in> set (bp_finalizers bp) \<and> bs_ObservedSpecHash (bp_status bp) \<noteq> h \<longrightarrow>
          sv_running (wi_sup (wi_of s')) (export_name ars) = Some (sv_next (wi_sup (wi_of s)))) \<and>
       (\<forall>m. m \<noteq> export_name ars \<longrightarrow> published_Get (wi_registry (wi_of s')) m = published_Get (wi_registry (wi_of s)) m \<and>
          sv_running (wi_sup (wi_of s')) m = sv_running (wi_sup (wi_of s)) m))"
proof -
  let ?I = "\<lambda>w. wi w = wi_of s"
  define A where "A out s' \<longleftrightarrow> (\<exists>b. bp_name b = n \<and> bp_spec b = bp_spec bp \<and>
    (blueprintFinalizer \<in> set (bp_finalizers bp) \<longrightarrow> b = bp) \<and> (\<exists>h g routing ars. announced b (wi_of s) out s' h g routing ars))" for out s'
  have nm: "bp_name bp = n" using blueprint_key assms(2) .
  have "settled ?I A out s'"
  proof (rule Reconcile_settled [OF assms quiet_wi refl], goal_cases)
    case (1 w x w')
    then show ?case using keepsD [OF ensure_finalizer_wi] by blast
  next
    case (2 w b w')
    have "settled ?I A o' t'" if "ready b h g routing ars t" "wi_of t = wi_of s" "run_state (announces b h g routing ars) t = (o', t')"
      for h g routing ars t o' t'
      using that(3,1,2)
    proof (cases rule: announced_cases)
      case panicked
      then show ?thesis using that(2) by (simp add: settled_def)
    next
      case (announced ars0 s1)
      have "bp_name b = n" "bp_spec b = bp_spec bp" "blueprintFinalizer \<in> set (bp_finalizers bp) \<longrightarrow> b = bp"
        using ensure_finalizer_same [OF 2(3)] nm by simp_all
      then have "A o' t'" using announced(1) unfolding A_def by blast
      then show ?thesis by (simp add: settled_def)
    qed
    then show ?case using fails_quietly_wi by (blast intro: wpI)
  qed
  then consider "wi_of s' = wi_of s" "\<forall>d. out \<noteq> Returned d None" | "A out s'" by (auto simp: settled_def)
  then show ?thesis
  proof cases
    case 2
    then obtain b where b: "bp_name b = n" "bp_spec b = bp_spec bp" "blueprintFinalizer \<in> set (bp_finalizers bp) \<longrightarrow> b = bp"
      and "\<exists>h g routing ars. announced b (wi_of s) out s' h g routing ars" unfolding A_def by blast
    then obtain h g routing ars v vs where a: "SpecHash (rl_Marshal lib) (bp_spec b) = Inr h" "routes (bp_spec b) routing"
      "compiled_for lib built (bp_name b) h g" "BuildARS (rl_toARS lib) g h = Inr ars" "crd_version_names g = v # vs"
      "wi_of s' = OnPublished (export_name ars) (GVK (ars_group ars) v (ars_kind ars)) g routing (bs_ObservedSpecHash (bp_status b) \<noteq> h) (wi_of s)"
      "pl_exports (plane_of s') (export_name ars) \<noteq> None"
      "\<forall>d. out = Returned d None \<longrightarrow> shows_published (plane_of s') (bp_name b) (export_name ars) h"
      unfolding announced_def by blast
    show ?thesis
      by (rule disjI2, rule exI [of _ h], rule exI [of _ g], rule exI [of _ routing], rule exI [of _ ars], rule exI [of _ v], rule exI [of _ vs])
        (use a b in \<open>simp add: OnPublished_effect\<close>)
  qed blast
qed

subsection \<open>Withdrawal\<close>

lemma withdraw_effect:
  assumes "run_state (withdraw reg bp) s = (out, s')" and "blueprintFinalizer \<in> set (bp_finalizers bp)"
    and "bs_ExportedAPI (bp_status bp) = ex" and "ex \<noteq> ''''"
  shows "(wi_of s' = wi_of s \<and> pl_blueprints (plane_of s') = pl_blueprints (plane_of s) \<and> out \<noteq> Returned 0 None) \<or>
    (wi_of s' = OnDeleted ex (wi_of s) \<and> pl_exports (plane_of s') ex = None)"
proof -
  obtain err w where d: "run_state (DeletePublishedAPI c ex) (reg_world s) = (err, w)" by fastforce
  have wi1: "wi w = wi_of s" using keepsD [OF DeletePublishedAPI_keeps [OF client_quiet] refl d] .
  show ?thesis
  proof (cases err)
    case (Some e)
    have "pl_blueprints (view w) = pl_blueprints (plane_of s)"
      using DeletePublishedAPI_frame [unfolded reg_simps, OF d] by simp
    then show ?thesis using assms d Some wi1 by (auto simp: withdraw_def Let_def)
  next
    case None
    let ?s = "s\<lparr>reg_cache := map_option (\<lambda>x. Cache_Delete x (rg_Workspace reg) (bp_name bp)) (reg_cache s), reg_world := upd (OnDeleted ex) w\<rparr>"
    have rel: "run_state (release_finalizer reg bp) ?s = (out, s')"
      using assms d None by (simp add: withdraw_def Let_def)
    have "wi_of ?s = OnDeleted ex (wi_of s)" using wi_upd wi1 by simp
    then have "wi_of s' = OnDeleted ex (wi_of s)" using keepsD [OF release_wi _ rel] by blast
    moreover have "view (upd (OnDeleted ex) w) = view w" using deleted_frame [of _ ex w] by simp
    moreover have "pl_exports (plane_of s') = pl_exports (plane_of ?s)"
      using rel update_blueprint_frame [unfolded reg_simps]
      by (auto simp: release_finalizer_def split: sum.splits prod.splits)
    ultimately show ?thesis using DeletePublishedAPI_ok(1) [unfolded reg_simps, OF d [unfolded None]] by simp
  qed
qed

lemma Reconcile_unserves_run:
  assumes "run_state (Registrar_Reconcile lib reg n) s = (out, s')" and "pl_blueprints (plane_of s) n = Some bp"
    and "bp_deletionTimestamp bp \<noteq> None" and "blueprintFinalizer \<in> set (bp_finalizers bp)"
    and "bs_ExportedAPI (bp_status bp) = ex" and "ex \<noteq> ''''"
  shows "(wi_of s' = wi_of s \<and> \<not> released (plane_of s') n \<and> out \<noteq> Returned 0 None) \<or>
    (pl_exports (plane_of s') ex = None \<and> \<not> Running (wi_sup (wi_of s')) ex \<and>
     published_Get (wi_registry (wi_of s')) ex = None \<and>
     (\<forall>m. m \<noteq> ex \<longrightarrow> published_Get (wi_registry (wi_of s')) m = published_Get (wi_registry (wi_of s)) m \<and>
        sv_running (wi_sup (wi_of s')) m = sv_running (wi_sup (wi_of s)) m))"
proof -
  obtain got w1 where g: "run_state (kc_get_blueprint c n) (reg_world s) = (got, w1)" by fastforce
  have wi1: "wi w1 = wi_of s" using keepsD [OF client_keepsD(1) [OF client_quiet] refl g] .
  have v1: "view w1 = plane_of s" using get_blueprint_frame [unfolded reg_simps, OF g] .
  show ?thesis
  proof (cases got)
    case (Inl e)
    have "\<not> IsNotFound e" using get_blueprint_missing [unfolded reg_simps, of n "reg_world s" e w1] g Inl assms(2) by auto
    then have "out = Returned 0 (Some e)" "s' = s\<lparr>reg_world := w1\<rparr>"
      using assms(1) g Inl by (auto simp: Registrar_Reconcile_def IgnoreNotFound_def)
    then show ?thesis using wi1 v1 assms(2,4) by (auto simp: released_def)
  next
    case (Inr b)
    have "b = bp" using get_blueprint_found [unfolded reg_simps, of n "reg_world s" b w1] g Inr assms(2) by simp
    then have "run_state (withdraw reg bp) (s\<lparr>reg_world := w1\<rparr>) = (out, s')"
      using assms(1,3) g Inr by (simp add: Registrar_Reconcile_def)
    from withdraw_effect [OF this assms(4-6)] show ?thesis
      using wi1 v1 assms(2,4,6) by (auto simp: released_def Running_def OnDeleted_effect)
  qed
qed

end


section \<open>Publication and serving\<close>

text \<open>
  C9. What is published is served. Whatever happens in a pass of the wired registrar over a live blueprint, either the registry and the
  managers are untouched, and then the pass reports a failure, or they are told of exactly this publication: the export exists, the
  registry holds the graph compiled for the blueprint with the kind of its API and the routing its resources name, a manager runs for the export,
  a fresh one if the spec hash differs from the one in the status, and no other export is affected. The status
  names that very export and hash if the pass succeeds.
\<close>

theorem Registrar_serves:
  assumes "serving upd c host newRGD view lib built wi"
    and "run_state (Registrar_Reconcile lib (main_registrar upd c host newRGD) n) s = (out, s')"
    and "pl_blueprints (view (reg_world s)) n = Some bp" and "bp_deletionTimestamp bp = None"
    and "CHR ''|'' \<notin> set n" and "coherent lib built (rg_Workspace (main_registrar upd c host newRGD)) s"
  shows "(wi (reg_world s') = wi (reg_world s) \<and> (\<forall>d. out \<noteq> Returned d None)) \<or>
    (\<exists>h g routing ars v vs. SpecHash (rl_Marshal lib) (bp_spec bp) = Inr h \<and> routes (bp_spec bp) routing \<and>
       compiled_for lib built n h g \<and> BuildARS (rl_toARS lib) g h = Inr ars \<and> crd_version_names g = v # vs \<and>
       pl_exports (view (reg_world s')) (export_name ars) \<noteq> None \<and>
       (\<forall>d. out = Returned d None \<longrightarrow> shows_published (view (reg_world s')) n (export_name ars) h) \<and>
       published_Get (wi_registry (wi (reg_world s'))) (export_name ars) =
         Some \<lparr>sb_graph = g, sb_gvk = GVK (ars_group ars) v (ars_kind ars), sb_routing = routing\<rparr> \<and>
       Running (wi_sup (wi (reg_world s'))) (export_name ars) \<and>
       (blueprintFinalizer \<in> set (bp_finalizers bp) \<and> bs_ObservedSpecHash (bp_status bp) \<noteq> h \<longrightarrow>
          sv_running (wi_sup (wi (reg_world s'))) (export_name ars) = Some (sv_next (wi_sup (wi (reg_world s))))) \<and>
       (\<forall>m. m \<noteq> export_name ars \<longrightarrow> published_Get (wi_registry (wi (reg_world s'))) m = published_Get (wi_registry (wi (reg_world s))) m \<and>
          sv_running (wi_sup (wi (reg_world s'))) m = sv_running (wi_sup (wi (reg_world s))) m))"
  by (rule serving.Reconcile_announces_run [OF assms])

text \<open>
  C14. What is withdrawn is no longer served. A pass of the wired registrar over a deleted blueprint with an export either leaves the
  registry and the managers alone, and then it fails and the blueprint keeps the finalizer, so a retry follows, or the export is
  gone, its manager is stopped, its registry entry is deleted and no other export is affected.
\<close>

theorem Registrar_unserves:
  assumes "serving upd c host newRGD view lib built wi"
    and "run_state (Registrar_Reconcile lib (main_registrar upd c host newRGD) n) s = (out, s')"
    and "pl_blueprints (view (reg_world s)) n = Some bp" and "bp_deletionTimestamp bp \<noteq> None"
    and "blueprintFinalizer \<in> set (bp_finalizers bp)" and "bs_ExportedAPI (bp_status bp) = ex" and "ex \<noteq> ''''"
  shows "(wi (reg_world s') = wi (reg_world s) \<and> \<not> released (view (reg_world s')) n \<and> out \<noteq> Returned 0 None) \<or>
    (pl_exports (view (reg_world s')) ex = None \<and> \<not> Running (wi_sup (wi (reg_world s'))) ex \<and>
     published_Get (wi_registry (wi (reg_world s'))) ex = None \<and>
     (\<forall>m. m \<noteq> ex \<longrightarrow> published_Get (wi_registry (wi (reg_world s'))) m = published_Get (wi_registry (wi (reg_world s))) m \<and>
        sv_running (wi_sup (wi (reg_world s'))) m = sv_running (wi_sup (wi (reg_world s))) m))"
  by (rule serving.Reconcile_unserves_run [OF assms])

end
