(* ===== verification/Freshness.thy ===== *)
theory Freshness
  imports Serving
begin

text \<open>
  When no manager serves an outdated graph. The registrar tells the supervisor to restart a manager by comparing the spec hash with the one in
  the blueprint's status. This theory composes the registrar's passes with edits of blueprints and with the managers and shows that the
  comparison is right as long as no pass loses its status update after it has announced a publication and the builder's input
  other than the spec does not change: then every tracked
  manager serves what the registry holds, which is what the hash in the status stands for. (Without that proviso it fails; the theory
  \<open>Demo\<close> has the history.)
\<close>

section \<open>What a published hash stands for\<close>

text \<open>
  \<open>serves_api lib built n h sb ex\<close>: the blueprint \<open>n\<close> with a spec of hash \<open>h\<close> is served by \<open>sb\<close> under the export \<open>ex\<close>.
  \<open>within S lib\<close> is the library with the encoder restricted to the specs of \<open>S\<close>.
\<close>

definition serves_api :: "('c, 'k, 'w) rlib \<Rightarrow> (string \<Rightarrow> ('c, 'k) kro_spec \<Rightarrow> graph \<Rightarrow> bool) \<Rightarrow> string \<Rightarrow> string \<Rightarrow>
    served_blueprint \<Rightarrow> string \<Rightarrow> bool" where
  "serves_api lib built n h sb ex \<longleftrightarrow>
     (\<exists>spec g routing ars v vs. SpecHash (rl_Marshal lib) spec = Inr h \<and> built n (fst (ToKro spec)) g \<and> routes spec routing \<and>
        BuildARS (rl_toARS lib) g h = Inr ars \<and> crd_version_names g = v # vs \<and> ex = export_name ars \<and>
        sb = \<lparr>sb_graph = g, sb_gvk = GVK (ars_group ars) v (ars_kind ars), sb_routing = routing\<rparr>)"

definition within :: "('c, 'k) rgd_spec set \<Rightarrow> ('c, 'k, 'w) rlib \<Rightarrow> ('c, 'k, 'w) rlib" where
  "within S lib = lib\<lparr>rl_Marshal := (\<lambda>spec. if spec \<in> S then rl_Marshal lib spec else Inl (ErrorString ''spec not considered''))\<rparr>"

lemma within_simps [simp]:
  "rl_toARS (within S lib) = rl_toARS lib" "rl_SetStatusCondition (within S lib) = rl_SetStatusCondition lib"
  "rl_range (within S lib) = rl_range lib"
  "spec \<in> S \<Longrightarrow> SpecHash (rl_Marshal (within S lib)) spec = SpecHash (rl_Marshal lib) spec"
  by (simp_all add: within_def SpecHash_def)

lemma fail_within [simp]: "fail (within S lib) = fail lib"
  by (intro ext) (simp add: fail_def)

lemma or_fail_within [simp]: "or_fail (within S lib) = or_fail lib"
  by (intro ext) (unfold or_fail_def fail_within, rule refl)

lemma write_status_within [simp]: "write_status (within S lib) = write_status lib"
  by (intro ext) (simp add: write_status_def)

lemma announce_within [simp]: "announce (within S lib) = announce lib"
  by (intro ext) (unfold announce_def write_status_within, rule refl)

lemma publish_graph_within [simp]: "publish_graph (within S lib) = publish_graph lib"
  by (intro ext) (unfold publish_graph_def or_fail_within announce_within within_simps, rule refl)

lemma publish_within: "bp_spec bp \<in> S \<Longrightarrow> publish (within S lib) r bp = publish lib r bp"
  unfolding publish_def or_fail_within publish_graph_within by simp

text \<open>
  The builder resolves the templates against the discovery and OpenAPI data its workspace serves at the time. \<open>only_in D newRGD\<close> is
  the builder restricted to worlds in which these data satisfy \<open>D\<close>. Nothing else of a pass depends on the builder.
\<close>

definition only_in :: "('w \<Rightarrow> bool) \<Rightarrow> (string \<Rightarrow> ('c, 'k) kro_spec \<Rightarrow> build_config \<Rightarrow> ('w, error + graph) state) \<Rightarrow>
    string \<Rightarrow> ('c, 'k) kro_spec \<Rightarrow> build_config \<Rightarrow> ('w, error + graph) state" where
  "only_in D newRGD n ks cfg =
     State (\<lambda>w. if D w then run_state (newRGD n ks cfg) w else (Inl (ErrorString ''discovery data not considered''), w))"

lemma only_in_True [simp]: "only_in (\<lambda>_. True) newRGD = newRGD"
  by (intro ext) (simp add: only_in_def)

lemma only_in_fields [simp]:
  "rg_Client (main_registrar upd c host (only_in D b)) = rg_Client (main_registrar upd c host b)"
  "rg_Workspace (main_registrar upd c host (only_in D b)) = rg_Workspace (main_registrar upd c host b)"
  "rg_OnPublished (main_registrar upd c host (only_in D b)) = rg_OnPublished (main_registrar upd c host b)"
  "rg_OnDeleted (main_registrar upd c host (only_in D b)) = rg_OnDeleted (main_registrar upd c host b)"
  by (simp_all add: main_registrar_def)

lemma fail_only_in [simp]: "fail lib (main_registrar upd c host (only_in D b)) = fail lib (main_registrar upd c host b)"
  by (intro ext) (simp add: fail_def)

lemma or_fail_only_in [simp]: "or_fail lib (main_registrar upd c host (only_in D b)) = or_fail lib (main_registrar upd c host b)"
  by (intro ext) (unfold or_fail_def fail_only_in, rule refl)

lemma write_status_only_in [simp]:
  "write_status lib (main_registrar upd c host (only_in D b)) = write_status lib (main_registrar upd c host b)"
  by (intro ext) (simp add: write_status_def)

lemma announce_only_in [simp]: "announce lib (main_registrar upd c host (only_in D b)) = announce lib (main_registrar upd c host b)"
  by (intro ext) (unfold announce_def write_status_only_in only_in_fields, rule refl)

lemma publish_graph_only_in [simp]:
  "publish_graph lib (main_registrar upd c host (only_in D b)) = publish_graph lib (main_registrar upd c host b)"
  by (intro ext) (unfold publish_graph_def or_fail_only_in announce_only_in only_in_fields, rule refl)

lemma ensure_finalizer_only_in [simp]:
  "ensure_finalizer (main_registrar upd c host (only_in D b)) = ensure_finalizer (main_registrar upd c host b)"
  by (intro ext) (simp add: ensure_finalizer_def)

lemma withdraw_only_in [simp]: "withdraw (main_registrar upd c host (only_in D b)) = withdraw (main_registrar upd c host b)"
  by (intro ext) (unfold withdraw_def release_finalizer_def only_in_fields, rule refl)

lemma compile_only_in:
  assumes "D (reg_world s)"
  shows "run_state (compile (main_registrar upd c host (only_in D b)) ca n h ks) s = run_state (compile (main_registrar upd c host b) ca n h ks) s"
proof -
  have "run_state (on_world (rg_Build (main_registrar upd c host (only_in D b)) n ks)) s =
      run_state (on_world (rg_Build (main_registrar upd c host b) n ks)) s"
    using assms by (simp add: on_world_def main_registrar_def EndpointGraphSource_Build_def only_in_def)
  then show ?thesis by (simp add: compile_def split: option.split)
qed

lemma publish_only_in:
  assumes "D (reg_world s)"
  shows "run_state (publish lib (main_registrar upd c host (only_in D b)) bp) s = run_state (publish lib (main_registrar upd c host b) bp) s"
  using assms by (simp add: publish_def or_fail_def get_cache_def compile_only_in Let_def split: sum.split option.split prod.split)

abbreviation observed :: "('c, 'k) blueprint \<Rightarrow> string" where
  "observed b \<equiv> bs_ObservedSpecHash (bp_status b)"

text \<open>
  \<open>kept X p0 p\<close>: the blueprints of \<open>p\<close> were there in \<open>p0\<close> with the same spec and the same observed hash, except for the
  hashes \<open>X\<close> lists.
\<close>

definition kept :: "(string \<times> string) set \<Rightarrow> (string \<rightharpoonup> ('c, 'k) blueprint) \<Rightarrow> ('c, 'k) plane \<Rightarrow> bool" where
  "kept X p0 p \<longleftrightarrow> (\<forall>m b'. pl_blueprints p m = Some b' \<longrightarrow>
     (\<exists>b. p0 m = Some b \<and> bp_spec b' = bp_spec b \<and> (observed b' = observed b \<or> (m, observed b') \<in> X)))"

lemma keptD:
  assumes "kept X p0 p" and "pl_blueprints p m = Some b'"
  obtains b where "p0 m = Some b" "bp_spec b' = bp_spec b" "observed b' = observed b \<or> (m, observed b') \<in> X"
  using assms by (auto simp: kept_def)

lemma kept_refl [simp]: "kept X (pl_blueprints p) p"
  by (simp add: kept_def)

lemma kept_same: "kept X p0 p \<Longrightarrow> pl_blueprints p' = pl_blueprints p \<Longrightarrow> kept X p0 p'"
  by (simp add: kept_def)

text \<open>One blueprint was written: it kept its spec and has its old hash or one of \<open>X\<close>.\<close>

lemma kept_write:
  assumes "kept {} p0 p" and "\<And>m. m \<noteq> n \<Longrightarrow> pl_blueprints p' m = pl_blueprints p m"
    and "\<And>b'. pl_blueprints p' n = Some b' \<Longrightarrow>
      \<exists>b. pl_blueprints p n = Some b \<and> bp_spec b' = bp_spec b \<and> (observed b' = observed b \<or> (n, observed b') \<in> X)"
  shows "kept X p0 p'"
  unfolding kept_def
proof (intro allI impI)
  fix m b'
  assume b': "pl_blueprints p' m = Some b'"
  obtain b where b: "pl_blueprints p m = Some b" "bp_spec b' = bp_spec b" "observed b' = observed b \<or> (m, observed b') \<in> X"
    using b' assms(2,3) by (cases "m = n") auto
  with assms(1) show "\<exists>b. p0 m = Some b \<and> bp_spec b' = bp_spec b \<and> (observed b' = observed b \<or> (m, observed b') \<in> X)"
    by (metis empty_iff keptD)
qed

lemma routes_cong: "ToKro spec = ToKro spec' \<Longrightarrow> routes spec routing = routes spec' routing"
  by (simp add: routes_def)

lemma routes_unique:
  assumes "routes spec routing" and "routes spec routing'"
  shows "routing = routing'"
proof
  fix i
  show "routing i = routing' i"
    using assms [unfolded routes_def, THEN spec, of i] by (cases "snd (ToKro spec) i") auto
qed

lemma keeps_conj: "keeps I m \<Longrightarrow> keeps J m \<Longrightarrow> keeps (\<lambda>s. I s \<and> J s) m"
  by (rule keepsI) (auto dest: keepsD)

context serving
begin

lemma serving_within: "serving upd c host newRGD view (within S lib) built wi"
  by unfold_locales
    (simp_all add: build_frame build_sound condition_frame condition_set published_frame deleted_frame range_set wi_upd client_quiet
      build_quiet condition_quiet)

end

section \<open>Statuses across a pass\<close>

text \<open>
  What an API server promises of blueprints with a status subresource: an update leaves the status and a status update leaves the spec; a write
  that fails has been carried out or not. \<open>deterministic\<close> says that the builder, which will be one restricted by \<open>only_in\<close>, is a function of name and
  spec; \<open>collision_free\<close> speaks of the hash, \<open>owned\<close> says that
  no two blueprints generate the same API.
\<close>

locale fresh = serving upd c host newRGD view lib built wi
  for upd :: "(wiring \<Rightarrow> wiring) \<Rightarrow> 'w \<Rightarrow> 'w" and c :: "('u, 'c, 'k, 'w) kcp_client" and host :: string
    and newRGD :: "string \<Rightarrow> ('c, 'k) kro_spec \<Rightarrow> build_config \<Rightarrow> ('w, error + graph) state"
    and view :: "'w \<Rightarrow> ('c, 'k) plane" and lib :: "('c, 'k, 'w) rlib"
    and built :: "string \<Rightarrow> ('c, 'k) kro_spec \<Rightarrow> graph \<Rightarrow> bool" and wi :: "'w \<Rightarrow> wiring" +
  assumes update_keeps_status: "run_state (kc_update_blueprint c bp) w = (rb, w') \<Longrightarrow> pl_blueprints (view w') (bp_name bp) = Some b' \<Longrightarrow>
        \<exists>b. pl_blueprints (view w) (bp_name bp) = Some b \<and> bp_status b' = bp_status b \<and> (bp_spec b' = bp_spec b \<or> bp_spec b' = bp_spec bp)"
    and status_keeps_spec: "run_state (kc_update_status c bp) w = (rb, w') \<Longrightarrow> pl_blueprints (view w') (bp_name bp) = Some b' \<Longrightarrow>
        \<exists>b. pl_blueprints (view w) (bp_name bp) = Some b \<and> bp_spec b' = bp_spec b \<and> (bp_status b' = bp_status b \<or> bp_status b' = bp_status bp)"
    and deterministic: "built n ks g \<Longrightarrow> built n ks g' \<Longrightarrow> g = g'"
    and collision_free: "SpecHash (rl_Marshal lib) spec = Inr h \<Longrightarrow> SpecHash (rl_Marshal lib) spec' = Inr h \<Longrightarrow> ToKro spec = ToKro spec'"
    and owned: "serves_api lib built n h sb ex \<Longrightarrow> serves_api lib built n' h' sb' ex \<Longrightarrow> n = n'"
begin

abbreviation api :: "string \<Rightarrow> string \<Rightarrow> served_blueprint \<Rightarrow> string \<Rightarrow> bool" where
  "api \<equiv> serves_api lib built"

lemma api_unique:
  assumes "api n h sb ex" and "api n h sb' ex'"
  shows "sb = sb'" "ex = ex'"
proof -
  obtain spec g routing ars v vs where a: "SpecHash (rl_Marshal lib) spec = Inr h" "built n (fst (ToKro spec)) g" "routes spec routing"
    "BuildARS (rl_toARS lib) g h = Inr ars" "crd_version_names g = v # vs" "ex = export_name ars"
    "sb = \<lparr>sb_graph = g, sb_gvk = GVK (ars_group ars) v (ars_kind ars), sb_routing = routing\<rparr>"
    using assms(1) unfolding serves_api_def by blast
  obtain spec' g' routing' ars' v' vs' where b: "SpecHash (rl_Marshal lib) spec' = Inr h" "built n (fst (ToKro spec')) g'" "routes spec' routing'"
    "BuildARS (rl_toARS lib) g' h = Inr ars'" "crd_version_names g' = v' # vs'" "ex' = export_name ars'"
    "sb' = \<lparr>sb_graph = g', sb_gvk = GVK (ars_group ars') v' (ars_kind ars'), sb_routing = routing'\<rparr>"
    using assms(2) unfolding serves_api_def by blast
  have tk: "ToKro spec = ToKro spec'" using collision_free [OF a(1) b(1)] .
  have g: "g = g'" using deterministic a(2) b(2) tk by simp
  moreover have "routing = routing'" using routes_unique [OF a(3)] b(3) routes_cong [OF tk] by simp
  ultimately show "sb = sb'" "ex = ex'" using a(4-7) b(4-7) by simp_all
qed

lemma announced_api:
  assumes "announced b x out s' h g routing ars"
  obtains v vs where "crd_version_names g = v # vs"
    "api (bp_name b) h \<lparr>sb_graph = g, sb_gvk = GVK (ars_group ars) v (ars_kind ars), sb_routing = routing\<rparr> (export_name ars)"
    "wi_of s' = OnPublished (export_name ars) (GVK (ars_group ars) v (ars_kind ars)) g routing (bs_ObservedSpecHash (bp_status b) \<noteq> h) x"
proof -
  obtain spec where spec: "SpecHash (rl_Marshal lib) spec = Inr h" "built (bp_name b) (fst (ToKro spec)) g"
    using assms by (auto simp: announced_def compiled_for_def)
  have b: "SpecHash (rl_Marshal lib) (bp_spec b) = Inr h" "routes (bp_spec b) routing" "BuildARS (rl_toARS lib) g h = Inr ars"
    using assms by (simp_all add: announced_def)
  have "ToKro spec = ToKro (bp_spec b)" using collision_free [OF spec(1) b(1)] .
  then have "built (bp_name b) (fst (ToKro (bp_spec b))) g" using spec(2) by simp
  moreover obtain v vs where "crd_version_names g = v # vs"
    "wi_of s' = OnPublished (export_name ars) (GVK (ars_group ars) v (ars_kind ars)) g routing (bs_ObservedSpecHash (bp_status b) \<noteq> h) x"
    using assms by (auto simp: announced_def)
  ultimately show thesis using that [of v vs] b unfolding serves_api_def by blast
qed

subsection \<open>Preservation\<close>

definition idle :: "wiring \<Rightarrow> (string \<rightharpoonup> ('c, 'k) blueprint) \<Rightarrow> 'w \<Rightarrow> bool" where
  "idle x p0 w \<longleftrightarrow> wi w = x \<and> kept {} p0 (view w)"

lemma keeps_kept:
  assumes "\<And>w a w'. run_state m w = (a, w') \<Longrightarrow> pl_blueprints (view w') = pl_blueprints (view w)"
  shows "keeps (\<lambda>w. kept {} p0 (view w)) m"
  by (rule keepsI) (use assms kept_same in blast)

lemma quiet_idle: "quiet (idle x p0)"
proof -
  note frames = get_blueprint_frame get_export_frame applyARS_frame identity_frame UpsertAPIExport_frame DeletePublishedAPI_frame build_frame
  have "quiet (\<lambda>w. kept {} p0 (view w))"
    unfolding quiet_def
    by (intro conjI allI keeps_kept) (use frames [unfolded reg_simps] condition_frame in metis)+
  from quietD [OF this] quietD [OF quiet_wi [of x]] show ?thesis unfolding quiet_def idle_def by (intro conjI allI keeps_conj)
qed

lemma status_kept:
  assumes "run_state (kc_update_status c bp) w = (rb, w')" and "kept {} p0 (view w)"
  shows "kept {(bp_name bp, observed bp)} p0 (view w')"
  by (rule kept_write [OF assms(2), of "bp_name bp"])
    (use update_status_frame [unfolded reg_simps, OF assms(1)] status_keeps_spec [OF assms(1)] in \<open>fastforce+\<close>)

lemma update_kept:
  assumes "run_state (kc_update_blueprint c bp) w = (rb, w')" and "kept {} p0 (view w)"
    and "p0 (bp_name bp) = Some b0" and "bp_spec bp = bp_spec b0"
  shows "kept {} p0 (view w')"
proof (rule kept_write [OF assms(2), of "bp_name bp"])
  show "pl_blueprints (view w') m = pl_blueprints (view w) m" if "m \<noteq> bp_name bp" for m
    using update_blueprint_frame [unfolded reg_simps, OF assms(1)] that by blast
  fix b'
  assume "pl_blueprints (view w') (bp_name bp) = Some b'"
  from update_keeps_status [OF assms(1) this] assms(2-4)
  show "\<exists>b. pl_blueprints (view w) (bp_name bp) = Some b \<and> bp_spec b' = bp_spec b \<and> (observed b' = observed b \<or> (bp_name bp, observed b') \<in> {})"
    by (auto elim: keptD)
qed

lemma kept_known:
  assumes "kept {(m, observed b)} p0 p" and "p0 m = Some b0" and "observed b = observed b0"
  shows "kept {} p0 p"
  unfolding kept_def
proof (intro allI impI)
  fix n b'
  assume "pl_blueprints p n = Some b'"
  with assms(1) obtain b1 where "p0 n = Some b1" "bp_spec b' = bp_spec b1" "observed b' = observed b1 \<or> (n, observed b') \<in> {(m, observed b)}"
    by (rule keptD)
  then show "\<exists>b. p0 n = Some b \<and> bp_spec b' = bp_spec b \<and> (observed b' = observed b \<or> (n, observed b') \<in> {})"
    using assms(2,3) by auto
qed

lemma fails_quietly_idle:
  assumes "p0 (bp_name bp) = Some b0" and "observed bp = observed b0"
  shows "fails_quietly (idle x p0) bp"
  unfolding fails_quietly_def
proof (intro allI keepsI)
  fix cs w rb w'
  assume i: "idle x p0 w" and u: "run_state (kc_update_status c (set_conditions bp cs)) w = (rb, w')"
  have "kept {(bp_name bp, observed bp)} p0 (view w')"
    using status_kept [OF u, of p0] i by (simp add: idle_def set_conditions_def)
  then have "kept {} p0 (view w')" using kept_known assms by blast
  moreover have "wi w' = wi w" using keepsD [OF client_keepsD(3) [OF client_quiet] refl u] .
  ultimately show "idle x p0 w'" using i by (simp add: idle_def)
qed

lemma ensure_finalizer_idle:
  assumes "run_state (ensure_finalizer reg bp) w = (rb, w')" and "idle x p0 w" and "p0 (bp_name bp) = Some bp"
    and "bp_deletionTimestamp bp = None"
  shows "idle x p0 w'" and "rb = Inr b \<Longrightarrow> observed b = observed bp"
proof -
  let ?bp = "bp\<lparr>bp_finalizers := bp_finalizers bp @ [blueprintFinalizer]\<rparr>"
  consider "blueprintFinalizer \<in> set (bp_finalizers bp)" "rb = Inr bp" "w' = w" | "run_state (kc_update_blueprint c ?bp) w = (rb, w')"
    using assms(1) by (auto simp: ensure_finalizer_def split: if_splits)
  then have "idle x p0 w' \<and> (rb = Inr b \<longrightarrow> observed b = observed bp)"
  proof cases
    case 1
    then show ?thesis using assms(2) by auto
  next
    case 2
    have k: "kept {} p0 (view w')" using update_kept [OF 2] assms(2,3) by (simp add: idle_def)
    have "wi w' = x" using keepsD [OF client_keepsD(2) [OF client_quiet] _ 2] assms(2) by (auto simp: idle_def)
    moreover have "observed b = observed bp" if "rb = Inr b"
    proof -
      have "pl_blueprints (view w') (bp_name bp) = Some b"
        using update_blueprint_ok [unfolded reg_simps, OF 2 [unfolded that]] assms(4) by simp
      with k assms(3) show ?thesis by (auto elim: keptD)
    qed
    ultimately show ?thesis using k by (simp add: idle_def)
  qed
  then show "idle x p0 w'" and "rb = Inr b \<Longrightarrow> observed b = observed bp" by blast+
qed

lemma write_status_kept:
  assumes "run_state (write_status lib reg bp ex h) s = (out, s')" and "kept {} p0 (plane_of s)"
  shows "kept {(bp_name bp, h)} p0 (plane_of s')"
proof -
  obtain ge w1 where g: "run_state (kc_get_export c ex) (reg_world s) = (ge, w1)" by fastforce
  let ?bp = "published_status bp ex (case ge of Inl _ \<Rightarrow> '''' | Inr e \<Rightarrow> ex_identityHash e) h"
  obtain cs w2 where cs: "run_state (rl_SetStatusCondition lib (bs_Conditions (bp_status ?bp)) (status_condition ''True'' ''Published''
      (''published APIExport '' @ go_quote ex @ '' (specHash '' @ h @ '')''))) w1 = (cs, w2)" by fastforce
  obtain rb w3 where u: "run_state (kc_update_status c (set_conditions ?bp cs)) w2 = (rb, w3)" by fastforce
  have "reg_world s' = w3"
    using assms(1) g cs u by (auto simp: write_status_def Let_def split: sum.splits)
  moreover have "view w2 = plane_of s"
    using get_export_frame [unfolded reg_simps, OF g] condition_frame [OF cs] by simp
  moreover have "bp_name (set_conditions ?bp cs) = bp_name bp" "observed (set_conditions ?bp cs) = h"
    by (simp_all add: set_conditions_def published_status_def)
  ultimately show ?thesis using status_kept [OF u, of p0] assms(2) by simp
qed

subsection \<open>The invariant of a pass\<close>

text \<open>Where the registry has an entry for what an observed hash stands for, it is that very entry.\<close>

definition truly :: "('c, 'k) plane \<Rightarrow> wiring \<Rightarrow> bool" where
  "truly p x \<longleftrightarrow> (\<forall>m b sb ex. pl_blueprints p m = Some b \<and> api m (observed b) sb ex \<longrightarrow> published_Get (wi_registry x) ex \<in> {None, Some sb})"

lemma trulyD: "truly p x \<Longrightarrow> pl_blueprints p m = Some b \<Longrightarrow> api m (observed b) sb ex \<Longrightarrow> published_Get (wi_registry x) ex \<in> {None, Some sb}"
  unfolding truly_def by blast

lemma truly_kept: "truly p0 x \<Longrightarrow> kept {} (pl_blueprints p0) p \<Longrightarrow> truly p x"
  unfolding truly_def by (metis empty_iff keptD)

lemma truly_OnDeleted:
  assumes "truly p x"
  shows "truly p (OnDeleted ex x)"
  using assms unfolding truly_def
  by (cases "ex = ''''") (auto simp: OnDeleted_effect, auto simp: OnDeleted_def)

text \<open>A publication that is recorded under its hash keeps the invariant, and one that does not count as a change is truthful.\<close>

lemma announced_truly:
  assumes "announced b x out s' h g routing ars" and "truly p0 x" and "pl_blueprints p0 (bp_name b) = Some b0" and "observed b0 = observed b"
    and "wi_reachable x" and "kept {(bp_name b, h)} (pl_blueprints p0) (plane_of s')"
    and "wi_of s' = x \<or> out = Returned d None"
  shows "wi_reachable (wi_of s')" "truly (plane_of s') (wi_of s')"
proof -
  let ?ex = "export_name ars"
  obtain v vs where v: "crd_version_names g = v # vs"
    "api (bp_name b) h \<lparr>sb_graph = g, sb_gvk = GVK (ars_group ars) v (ars_kind ars), sb_routing = routing\<rparr> ?ex"
    "wi_of s' = OnPublished ?ex (GVK (ars_group ars) v (ars_kind ars)) g routing (observed b \<noteq> h) x"
    using announced_api [OF assms(1)] by blast
  define sb where "sb = \<lparr>sb_graph = g, sb_gvk = GVK (ars_group ars) v (ars_kind ars), sb_routing = routing\<rparr>"
  note api = v(2) [folded sb_def]
  have "truthful x ?ex sb (observed b \<noteq> h)"
    using trulyD [OF assms(2,3), of sb ?ex] api assms(4) by (auto simp: truthful_def)
  then have "wi_step x (wi_of s')" unfolding v(3) sb_def by (rule wi_step.publishes)
  with assms(5) show "wi_reachable (wi_of s')" by (rule wi_reachable.step)
  have reg: "published_Get (wi_registry (wi_of s')) m = (if m = ?ex then Some sb else published_Get (wi_registry x) m)" for m
    unfolding v(3) sb_def by (rule OnPublished_effect)
  show "truly (plane_of s') (wi_of s')"
    unfolding truly_def
  proof (intro allI impI, elim conjE)
    fix m b' sb' ex'
    assume b': "pl_blueprints (plane_of s') m = Some b'" and a: "api m (observed b') sb' ex'"
    obtain b1 where b1: "pl_blueprints p0 m = Some b1" "observed b' = observed b1 \<or> (m, observed b') \<in> {(bp_name b, h)}"
      using assms(6) b' by (rule keptD)
    have old: "published_Get (wi_registry x) ex' \<in> {None, Some sb'}" if "observed b' = observed b1"
      using trulyD [OF assms(2) b1(1)] a that by simp
    show "published_Get (wi_registry (wi_of s')) ex' \<in> {None, Some sb'}"
    proof (cases "m = bp_name b \<and> observed b' = h")
      case True
      then show ?thesis using api_unique [OF api] a reg by simp
    next
      case False
      then have same: "observed b' = observed b1" using b1(2) by auto
      have "wi_of s' = x" if "m = bp_name b"
        using assms(1,7) b' False that by (auto simp: announced_def shows_published_def)
      moreover have "ex' \<noteq> ?ex" if "m \<noteq> bp_name b" using owned [OF a] api that by blast
      ultimately show ?thesis using old [OF same] reg by (cases "m = bp_name b") auto
    qed
  qed
qed


text \<open>A pass does not change specs, keeps the invariant, and what it does to the wiring are steps of the wiring.\<close>

definition sound :: "(string \<rightharpoonup> ('c, 'k) blueprint) \<Rightarrow> 'w \<Rightarrow> bool" where
  "sound p0 w \<longleftrightarrow> wi_reachable (wi w) \<and> truly (view w) (wi w) \<and>
     (\<forall>m b'. pl_blueprints (view w) m = Some b' \<longrightarrow> (\<exists>b. p0 m = Some b \<and> bp_spec b' = bp_spec b))"

lemma idle_sound:
  assumes "idle x (pl_blueprints p0) w" and "wi_reachable x" and "truly p0 x"
  shows "sound (pl_blueprints p0) w"
  using assms truly_kept [OF assms(3)] by (auto simp: sound_def idle_def elim: keptD)

lemma live_sound:
  assumes "run_state (Registrar_Reconcile lib reg n) s = (out, s')" and "pl_blueprints (plane_of s) n = Some bp"
    and "bp_deletionTimestamp bp = None" and "CHR ''|'' \<notin> set n" and "coherent lib built (rg_Workspace reg) s"
    and "wi_reachable (wi_of s)" and "truly (plane_of s) (wi_of s)" and "wi_of s' = wi_of s \<or> out = Returned d None"
  shows "sound (pl_blueprints (plane_of s)) (reg_world s')"
proof -
  let ?p0 = "pl_blueprints (plane_of s)"
  define A where "A out s' \<longleftrightarrow> (wi_of s' = wi_of s \<or> out = Returned d None \<longrightarrow> sound ?p0 (reg_world s'))" for out s'
  have nm: "bp_name bp = n" using blueprint_key assms(2) .
  have i0: "idle (wi_of s) ?p0 (reg_world s)" by (simp add: idle_def)
  have "settled (idle (wi_of s) ?p0) A out s'"
  proof (rule Reconcile_settled [OF assms(1-5) quiet_idle i0], goal_cases)
    case (1 w x w')
    then show ?case using ensure_finalizer_idle(1) assms(2,3) nm by blast
  next
    case (2 w b w')
    have b: "bp_name b = n" "observed b = observed bp"
      using ensure_finalizer_same(1) [OF 2(3)] ensure_finalizer_idle(2) [OF 2(3,1)] assms(2,3) nm by simp_all
    have "settled (idle (wi_of s) ?p0) A o' t'" if r: "ready b h g routing ars t" and i: "idle (wi_of s) ?p0 (reg_world t)"
      and run: "run_state (announces b h g routing ars) t = (o', t')" for h g routing ars t o' t'
    proof -
      have "wi_of t = wi_of s" using i by (simp add: idle_def)
      with run r show ?thesis
      proof (cases rule: announced_cases)
        case panicked
        then show ?thesis using i by (simp add: settled_def)
      next
        case (announced ars0 s1)
        have k: "kept {(bp_name b, h)} ?p0 (plane_of t')"
          using write_status_kept [OF announced(3), of ?p0] announced(2) i by (simp add: idle_def)
        have "A o' t'"
          unfolding A_def
        proof
          assume "wi_of t' = wi_of s \<or> o' = Returned d None"
          from announced_truly [OF announced(1) assms(7) _ _ assms(6) k this] b assms(2) k
          show "sound ?p0 (reg_world t')" by (auto simp: sound_def elim: keptD)
        qed
        then show ?thesis by (simp add: settled_def)
      qed
    qed
    then show ?case using fails_quietly_idle b assms(2) by (blast intro: wpI)
  qed
  then show ?thesis using idle_sound assms(6-8) by (auto simp: settled_def A_def)
qed

lemma idle_withdrawn:
  assumes "idle (OnDeleted ex x) (pl_blueprints p0) w" and "wi_reachable x" and "truly p0 x"
  shows "sound (pl_blueprints p0) w"
  using idle_sound [OF assms(1) wi_reachable.step [OF assms(2) wi_step.deletes] truly_OnDeleted [OF assms(3)]] .

lemma release_idle:
  assumes "run_state (release_finalizer reg bp) s = (out, s')" and "p0 (bp_name bp) = Some bp"
  shows "idle x p0 (reg_world s) \<Longrightarrow> idle x p0 (reg_world s')"
proof -
  let ?bp = "bp\<lparr>bp_finalizers := removeString (bp_finalizers bp) blueprintFinalizer\<rparr>"
  assume i: "idle x p0 (reg_world s)"
  obtain rb w where u: "run_state (kc_update_blueprint c ?bp) (reg_world s) = (rb, w)" by fastforce
  then have "reg_world s' = w" using assms(1) by (auto simp: release_finalizer_def split: sum.splits)
  moreover have "kept {} p0 (view w)" using update_kept [OF u] i assms(2) by (simp add: idle_def)
  moreover have "wi w = x" using keepsD [OF client_keepsD(2) [OF client_quiet] _ u] i by (auto simp: idle_def)
  ultimately show "idle x p0 (reg_world s')" by (simp add: idle_def)
qed

lemma withdraw_sound:
  assumes "run_state (withdraw reg bp) s = (out, s')" and "pl_blueprints p0 (bp_name bp) = Some bp"
    and "idle x (pl_blueprints p0) (reg_world s)" and "wi_reachable x" and "truly p0 x"
  shows "sound (pl_blueprints p0) (reg_world s')"
proof -
  let ?ex = "bs_ExportedAPI (bp_status bp)"
  let ?c = "\<lambda>s :: 'w rstate. map_option (\<lambda>c. Cache_Delete c (rg_Workspace reg) (bp_name bp)) (reg_cache s)"
  obtain err w where d: "run_state (DeletePublishedAPI c ?ex) (reg_world s) = (err, w)" by fastforce
  have i: "idle x (pl_blueprints p0) w" using keepsD [OF quietD(6) [OF quiet_idle] assms(3) d] .
  have v: "view (upd (OnDeleted ?ex) w) = view w" using deleted_frame [of _ ?ex w] by simp
  consider "reg_world s' = reg_world s" | "reg_world s' = w"
    | s1 where "run_state (release_finalizer reg bp) s1 = (out, s')" "reg_world s1 = reg_world s \<or> reg_world s1 = upd (OnDeleted ?ex) w"
    using assms(1) d
    by (cases "?ex = ''''"; cases "blueprintFinalizer \<in> set (bp_finalizers bp)"; cases err) (auto simp: withdraw_def Let_def)
  then show ?thesis
  proof cases
    case (3 s1)
    from 3(2) have "idle x (pl_blueprints p0) (reg_world s1) \<or> idle (OnDeleted ?ex x) (pl_blueprints p0) (reg_world s1)"
      using assms(3) i v wi_upd by (auto simp: idle_def)
    with release_idle [OF 3(1), of "pl_blueprints p0"] assms(2) idle_sound idle_withdrawn assms(4,5) show ?thesis by blast
  qed (use idle_sound assms(3-5) i in \<open>simp_all\<close>)
qed

lemma Reconcile_sound:
  assumes "run_state (Registrar_Reconcile lib reg n) s = (out, s')" and "CHR ''|'' \<notin> set n" and "coherent lib built (rg_Workspace reg) s"
    and "wi_reachable (wi_of s)" and "truly (plane_of s) (wi_of s)"
    and "\<And>bp. pl_blueprints (plane_of s) n = Some bp \<Longrightarrow> bp_deletionTimestamp bp = None \<Longrightarrow> wi_of s' = wi_of s \<or> (\<exists>d. out = Returned d None)"
  shows "sound (pl_blueprints (plane_of s)) (reg_world s')"
proof -
  let ?p0 = "pl_blueprints (plane_of s)"
  obtain got w where g: "run_state (kc_get_blueprint c n) (reg_world s) = (got, w)" by fastforce
  have "idle (wi_of s) ?p0 (reg_world s)" by (simp add: idle_def)
  then have i: "idle (wi_of s) ?p0 w" using keepsD [OF quietD(1) [OF quiet_idle] _ g] by blast
  show ?thesis
  proof (cases got)
    case (Inl e)
    then have "reg_world s' = w" using assms(1) g by (auto simp: Registrar_Reconcile_def)
    then show ?thesis using idle_sound [OF i assms(4,5)] by simp
  next
    case (Inr bp)
    then have bp: "?p0 n = Some bp" using get_blueprint_found [unfolded reg_simps] g by simp
    show ?thesis
    proof (cases "bp_deletionTimestamp bp")
      case None
      then show ?thesis using live_sound [OF assms(1) bp None assms(2-5)] assms(6) [OF bp None] by blast
    next
      case (Some t)
      then have "run_state (withdraw reg bp) (s\<lparr>reg_world := w\<rparr>) = (out, s')"
        using assms(1) g Inr by (simp add: Registrar_Reconcile_def)
      from withdraw_sound [OF this, of "plane_of s"] show ?thesis using i bp blueprint_key [OF bp] assms(4,5) by simp
    qed
  qed
qed

end

section \<open>The controller as a system\<close>

text \<open>
  What happens to the controller and its workspace. \<open>passes\<close>: a pass of the registrar, which may fail in any way except that it does not lose
  the status update after an announcement; when it begins, the discovery data satisfy \<open>D\<close>. \<open>edits\<close>: users create, edit and delete blueprints and anything else in the workspace;
  they do not write hashes into statuses. \<open>manages\<close>: a manager reads the registry, returns or is forgotten. \<open>restarts\<close>: the
  process starts over, with an empty registry and cache and with the statuses it had written before.
\<close>

inductive sys_step :: "('c, 'k, 'w) rlib \<Rightarrow> ('u, 'c, 'k, 'w) registrar \<Rightarrow> ('w \<Rightarrow> ('c, 'k) plane) \<Rightarrow> ('w \<Rightarrow> wiring) \<Rightarrow> ('c, 'k) rgd_spec set \<Rightarrow>
    ('w \<Rightarrow> bool) \<Rightarrow> 'w rstate \<Rightarrow> 'w rstate \<Rightarrow> bool"
  for lib r view wi S D where
  passes: "run_state (Registrar_Reconcile lib r n) s = (out, s') \<Longrightarrow> CHR ''|'' \<notin> set n \<Longrightarrow> D (reg_world s) \<Longrightarrow>
    (\<And>bp. pl_blueprints (view (reg_world s)) n = Some bp \<Longrightarrow> bp_deletionTimestamp bp = None \<Longrightarrow>
       wi (reg_world s') = wi (reg_world s) \<or> (\<exists>d. out = Returned d None)) \<Longrightarrow> sys_step lib r view wi S D s s'"
| edits: "reg_cache s' = reg_cache s \<Longrightarrow> wi (reg_world s') = wi (reg_world s) \<Longrightarrow>
    (\<And>m b'. pl_blueprints (view (reg_world s')) m = Some b' \<Longrightarrow> bp_spec b' \<in> S \<and>
       (observed b' = '''' \<or> (\<exists>b. pl_blueprints (view (reg_world s)) m = Some b \<and> observed b' = observed b))) \<Longrightarrow> sys_step lib r view wi S D s s'"
| manages: "reg_cache s' = reg_cache s \<Longrightarrow> view (reg_world s') = view (reg_world s) \<Longrightarrow> wi_step (wi (reg_world s)) (wi (reg_world s')) \<Longrightarrow>
    wi_registry (wi (reg_world s')) = wi_registry (wi (reg_world s)) \<Longrightarrow> sys_step lib r view wi S D s s'"
| restarts: "reg_cache s' = Some NewGraphCache \<Longrightarrow> view (reg_world s') = view (reg_world s) \<Longrightarrow> wi (reg_world s') = wi_init \<Longrightarrow>
    sys_step lib r view wi S D s s'"

inductive sys_reachable :: "('c, 'k, 'w) rlib \<Rightarrow> ('u, 'c, 'k, 'w) registrar \<Rightarrow> ('w \<Rightarrow> ('c, 'k) plane) \<Rightarrow> ('w \<Rightarrow> wiring) \<Rightarrow> ('c, 'k) rgd_spec set \<Rightarrow>
    ('w \<Rightarrow> bool) \<Rightarrow> 'w rstate \<Rightarrow> bool"
  for lib r view wi S D where
  begins: "reg_cache s = Some NewGraphCache \<Longrightarrow> wi (reg_world s) = wi_init \<Longrightarrow>
    (\<And>m b. pl_blueprints (view (reg_world s)) m = Some b \<Longrightarrow> bp_spec b \<in> S) \<Longrightarrow> sys_reachable lib r view wi S D s"
| steps: "sys_reachable lib r view wi S D s \<Longrightarrow> sys_step lib r view wi S D s s' \<Longrightarrow> sys_reachable lib r view wi S D s'"


context fresh
begin

lemma api_observed: "api n h sb ex \<Longrightarrow> h \<noteq> ''''"
  unfolding serves_api_def by (auto dest: SpecHash_hex)

lemma Reconcile_within:
  assumes "\<And>bp. pl_blueprints (plane_of s) n = Some bp \<Longrightarrow> bp_spec bp \<in> S" and "newRGD = only_in D b" and "D (reg_world s)"
    and "\<And>n. keeps D (kc_get_blueprint c n)" and "\<And>bp. keeps D (kc_update_blueprint c bp)"
  shows "run_state (Registrar_Reconcile (within S full) reg n) s = run_state (Registrar_Reconcile full (main_registrar upd c host b) n) s"
proof -
  let ?r = "main_registrar upd c host b"
  have [simp]: "rg_Client ?r = c" by (simp add: main_registrar_def)
  obtain got w where g: "run_state (kc_get_blueprint c n) (reg_world s) = (got, w)" by fastforce
  have D: "D w" using keepsD [OF assms(4,3) g] .
  show ?thesis
  proof (cases got)
    case (Inl e)
    then show ?thesis using g by (simp add: Registrar_Reconcile_def)
  next
    case (Inr bp)
    then have S: "bp_spec bp \<in> S" using get_blueprint_found [unfolded reg_simps] g assms(1) by blast
    obtain fin w' where f: "run_state (ensure_finalizer reg bp) w = (fin, w')" by fastforce
    have f': "run_state (ensure_finalizer ?r bp) w = (fin, w')" using f assms(2) by simp
    have D': "D w'" using f' D keepsD [OF assms(5) D] by (auto simp: ensure_finalizer_def split: if_splits)
    have "run_state (publish (within S full) reg b') (s\<lparr>reg_world := w'\<rparr>) = run_state (publish full ?r b') (s\<lparr>reg_world := w'\<rparr>)"
      if "fin = Inr b'" for b'
      using ensure_finalizer_same(2) [OF f [unfolded that]] S D' assms(2) by (simp add: publish_within publish_only_in)
    then show ?thesis using g Inr f f' assms(2) by (cases fin) (simp_all add: Registrar_Reconcile_def)
  qed
qed

definition sys_inv :: "('c, 'k) rgd_spec set \<Rightarrow> 'w rstate \<Rightarrow> bool" where
  "sys_inv S s \<longleftrightarrow> wi_reachable (wi_of s) \<and> truly (plane_of s) (wi_of s) \<and> coherent lib built (rg_Workspace reg) s \<and>
     (\<forall>m b. pl_blueprints (plane_of s) m = Some b \<longrightarrow> bp_spec b \<in> S)"

lemma coherent_New: "reg_cache s = Some NewGraphCache \<Longrightarrow> coherent lib built ws s"
  by (simp add: coherent_def Cache_Get_def NewGraphCache_def)

lemma truly_init: "truly p wi_init"
  by (simp add: truly_def published_Get_def wi_init_def)

lemma sys_inv_step:
  assumes "sys_step full (main_registrar upd c host b) view wi S D s s'" and "lib = within S full" and "newRGD = only_in D b"
    and "\<And>n. keeps D (kc_get_blueprint c n)" and "\<And>bp. keeps D (kc_update_blueprint c bp)" and "sys_inv S s"
  shows "sys_inv S s'"
  using assms(1)
proof cases
  case (passes n out)
  have S: "\<And>m b. pl_blueprints (plane_of s) m = Some b \<Longrightarrow> bp_spec b \<in> S" using assms(6) by (simp add: sys_inv_def)
  have run: "run_state (Registrar_Reconcile lib reg n) s = (out, s')" using passes(1) Reconcile_within [OF S assms(3) passes(3) assms(4,5)] assms(2) by simp
  have "sound (pl_blueprints (plane_of s)) (reg_world s')"
    using Reconcile_sound [OF run passes(2)] assms(6) passes(4) by (simp add: sys_inv_def)
  moreover have "coherent lib built (rg_Workspace reg) s'"
    using Reconcile_coherent_run [OF run passes(2)] assms(6) by (simp add: sys_inv_def)
  ultimately show ?thesis using S unfolding sys_inv_def sound_def by metis
next
  case edits
  have "truly (plane_of s') (wi_of s')"
    unfolding truly_def
  proof (intro allI impI, elim conjE)
    fix m b' sb ex
    assume b': "pl_blueprints (plane_of s') m = Some b'" and a: "api m (observed b') sb ex"
    then obtain b where "pl_blueprints (plane_of s) m = Some b" "observed b' = observed b" using edits(3) api_observed by blast
    then show "published_Get (wi_registry (wi_of s')) ex \<in> {None, Some sb}"
      using trulyD [of "plane_of s" "wi_of s" m b sb ex] assms(6) a edits(2) by (simp add: sys_inv_def)
  qed
  then show ?thesis using edits assms(6) by (auto simp: sys_inv_def coherent_def)
next
  case manages
  then show ?thesis using assms(6) by (auto simp: sys_inv_def coherent_def truly_def intro: wi_reachable.step)
next
  case restarts
  then show ?thesis using assms(6) by (auto simp: sys_inv_def coherent_New truly_init intro: wi_reachable.start)
qed

lemma sys_inv_reachable:
  assumes "sys_reachable full (main_registrar upd c host b) view wi S D s" and "lib = within S full" and "newRGD = only_in D b"
    and "\<And>n. keeps D (kc_get_blueprint c n)" and "\<And>bp. keeps D (kc_update_blueprint c bp)"
  shows "sys_inv S s"
  using assms(1)
proof (induction rule: sys_reachable.induct)
  case (begins s)
  then show ?case by (auto simp: sys_inv_def coherent_New truly_init intro: wi_reachable.start)
next
  case (steps s s')
  show ?case by (rule sys_inv_step [OF steps(2) assms(2-5) steps(3)])
qed

lemma fresh_run:
  assumes "sys_reachable full (main_registrar upd c host b) view wi S D s" and "lib = within S full" and "newRGD = only_in D b"
    and "\<And>n. keeps D (kc_get_blueprint c n)" and "\<And>bp. keeps D (kc_update_blueprint c bp)"
    and "sv_running (wi_sup (wi_of s)) ex = Some e" and "wi_serving (wi_of s) e = Some sb"
  shows "published_Get (wi_registry (wi_of s)) ex = Some sb"
    and "pl_blueprints (plane_of s) m = Some bp \<Longrightarrow> api m (observed bp) sb' ex \<Longrightarrow> sb = sb'"
proof -
  note inv = sys_inv_reachable [OF assms(1-5)]
  then have "wi_reachable (wi_of s)" by (simp add: sys_inv_def)
  from managers_serve_latest [OF this assms(6,7)] show r: "published_Get (wi_registry (wi_of s)) ex = Some sb" .
  assume "pl_blueprints (plane_of s) m = Some bp" and "api m (observed bp) sb' ex"
  with trulyD [of "plane_of s" "wi_of s"] inv r show "sb = sb'" by (fastforce simp: sys_inv_def)
qed

end

section \<open>Freshness\<close>

text \<open>
  C17. No manager serves an outdated graph as long as no status update is lost after an announcement and the data the builder works
  from stay the same: whatever the registrar's passes, the users' edits, the managers and restarts of the controller do, the tracked manager of an
  export serves what the registry holds for the export, and if the hash in some blueprint's status stands for that export, exactly what the
  hash stands for. The builder compiles against the discovery and OpenAPI data of its workspace; \<open>D\<close> says what these data are, it holds
  whenever a pass begins, reading and updating a blueprint do not change it, and while it holds, name and spec determine the
  graph (\<open>fresh\<close> speaks of the builder in worlds with \<open>D\<close> only). Without this the hash, which covers the spec alone, can stay the same
  while the graph changes. The specs come from a set \<open>S\<close> on which the hash has no collisions and which gives no two blueprints the same API.
\<close>

theorem managers_are_fresh:
  assumes "fresh upd c host (only_in D newRGD) view (within S lib) built wi"
    and "\<And>n. keeps D (kc_get_blueprint c n)" and "\<And>bp. keeps D (kc_update_blueprint c bp)"
    and "sys_reachable lib (main_registrar upd c host newRGD) view wi S D s"
    and "sv_running (wi_sup (wi (reg_world s))) ex = Some e" and "wi_serving (wi (reg_world s)) e = Some sb"
  shows "published_Get (wi_registry (wi (reg_world s))) ex = Some sb \<and>
    (\<forall>m b sb'. pl_blueprints (view (reg_world s)) m = Some b \<and>
       serves_api (within S lib) built m (bs_ObservedSpecHash (bp_status b)) sb' ex \<longrightarrow> sb = sb')"
  using fresh.fresh_run [OF assms(1,4) refl refl assms(2,3,5,6)] by blast

end
