(* ===== verification/Digests.thy ===== *)
theory Digests
  imports Naming
begin

text \<open>
  Digests evaluated with the definitions of \<open>Sha256\<close>. Those of two one-byte messages are the published ones, which checks
  the definitions, and they do not share their first 48 bits, so that the spec hashes of two specs are known to differ. The others are the
  messages behind names whose readable parts agree; the names differ.
\<close>

section \<open>One block in quarters\<close>

lemma sha_blocks_single: "length bs = 64 \<Longrightarrow> sha_blocks st bs = sha_block st bs"
  by (subst sha_blocks.simps, simp, subst sha_blocks.simps) auto

lemma length_sha_K: "length sha_K = 64"
  by (simp add: sha_K_def)

lemma zip_quarters:
  assumes "length ws1 = 16" and "length ws2 = 16" and "length ws3 = 16" and "length ks = 64"
  shows "zip ks (ws1 @ ws2 @ ws3 @ ws4) = zip (take 16 ks) ws1 @ zip (take 16 (drop 16 ks)) ws2 @ zip (take 16 (drop 32 ks)) ws3 @ zip (drop 48 ks) ws4"
  using assms by (simp add: zip_append2 drop_drop)

lemma sha_block_quarters:
  assumes "rev (sha_extend 48 (rev (be_words block))) = ws1 @ ws2 @ ws3 @ ws4"
    and "length ws1 = 16" and "length ws2 = 16" and "length ws3 = 16"
    and "foldl sha_round st (zip (take 16 sha_K) ws1) = st1" and "foldl sha_round st1 (zip (take 16 (drop 16 sha_K)) ws2) = st2"
    and "foldl sha_round st2 (zip (take 16 (drop 32 sha_K)) ws3) = st3" and "foldl sha_round st3 (zip (drop 48 sha_K) ws4) = st4"
  shows "sha_block st block = sha_add st st4"
  using assms by (simp add: sha_block_def zip_quarters length_sha_K)

lemma Sum256_single:
  assumes "length (sha_pad m) = 64" and "sha_block sha_init (sha_pad m) = st"
  shows "Sum256 m = sha_bytes st"
  using assms by (simp add: Sum256_def sha_blocks_single)

section \<open>The digest of A\<close>

lemma schedule_A: "rev (sha_extend 48 (rev (be_words (sha_pad (bytes_of ''A''))))) =
    [1098907648, 0, 0, 0, 0, 0, 0, 0, 0, 0, 0, 0, 0, 0, 0, 8] @
    [1098907648, 327680, 1067248, 536871234, 761660440, 8475648, 3263449766, 3254788101, 2889619456, 339943992, 2938850785, 583277689, 3488119971, 1346326243, 66618396, 61404723] @
    [3897641947, 122520328, 798067459, 381507046, 3349188955, 1279291480, 1017784473, 4083514323, 3205043557, 1548181672, 1595773165, 2282032862, 3049583442, 3439324466, 994774293, 3320479147] @
    [2615459654, 959106654, 461854522, 2526706972, 2065943534, 3093191382, 2259122591, 254818063, 3475764193, 1251688784, 1830693980, 1522606231, 3375168530, 4132574891, 4237370596, 2423159649]"
  by code_simp

lemma rounds_A1: "foldl sha_round sha_init (zip (take 16 sha_K)
    [1098907648, 0, 0, 0, 0, 0, 0, 0, 0, 0, 0, 0, 0, 0, 0, 8]) =
    Sha 1770522092 3955714616 4261216196 3347480431 156156087 2041257126 3550965148 2398223350"
  by code_simp

lemma rounds_A2: "foldl sha_round (Sha 1770522092 3955714616 4261216196 3347480431 156156087 2041257126 3550965148 2398223350) (zip (take 16 (drop 16 sha_K))
    [1098907648, 327680, 1067248, 536871234, 761660440, 8475648, 3263449766, 3254788101, 2889619456, 339943992, 2938850785, 583277689, 3488119971, 1346326243, 66618396, 61404723]) =
    Sha 1699618138 2298897973 2914005721 3685521730 2892381322 856804194 2668995103 221954895"
  by code_simp

lemma rounds_A3: "foldl sha_round (Sha 1699618138 2298897973 2914005721 3685521730 2892381322 856804194 2668995103 221954895) (zip (take 16 (drop 32 sha_K))
    [3897641947, 122520328, 798067459, 381507046, 3349188955, 1279291480, 1017784473, 4083514323, 3205043557, 1548181672, 1595773165, 2282032862, 3049583442, 3439324466, 994774293, 3320479147]) =
    Sha 4005999201 3111175357 3646885289 1369809190 2749354240 445151660 2038576115 4141865464"
  by code_simp

lemma rounds_A4: "foldl sha_round (Sha 4005999201 3111175357 3646885289 1369809190 2749354240 445151660 2038576115 4141865464) (zip (drop 48 sha_K)
    [2615459654, 959106654, 461854522, 2526706972, 2065943534, 3093191382, 2259122591, 254818063, 3475764193, 1251688784, 1830693980, 1522606231, 3375168530, 4132574891, 4237370596, 2423159649]) =
    Sha 3952149609 3338479348 550114815 3884781681 2206670953 3034574084 3480174813 1152324324"
  by code_simp

lemma Sum256_A: "Sum256 (bytes_of ''A'') = [0x55, 0x9a, 0xea, 0xd0, 0x82, 0x64, 0xd5, 0x79, 0x5d, 0x39, 0x09, 0x71, 0x8c, 0xdd, 0x05, 0xab, 0xd4, 0x95, 0x72, 0xe8, 0x4f, 0xe5, 0x55, 0x90, 0xee, 0xf3, 0x1a, 0x88, 0xa0, 0x8f, 0xdf, 0xfd]"
proof -
  have "length (sha_pad (bytes_of ''A'')) = 64" by code_simp
  moreover note sha_block_quarters [OF schedule_A _ _ _ rounds_A1 rounds_A2 rounds_A3 rounds_A4, simplified]
  ultimately have "Sum256 (bytes_of ''A'') = sha_bytes (sha_add sha_init (Sha 3952149609 3338479348 550114815 3884781681 2206670953 3034574084 3480174813 1152324324))" by (rule Sum256_single)
  also have "\<dots> = [0x55, 0x9a, 0xea, 0xd0, 0x82, 0x64, 0xd5, 0x79, 0x5d, 0x39, 0x09, 0x71, 0x8c, 0xdd, 0x05, 0xab, 0xd4, 0x95, 0x72, 0xe8, 0x4f, 0xe5, 0x55, 0x90, 0xee, 0xf3, 0x1a, 0x88, 0xa0, 0x8f, 0xdf, 0xfd]" by code_simp
  finally show ?thesis .
qed

section \<open>The digest of B\<close>

lemma schedule_B: "rev (sha_extend 48 (rev (be_words (sha_pad (bytes_of ''B''))))) =
    [1115684864, 0, 0, 0, 0, 0, 0, 0, 0, 0, 0, 0, 0, 0, 0, 8] @
    [1115684864, 327680, 1083664, 536871234, 1437205544, 8475648, 1115966185, 3271565317, 2889754624, 339944184, 4046146900, 1255152777, 3485335651, 1347126046, 2467336622, 1728850292] @
    [4052364487, 2231630325, 515412546, 1320629867, 1450545661, 3656194647, 1078756717, 2176928696, 1030497293, 605608254, 4082685677, 2003291938, 4054917155, 439373065, 3077459147, 4001308017] @
    [189503067, 2298809051, 1658188441, 4170864623, 2848495191, 3865175713, 3161227878, 1906199850, 3863373078, 1716630764, 2748193009, 536890160, 2844871827, 373611612, 4065183145, 491700889]"
  by code_simp

lemma rounds_B1: "foldl sha_round sha_init (zip (take 16 sha_K)
    [1115684864, 0, 0, 0, 0, 0, 0, 0, 0, 0, 0, 0, 0, 0, 0, 8]) =
    Sha 614061651 4200881149 1723789600 917337543 4230613527 975866969 4045223724 2227782801"
  by code_simp

lemma rounds_B2: "foldl sha_round (Sha 614061651 4200881149 1723789600 917337543 4230613527 975866969 4045223724 2227782801) (zip (take 16 (drop 16 sha_K))
    [1115684864, 327680, 1083664, 536871234, 1437205544, 8475648, 1115966185, 3271565317, 2889754624, 339944184, 4046146900, 1255152777, 3485335651, 1347126046, 2467336622, 1728850292]) =
    Sha 3249776556 627067788 1235579257 2101449102 722006562 3026068939 3889484591 2301186149"
  by code_simp

lemma rounds_B3: "foldl sha_round (Sha 3249776556 627067788 1235579257 2101449102 722006562 3026068939 3889484591 2301186149) (zip (take 16 (drop 32 sha_K))
    [4052364487, 2231630325, 515412546, 1320629867, 1450545661, 3656194647, 1078756717, 2176928696, 1030497293, 605608254, 4082685677, 2003291938, 4054917155, 439373065, 3077459147, 4001308017]) =
    Sha 860990257 2220440609 3679373631 2691647804 2074608792 2582618150 2989028193 1290298429"
  by code_simp

lemma rounds_B4: "foldl sha_round (Sha 860990257 2220440609 3679373631 2691647804 2074608792 2582618150 2989028193 1290298429) (zip (drop 48 sha_K)
    [189503067, 2298809051, 1658188441, 4170864623, 2848495191, 3865175713, 3161227878, 1906199850, 3863373078, 1716630764, 2748193009, 536890160, 2844871827, 373611612, 4065183145, 491700889]) =
    Sha 1970571902 1185781359 1188875124 2773369423 2913859945 2037085910 2099876912 2807119171"
  by code_simp

lemma Sum256_B: "Sum256 (bytes_of ''B'') = [0xdf, 0x7e, 0x70, 0xe5, 0x02, 0x15, 0x44, 0xf4, 0x83, 0x4b, 0xbe, 0xe6, 0x4a, 0x9e, 0x37, 0x89, 0xfe, 0xbc, 0x4b, 0xe8, 0x14, 0x70, 0xdf, 0x62, 0x9c, 0xad, 0x6d, 0xdb, 0x03, 0x32, 0x0a, 0x5c]"
proof -
  have "length (sha_pad (bytes_of ''B'')) = 64" by code_simp
  moreover note sha_block_quarters [OF schedule_B _ _ _ rounds_B1 rounds_B2 rounds_B3 rounds_B4, simplified]
  ultimately have "Sum256 (bytes_of ''B'') = sha_bytes (sha_add sha_init (Sha 1970571902 1185781359 1188875124 2773369423 2913859945 2037085910 2099876912 2807119171))" by (rule Sum256_single)
  also have "\<dots> = [0xdf, 0x7e, 0x70, 0xe5, 0x02, 0x15, 0x44, 0xf4, 0x83, 0x4b, 0xbe, 0xe6, 0x4a, 0x9e, 0x37, 0x89, 0xfe, 0xbc, 0x4b, 0xe8, 0x14, 0x70, 0xdf, 0x62, 0x9c, 0xad, 0x6d, 0xdb, 0x03, 0x32, 0x0a, 0x5c]" by code_simp
  finally show ?thesis .
qed

section \<open>The message of a child in cluster a\<close>

lemma schedule_abcd: "rev (sha_extend 48 (rev (be_words (sha_pad (bytes_of (''a'' @ NUL @ ''b-c'' @ NUL @ ''d'')))))) =
    [1627415085, 1660970112, 0, 0, 0, 0, 0, 0, 0, 0, 0, 0, 0, 0, 0, 56] @
    [1988523718, 1662739584, 4121318414, 3737713463, 3770404338, 1657448067, 2675901169, 2114971227, 3290204176, 94349133, 3020191974, 134878087, 369964063, 3945818737, 715641068, 469036224] @
    [1678547621, 2574978149, 645463640, 3877177010, 3491158878, 1637276193, 3004163060, 3011056484, 3735759699, 2648433192, 402805303, 3615593467, 3207304491, 3274866382, 1320794529, 3423559893] @
    [149196668, 2564203171, 214956477, 1021143438, 2410486977, 3527758315, 1221287617, 907438516, 4130831000, 2655681818, 816081024, 2114586996, 1696643674, 1990928318, 964418375, 2488178046]"
  by code_simp

lemma rounds_abcd1: "foldl sha_round sha_init (zip (take 16 sha_K)
    [1627415085, 1660970112, 0, 0, 0, 0, 0, 0, 0, 0, 0, 0, 0, 0, 0, 56]) =
    Sha 3422054612 4215310821 4104491649 4029036363 4157543451 1699521143 1241201721 1018866433"
  by code_simp

lemma rounds_abcd2: "foldl sha_round (Sha 3422054612 4215310821 4104491649 4029036363 4157543451 1699521143 1241201721 1018866433) (zip (take 16 (drop 16 sha_K))
    [1988523718, 1662739584, 4121318414, 3737713463, 3770404338, 1657448067, 2675901169, 2114971227, 3290204176, 94349133, 3020191974, 134878087, 369964063, 3945818737, 715641068, 469036224]) =
    Sha 3683609341 1746298534 3034726941 1173098297 3388879444 372035399 1569969408 2881944306"
  by code_simp

lemma rounds_abcd3: "foldl sha_round (Sha 3683609341 1746298534 3034726941 1173098297 3388879444 372035399 1569969408 2881944306) (zip (take 16 (drop 32 sha_K))
    [1678547621, 2574978149, 645463640, 3877177010, 3491158878, 1637276193, 3004163060, 3011056484, 3735759699, 2648433192, 402805303, 3615593467, 3207304491, 3274866382, 1320794529, 3423559893]) =
    Sha 2548123208 2554464683 4161084841 365656869 4134424147 2770498673 2093167574 129316665"
  by code_simp

lemma rounds_abcd4: "foldl sha_round (Sha 2548123208 2554464683 4161084841 365656869 4134424147 2770498673 2093167574 129316665) (zip (drop 48 sha_K)
    [149196668, 2564203171, 214956477, 1021143438, 2410486977, 3527758315, 1221287617, 907438516, 4130831000, 2655681818, 816081024, 2114586996, 1696643674, 1990928318, 964418375, 2488178046]) =
    Sha 1582004288 3877555236 2237854726 274749236 3588558020 1362352399 3644578126 673737087"
  by code_simp

lemma Sum256_abcd: "Sum256 (bytes_of (''a'' @ NUL @ ''b-c'' @ NUL @ ''d'')) = [0xc8, 0x55, 0x5e, 0xa7, 0xa2, 0x86, 0x7a, 0xa9, 0xc1, 0xd1, 0xe7, 0x78, 0xb5, 0xb0, 0x4c, 0x6e, 0x26, 0xf3, 0x5f, 0x43, 0xec, 0x39, 0x41, 0x9b, 0xf8, 0xbf, 0xb2, 0xf9, 0x84, 0x09, 0x36, 0x98]"
proof -
  have "length (sha_pad (bytes_of (''a'' @ NUL @ ''b-c'' @ NUL @ ''d''))) = 64" by code_simp
  moreover have "sha_block sha_init (sha_pad (bytes_of (''a'' @ NUL @ ''b-c'' @ NUL @ ''d''))) = sha_add sha_init (Sha 1582004288 3877555236 2237854726 274749236 3588558020 1362352399 3644578126 673737087)"
    by (rule sha_block_quarters [OF schedule_abcd _ _ _ rounds_abcd1 rounds_abcd2 rounds_abcd3 rounds_abcd4]) simp_all
  ultimately have "Sum256 (bytes_of (''a'' @ NUL @ ''b-c'' @ NUL @ ''d'')) = sha_bytes (sha_add sha_init (Sha 1582004288 3877555236 2237854726 274749236 3588558020 1362352399 3644578126 673737087))" by (rule Sum256_single)
  also have "\<dots> = [0xc8, 0x55, 0x5e, 0xa7, 0xa2, 0x86, 0x7a, 0xa9, 0xc1, 0xd1, 0xe7, 0x78, 0xb5, 0xb0, 0x4c, 0x6e, 0x26, 0xf3, 0x5f, 0x43, 0xec, 0x39, 0x41, 0x9b, 0xf8, 0xbf, 0xb2, 0xf9, 0x84, 0x09, 0x36, 0x98]" by code_simp
  finally show ?thesis .
qed

section \<open>The message of a child in cluster a-b\<close>

lemma schedule_ab_cd: "rev (sha_extend 48 (rev (be_words (sha_pad (bytes_of (''a-b'' @ NUL @ ''c'' @ NUL @ ''d'')))))) =
    [1630364160, 1660970112, 0, 0, 0, 0, 0, 0, 0, 0, 0, 0, 0, 0, 0, 56] @
    [1991472793, 1662739584, 3582081362, 3737713463, 1538674943, 1657448067, 3799427953, 2117920302, 3825841503, 3310336306, 3406170143, 2269428447, 671712228, 2894892501, 3754916250, 2636270621] @
    [1699887658, 3474692221, 28940256, 668174326, 2760599185, 1258063028, 3388814881, 2223771675, 2222705007, 4129956535, 300334164, 782817857, 2590564218, 3708658400, 2489940054, 1571014208] @
    [4074969025, 583918626, 584011790, 4283850995, 76475259, 4074930618, 4094900429, 3324131082, 2618350447, 2069447848, 961697881, 2411665181, 2803427491, 471846522, 1050097889, 1895023773]"
  by code_simp

lemma rounds_ab_cd1: "foldl sha_round sha_init (zip (take 16 sha_K)
    [1630364160, 1660970112, 0, 0, 0, 0, 0, 0, 0, 0, 0, 0, 0, 0, 0, 56]) =
    Sha 4100075825 1610110027 999820727 2595358477 2595984092 2986378104 1871433352 2045048998"
  by code_simp

lemma rounds_ab_cd2: "foldl sha_round (Sha 4100075825 1610110027 999820727 2595358477 2595984092 2986378104 1871433352 2045048998) (zip (take 16 (drop 16 sha_K))
    [1991472793, 1662739584, 3582081362, 3737713463, 1538674943, 1657448067, 3799427953, 2117920302, 3825841503, 3310336306, 3406170143, 2269428447, 671712228, 2894892501, 3754916250, 2636270621]) =
    Sha 3087697950 4241039733 548098942 679907597 1653417412 3136269465 1417022217 1006277508"
  by code_simp

lemma rounds_ab_cd3: "foldl sha_round (Sha 3087697950 4241039733 548098942 679907597 1653417412 3136269465 1417022217 1006277508) (zip (take 16 (drop 32 sha_K))
    [1699887658, 3474692221, 28940256, 668174326, 2760599185, 1258063028, 3388814881, 2223771675, 2222705007, 4129956535, 300334164, 782817857, 2590564218, 3708658400, 2489940054, 1571014208]) =
    Sha 3138641563 2110005223 2842172309 1271002533 1210680305 766216672 711844380 567999845"
  by code_simp

lemma rounds_ab_cd4: "foldl sha_round (Sha 3138641563 2110005223 2842172309 1271002533 1210680305 766216672 711844380 567999845) (zip (drop 48 sha_K)
    [4074969025, 583918626, 584011790, 4283850995, 76475259, 4074930618, 4094900429, 3324131082, 2618350447, 2069447848, 961697881, 2411665181, 2803427491, 471846522, 1050097889, 1895023773]) =
    Sha 4133666109 2948228508 3396851071 2503531349 150537929 2623669426 3596471382 2563294668"
  by code_simp

lemma Sum256_ab_cd: "Sum256 (bytes_of (''a-b'' @ NUL @ ''c'' @ NUL @ ''d'')) = [0x60, 0x6c, 0xa3, 0xa4, 0x6b, 0x22, 0x14, 0x21, 0x06, 0xe6, 0xc8, 0xf1, 0x3a, 0x88, 0xd0, 0x8f, 0x5a, 0x07, 0x59, 0x48, 0x37, 0x67, 0x6d, 0x3e, 0xf5, 0xe1, 0xa6, 0x01, 0xf4, 0xa9, 0x92, 0xe5]"
proof -
  have "length (sha_pad (bytes_of (''a-b'' @ NUL @ ''c'' @ NUL @ ''d''))) = 64" by code_simp
  moreover have "sha_block sha_init (sha_pad (bytes_of (''a-b'' @ NUL @ ''c'' @ NUL @ ''d''))) = sha_add sha_init (Sha 4133666109 2948228508 3396851071 2503531349 150537929 2623669426 3596471382 2563294668)"
    by (rule sha_block_quarters [OF schedule_ab_cd _ _ _ rounds_ab_cd1 rounds_ab_cd2 rounds_ab_cd3 rounds_ab_cd4]) simp_all
  ultimately have "Sum256 (bytes_of (''a-b'' @ NUL @ ''c'' @ NUL @ ''d'')) = sha_bytes (sha_add sha_init (Sha 4133666109 2948228508 3396851071 2503531349 150537929 2623669426 3596471382 2563294668))" by (rule Sum256_single)
  also have "\<dots> = [0x60, 0x6c, 0xa3, 0xa4, 0x6b, 0x22, 0x14, 0x21, 0x06, 0xe6, 0xc8, 0xf1, 0x3a, 0x88, 0xd0, 0x8f, 0x5a, 0x07, 0x59, 0x48, 0x37, 0x67, 0x6d, 0x3e, 0xf5, 0xe1, 0xa6, 0x01, 0xf4, 0xa9, 0x92, 0xe5]" by code_simp
  finally show ?thesis .
qed

section \<open>The message of a record in cluster a\<close>

lemma schedule_a_bc: "rev (sha_extend 48 (rev (be_words (sha_pad (bytes_of (''a'' @ NUL @ ''bc'')))))) =
    [1627415139, 2147483648, 0, 0, 0, 0, 0, 0, 0, 0, 0, 0, 0, 0, 0, 32] @
    [1912636003, 2148794368, 1365333856, 2149602568, 2169010889, 537221121, 840802995, 2030647223, 3843520549, 244607304, 3545194751, 987176523, 2086279191, 2667573929, 136806107, 3564800361] @
    [3796656248, 140978985, 1552604709, 185084434, 2773122694, 1090625887, 2744249226, 3377158568, 1102654316, 1893924052, 3856717042, 2844021703, 3934418430, 1323663944, 2976559664, 2101704959] @
    [4235713194, 4167571913, 1279395331, 2343627726, 385402655, 3607134821, 991103983, 2977828071, 946768313, 1362351673, 2517223958, 3494369828, 2546105614, 2082414988, 2203722588, 3883492601]"
  by code_simp

lemma rounds_a_bc1: "foldl sha_round sha_init (zip (take 16 sha_K)
    [1627415139, 2147483648, 0, 0, 0, 0, 0, 0, 0, 0, 0, 0, 0, 0, 0, 32]) =
    Sha 154884682 4082551422 1536956832 354340928 2929303786 780155405 930514445 3564901861"
  by code_simp

lemma rounds_a_bc2: "foldl sha_round (Sha 154884682 4082551422 1536956832 354340928 2929303786 780155405 930514445 3564901861) (zip (take 16 (drop 16 sha_K))
    [1912636003, 2148794368, 1365333856, 2149602568, 2169010889, 537221121, 840802995, 2030647223, 3843520549, 244607304, 3545194751, 987176523, 2086279191, 2667573929, 136806107, 3564800361]) =
    Sha 2908924376 3303997242 1786668316 828463531 3409950621 3702870278 639917410 1810079229"
  by code_simp

lemma rounds_a_bc3: "foldl sha_round (Sha 2908924376 3303997242 1786668316 828463531 3409950621 3702870278 639917410 1810079229) (zip (take 16 (drop 32 sha_K))
    [3796656248, 140978985, 1552604709, 185084434, 2773122694, 1090625887, 2744249226, 3377158568, 1102654316, 1893924052, 3856717042, 2844021703, 3934418430, 1323663944, 2976559664, 2101704959]) =
    Sha 3523656094 3049365612 3095292435 91775287 3198502573 1303793198 2314645144 2440756076"
  by code_simp

lemma rounds_a_bc4: "foldl sha_round (Sha 3523656094 3049365612 3095292435 91775287 3198502573 1303793198 2314645144 2440756076) (zip (drop 48 sha_K)
    [4235713194, 4167571913, 1279395331, 2343627726, 385402655, 3607134821, 991103983, 2977828071, 946768313, 1362351673, 2517223958, 3494369828, 2546105614, 2082414988, 2203722588, 3883492601]) =
    Sha 3601952278 3624144556 4112510984 589932868 2057559131 2337050066 311486032 822652571"
  by code_simp

lemma Sum256_a_bc: "Sum256 (bytes_of (''a'' @ NUL @ ''bc'')) = [0x40, 0xbb, 0x54, 0x7d, 0x93, 0x6b, 0xbd, 0x31, 0x31, 0x8e, 0xe3, 0x7a, 0xc8, 0x79, 0x9e, 0x7e, 0xcb, 0xb2, 0x2e, 0xda, 0x26, 0x51, 0xf6, 0x5e, 0x32, 0x14, 0xbf, 0xfb, 0x8c, 0xe9, 0x7b, 0xb4]"
proof -
  have "length (sha_pad (bytes_of (''a'' @ NUL @ ''bc''))) = 64" by code_simp
  moreover have "sha_block sha_init (sha_pad (bytes_of (''a'' @ NUL @ ''bc''))) = sha_add sha_init (Sha 3601952278 3624144556 4112510984 589932868 2057559131 2337050066 311486032 822652571)"
    by (rule sha_block_quarters [OF schedule_a_bc _ _ _ rounds_a_bc1 rounds_a_bc2 rounds_a_bc3 rounds_a_bc4]) simp_all
  ultimately have "Sum256 (bytes_of (''a'' @ NUL @ ''bc'')) = sha_bytes (sha_add sha_init (Sha 3601952278 3624144556 4112510984 589932868 2057559131 2337050066 311486032 822652571))" by (rule Sum256_single)
  also have "\<dots> = [0x40, 0xbb, 0x54, 0x7d, 0x93, 0x6b, 0xbd, 0x31, 0x31, 0x8e, 0xe3, 0x7a, 0xc8, 0x79, 0x9e, 0x7e, 0xcb, 0xb2, 0x2e, 0xda, 0x26, 0x51, 0xf6, 0x5e, 0x32, 0x14, 0xbf, 0xfb, 0x8c, 0xe9, 0x7b, 0xb4]" by code_simp
  finally show ?thesis .
qed

section \<open>The message of a record in cluster ab\<close>

lemma schedule_ab_c: "rev (sha_extend 48 (rev (be_words (sha_pad (bytes_of (''ab'' @ NUL @ ''c'')))))) =
    [1633812579, 2147483648, 0, 0, 0, 0, 0, 0, 0, 0, 0, 0, 0, 0, 0, 32] @
    [1919033443, 2148794368, 1411469301, 2149602568, 2383481031, 537221121, 2774053544, 2037044663, 3476820011, 2224314658, 172205701, 900022421, 3348499585, 2913863646, 2169771125, 3542898178] @
    [2425169679, 3760119252, 3578729387, 3658427857, 4153785888, 2114539625, 3055606344, 3599833409, 1768863380, 3969815478, 4006635143, 1630480281, 2925613876, 3643540628, 3858755333, 75310036] @
    [2319305350, 2389338965, 103867345, 837422788, 3346815433, 1543150382, 1102673697, 135073231, 1642421525, 634533236, 485277147, 2905024408, 123778038, 2125398516, 503543654, 909114485]"
  by code_simp

lemma rounds_ab_c1: "foldl sha_round sha_init (zip (take 16 sha_K)
    [1633812579, 2147483648, 0, 0, 0, 0, 0, 0, 0, 0, 0, 0, 0, 0, 0, 32]) =
    Sha 889721239 4172231920 2254651158 4198692833 3304315848 3677490079 3178707222 2754277347"
  by code_simp

lemma rounds_ab_c2: "foldl sha_round (Sha 889721239 4172231920 2254651158 4198692833 3304315848 3677490079 3178707222 2754277347) (zip (take 16 (drop 16 sha_K))
    [1919033443, 2148794368, 1411469301, 2149602568, 2383481031, 537221121, 2774053544, 2037044663, 3476820011, 2224314658, 172205701, 900022421, 3348499585, 2913863646, 2169771125, 3542898178]) =
    Sha 1235435069 1054426484 819161653 148038492 2264100086 2852049262 4219271710 3262966506"
  by code_simp

lemma rounds_ab_c3: "foldl sha_round (Sha 1235435069 1054426484 819161653 148038492 2264100086 2852049262 4219271710 3262966506) (zip (take 16 (drop 32 sha_K))
    [2425169679, 3760119252, 3578729387, 3658427857, 4153785888, 2114539625, 3055606344, 3599833409, 1768863380, 3969815478, 4006635143, 1630480281, 2925613876, 3643540628, 3858755333, 75310036]) =
    Sha 2893051547 1507210980 1979186911 2515726408 1207261511 3900129038 951468507 3265530091"
  by code_simp

lemma rounds_ab_c4: "foldl sha_round (Sha 2893051547 1507210980 1979186911 2515726408 1207261511 3900129038 951468507 3265530091) (zip (drop 48 sha_K)
    [2319305350, 2389338965, 103867345, 837422788, 3346815433, 1543150382, 1102673697, 135073231, 1642421525, 634533236, 485277147, 2905024408, 123778038, 2125398516, 503543654, 909114485]) =
    Sha 33114108 1641149128 1228997745 1946449341 2966690328 444022995 2691034383 696162982"
  by code_simp

lemma Sum256_ab_c: "Sum256 (bytes_of (''ab'' @ NUL @ ''c'')) = [0x6c, 0x03, 0x2e, 0x63, 0x1d, 0x39, 0xa1, 0x4d, 0x85, 0xaf, 0xf7, 0xe3, 0x19, 0x54, 0x6a, 0xf7, 0x01, 0xe2, 0x6c, 0x97, 0xb5, 0x7c, 0xa9, 0x5f, 0xbf, 0xe9, 0xc6, 0xba, 0x85, 0x5f, 0x67, 0xbf]"
proof -
  have "length (sha_pad (bytes_of (''ab'' @ NUL @ ''c''))) = 64" by code_simp
  moreover have "sha_block sha_init (sha_pad (bytes_of (''ab'' @ NUL @ ''c''))) = sha_add sha_init (Sha 33114108 1641149128 1228997745 1946449341 2966690328 444022995 2691034383 696162982)"
    by (rule sha_block_quarters [OF schedule_ab_c _ _ _ rounds_ab_c1 rounds_ab_c2 rounds_ab_c3 rounds_ab_c4]) simp_all
  ultimately have "Sum256 (bytes_of (''ab'' @ NUL @ ''c'')) = sha_bytes (sha_add sha_init (Sha 33114108 1641149128 1228997745 1946449341 2966690328 444022995 2691034383 696162982))" by (rule Sum256_single)
  also have "\<dots> = [0x6c, 0x03, 0x2e, 0x63, 0x1d, 0x39, 0xa1, 0x4d, 0x85, 0xaf, 0xf7, 0xe3, 0x19, 0x54, 0x6a, 0xf7, 0x01, 0xe2, 0x6c, 0x97, 0xb5, 0x7c, 0xa9, 0x5f, 0xbf, 0xe9, 0xc6, 0xba, 0x85, 0x5f, 0x67, 0xbf]" by code_simp
  finally show ?thesis .
qed

section \<open>Names that differ\<close>

text \<open>The example of the source: a child \<open>d\<close> of \<open>b-c\<close> in cluster \<open>a\<close> and one of \<open>c\<close> in cluster \<open>a-b\<close> both read \<open>a-b-c-d\<close>.\<close>

theorem ProviderChildName_collision_witness:
  "readable_part ''a'' ''b-c'' ''d'' = readable_part ''a-b'' ''c'' ''d'' \<and>
   ProviderChildName ''a'' ''b-c'' ''d'' \<noteq> ProviderChildName ''a-b'' ''c'' ''d''"
  using ProviderChildName_collision [of "''a''" "''b-c''" "''a-b''" "''c''" "''d''" "''d''"]
  unfolding Sum256_abcd Sum256_ab_cd by (simp add: readable_part_def)

theorem LivenessRecordName_valid_witness:
  "dns1123 (LivenessRecordName ''a'' ''bc'') \<and> LivenessRecordName ''a'' ''bc'' \<noteq> LivenessRecordName ''ab'' ''c''"
  using LivenessRecordName_valid [of "''a''" "''ab''" "''bc''" "''c''"]
  unfolding Sum256_a_bc Sum256_ab_c by simp

end
