(* ===== verification/Demo.thy ===== *)
theory Demo
  imports Freshness Digests
begin

text \<open>
  The controller on an in-memory provider workspace: the registrar with the callbacks of main, over
  \<open>kmem_client\<close> and a builder that knows one blueprint and compiles it to one consumer-plane ConfigMap node named by
  its schema. It shows that the hypotheses of the registrar's theorems can hold together, and runs
  the registrar and the supervisor through concrete histories.
\<close>

record ('c, 'k) cworld = "('c, 'k) kmem" +
  cw_wiring :: wiring

type_synonym demo_cworld = "(string, unit) cworld"

definition demo_schema :: "(string, unit) kro_spec \<Rightarrow> string" where
  "demo_schema ks = (case ks_schema ks of None \<Rightarrow> '''' | Some x \<Rightarrow> x)"

definition compiled :: "string \<Rightarrow> graph" where
  "compiled x =
     \<lparr>g_nodes = [\<lparr>nd_id = x, nd_type = NodeTypeResource, nd_namespaced = True,
        nd_gvr = GVR '''' ''v1'' ''configmaps'', nd_gvk = configMapGVK\<rparr>],
      g_instance_gvr = GVR ''e.org'' ''v1'' ''ws'',
      g_crd = Some \<lparr>crd_name = ''ws.e.org'', crd_group = ''e.org'', crd_plural = ''ws'', crd_kind = ''W'', crd_versions = [''v1'']\<rparr>\<rparr>"

definition demo_rlib :: "(string, unit, demo_cworld) rlib" where
  "demo_rlib =
     \<lparr>rl_Marshal = (\<lambda>s. Inr (case spec_schema s of None \<Rightarrow> '''' | Some x \<Rightarrow> x)),
      rl_toARS = (\<lambda>d p. Inr \<lparr>ars_name = p @ ''.'' @ crd_name d, ars_group = crd_group d, ars_plural = crd_plural d, ars_kind = crd_kind d\<rparr>),
      rl_SetStatusCondition = (\<lambda>cs d. ret (d # filter (\<lambda>x. cond_type x \<noteq> cond_type d) cs)),
      rl_range = (\<lambda>ks. ks)\<rparr>"

definition demo_build :: "string \<Rightarrow> (string, unit) kro_spec \<Rightarrow> error + graph" where
  "demo_build n ks = (if n = ''b'' then Inr (compiled (demo_schema ks)) else Inl (ErrorString ''unknown blueprint''))"

definition demo_registrar :: "(api_export, string, unit, demo_cworld) registrar" where
  "demo_registrar = main_registrar (\<lambda>f w. w\<lparr>cw_wiring := f (cw_wiring w)\<rparr>) kmem_client ''https://kcp/clusters/p''
     (\<lambda>n ks cfg. ret (demo_build n ks))"

definition demo_built :: "string \<Rightarrow> (string, unit) kro_spec \<Rightarrow> graph \<Rightarrow> bool" where
  "demo_built n ks g \<longleftrightarrow> n = ''b'' \<and> g = compiled (demo_schema ks)"

interpretation demo_reg: registrar_run demo_registrar kmem_view demo_rlib demo_built
proof -
  have c: "rg_Client demo_registrar = kmem_client" by (simp add: demo_registrar_def main_registrar_def)
  show "registrar_run demo_registrar kmem_view demo_rlib demo_built"
  proof (rule registrar_run.intro)
    show "kcp_plane (rg_Client demo_registrar) kmem_view" unfolding c by (rule kmem.kcp_plane_axioms)
    show "registrar_run_axioms demo_registrar kmem_view demo_rlib demo_built"
      by unfold_locales (auto simp: demo_registrar_def main_registrar_def EndpointGraphSource_Build_def demo_rlib_def demo_built_def demo_build_def kmem_view_def split: if_splits)
  qed
qed

text \<open>The in-memory workspace and the wiring are separate parts of the world.\<close>

lemma kmem_quiet: "client_keeps (\<lambda>w :: demo_cworld. cw_wiring w = x) kmem_client"
  unfolding client_keeps_def
  by (intro conjI allI; rule keepsI; auto simp: kmem_defs Let_def split: option.splits if_splits)

interpretation demo_serving: serving "\<lambda>f w. w\<lparr>cw_wiring := f (cw_wiring w)\<rparr>" kmem_client "''https://kcp/clusters/p''"
  "\<lambda>n ks cfg. ret (demo_build n ks)" kmem_view demo_rlib demo_built cw_wiring
proof (rule serving.intro)
  show "registrar_run (main_registrar (\<lambda>f w. w\<lparr>cw_wiring := f (cw_wiring w)\<rparr>) kmem_client ''https://kcp/clusters/p''
      (\<lambda>n ks cfg. ret (demo_build n ks))) kmem_view demo_rlib demo_built"
    unfolding demo_registrar_def [symmetric] by (rule demo_reg.registrar_run_axioms)
  show "serving_axioms (\<lambda>f w. w\<lparr>cw_wiring := f (cw_wiring w)\<rparr>) kmem_client (\<lambda>n ks cfg. ret (demo_build n ks)) demo_rlib cw_wiring"
    by unfold_locales (auto simp: demo_rlib_def kmem_quiet intro: keeps_return)
qed

section \<open>Histories\<close>

definition demo_spec :: "string \<Rightarrow> (string, unit) rgd_spec" where
  "demo_spec x = \<lparr>spec_schema = Some x, spec_resources = []\<rparr>"

definition demo_hash :: "string \<Rightarrow> string" where
  "demo_hash x = take 12 (hex_EncodeToString (Sum256 (bytes_of x)))"

lemma SpecHash_demo: "SpecHash (rl_Marshal demo_rlib) (demo_spec x) = Inr (demo_hash x)"
  by (simp add: SpecHash_def demo_rlib_def demo_spec_def demo_hash_def)

lemma demo_hash_differs: "demo_hash ''A'' \<noteq> demo_hash ''B''"
  using take_hex [of 6] by (simp add: demo_hash_def hex_inject Sum256_A Sum256_B)

definition demo_bp :: "string \<Rightarrow> blueprint_status \<Rightarrow> (string, unit) blueprint" where
  "demo_bp x st = \<lparr>bp_name = ''b'', bp_deletionTimestamp = None, bp_finalizers = [blueprintFinalizer], bp_spec = demo_spec x, bp_status = st\<rparr>"

text \<open>A pass over a blueprint with spec \<open>x\<close>, and what it announces.\<close>

definition demo_served :: "string \<Rightarrow> served_blueprint" where
  "demo_served x = \<lparr>sb_graph = compiled x, sb_gvk = GVK ''e.org'' ''v1'' ''W'', sb_routing = Map.empty\<rparr>"

lemma demo_claims: "\<exists>cl. published_claims (compiled x) Map.empty i = Some cl \<and> validateClaims cl = None"
  by (simp add: published_claims_def compiled_def ForeignConsumerGRs_def TargetForNode_def GroupResource_def is_external_def
      DeriveClaims_def mergeClaims_def)

lemma demo_workspace: "providerWorkspaceName ''https://kcp/clusters/p'' = ''p''"
  by (simp add: providerWorkspaceName_def go_Cut.simps)

lemmas demo_reg_defs = demo_registrar_def main_registrar_def EndpointGraphSource_Build_def

lemma demo_registrar_simps:
  "rg_Client demo_registrar = kmem_client" "rg_Workspace demo_registrar = ''p''"
  "rg_Build demo_registrar ''b'' ks = ret (Inr (compiled (demo_schema ks)))"
  "rg_OnPublished demo_registrar =
     Some (\<lambda>ex k g routing ch. State (\<lambda>w. ((), w\<lparr>cw_wiring := OnPublished ex k g routing ch (cw_wiring w)\<rparr>)))"
  "rg_OnDeleted demo_registrar = Some (\<lambda>ex. State (\<lambda>w. ((), w\<lparr>cw_wiring := OnDeleted ex (cw_wiring w)\<rparr>)))"
  by (simp_all add: demo_reg_defs demo_workspace demo_build_def)

lemma demo_ToKro: "ToKro (demo_spec x) = (\<lparr>ks_schema = Some x, ks_resources = []\<rparr>, Map.empty)" "routed_ids (demo_spec x) = []"
  by (simp_all add: ToKro_def demo_spec_def routed_ids_def)

lemma demo_compile:
  assumes "reg_cache s = Some c" and "Cache_Get c ''p'' ''b'' h \<in> {None, Some (compiled x)}"
  shows "\<exists>c'. run_state (compile demo_registrar c ''b'' h \<lparr>ks_schema = Some x, ks_resources = []\<rparr>) s =
      (Inr (compiled x), s\<lparr>reg_cache := Some c'\<rparr>) \<and> (c' = c \<or> c' = Cache_Put c ''p'' ''b'' h (compiled x))"
proof (cases "Cache_Get c ''p'' ''b'' h")
  case None
  then show ?thesis using assms(1)
    by (intro exI [of _ "Cache_Put c ''p'' ''b'' h (compiled x)"]) (simp add: compile_def demo_registrar_simps demo_schema_def)
next
  case (Some g)
  then show ?thesis using assms by (intro exI [of _ c]) (simp add: compile_def demo_registrar_simps)
qed

definition demo_ars :: "string \<Rightarrow> api_resource_schema" where
  "demo_ars h = \<lparr>ars_name = ''v'' @ h @ ''.ws.e.org'', ars_group = ''e.org'', ars_plural = ''ws'', ars_kind = ''W''\<rparr>"

lemma demo_BuildARS: "BuildARS (rl_toARS demo_rlib) (compiled x) h = Inr (demo_ars h)"
  by (simp add: BuildARS_def compiled_def demo_rlib_def demo_ars_def)

lemma demo_applyARS:
  "\<exists>ss. run_state (applyARS kmem_client (demo_ars h)) (w :: demo_cworld) = (Inr (demo_ars h), w\<lparr>km_schemas := ss\<rparr>)"
proof (cases "kfind ars_name (km_schemas w) (ars_name (demo_ars h))")
  case None
  then show ?thesis by (auto simp: applyARS_def kmem_defs found_def not_found_def)
next
  case (Some a)
  then show ?thesis by (intro exI [of _ "km_schemas w"]) (simp add: applyARS_def kmem_defs found_def)
qed

lemma demo_upsert:
  "\<exists>es. run_state (UpsertAPIExport kmem_client n a cls) (w :: demo_cworld) = (None, w\<lparr>km_exports := es\<rparr>)"
  by (auto simp: UpsertAPIExport_def kmem_defs)

text \<open>What a pass announces, and how it ends with and without a conflict on the status.\<close>

definition conflict :: error where
  "conflict = Wrapped ''updating blueprint status: '' (StatusError ReasonConflict ''the object has been modified'')"

lemma demo_write_status_conflict:
  assumes "km_blueprints w = [demo_bp x st]" and "km_conflict w"
  shows "run_state (write_status demo_rlib demo_registrar (demo_bp x st) ex h) \<lparr>reg_cache = Some c, reg_world = w\<rparr> =
      (Returned 0 (Some conflict), \<lparr>reg_cache = Some c, reg_world = w\<lparr>km_conflict := False\<rparr>\<rparr>)"
  using assms by (auto simp: write_status_def demo_registrar_simps kmem_defs Let_def demo_rlib_def conflict_def
        set_conditions_def published_status_def demo_bp_def split: sum.splits)

lemma demo_write_status:
  assumes "km_blueprints w = [demo_bp x st]" and "\<not> km_conflict w"
  shows "\<exists>st'. run_state (write_status demo_rlib demo_registrar (demo_bp x st) ex h) \<lparr>reg_cache = Some c, reg_world = w\<rparr> =
      (Returned resyncInterval None, \<lparr>reg_cache = Some c, reg_world = w\<lparr>km_blueprints := [demo_bp x st']\<rparr>\<rparr>) \<and>
      bs_ExportedAPI st' = ex \<and> bs_ObservedSpecHash st' = h"
proof -
  obtain ih where ih: "(case found (kfind ex_name (km_exports w) ex) of Inl _ \<Rightarrow> '''' | Inr e \<Rightarrow> ex_identityHash e) = ih" by blast
  let ?cs = "\<lambda>cs. status_condition ''True'' ''Published'' (''published APIExport '' @ go_quote ex @ '' (specHash '' @ h @ '')'') #
     filter (\<lambda>d. cond_type d \<noteq> ''Ready'') cs"
  show ?thesis using assms
    by (intro exI [of _ "st\<lparr>bs_ExportedAPI := ex, bs_IdentityHash := ih, bs_ObservedSpecHash := h, bs_Conditions := ?cs (bs_Conditions st)\<rparr>"])
      (simp add: write_status_def demo_registrar_simps kmem_defs Let_def demo_rlib_def ih
        set_conditions_def published_status_def demo_bp_def, simp add: status_condition_def)
qed

abbreviation demo_announces :: "string \<Rightarrow> blueprint_status \<Rightarrow> wiring \<Rightarrow> wiring" where
  "demo_announces x st \<equiv> OnPublished ''ws.e.org'' (GVK ''e.org'' ''v1'' ''W'') (compiled x) Map.empty
     (bs_ObservedSpecHash st \<noteq> demo_hash x)"

lemma demo_pass:
  assumes "km_blueprints w = [demo_bp x st]" and "Cache_Get c ''p'' ''b'' (demo_hash x) \<in> {None, Some (compiled x)}"
  shows "\<exists>ss es c'. run_state (Registrar_Reconcile demo_rlib demo_registrar ''b'') \<lparr>reg_cache = Some c, reg_world = w\<rparr> =
      run_state (write_status demo_rlib demo_registrar (demo_bp x st) ''ws.e.org'' (demo_hash x))
        \<lparr>reg_cache = Some c', reg_world = w\<lparr>km_schemas := ss, km_exports := es, cw_wiring := demo_announces x st (cw_wiring w)\<rparr>\<rparr> \<and>
      (c' = c \<or> c' = Cache_Put c ''p'' ''b'' (demo_hash x) (compiled x))"
proof -
  let ?h = "demo_hash x" and ?s = "\<lparr>reg_cache = Some c, reg_world = w\<rparr>"
  obtain c' where c: "run_state (compile demo_registrar c ''b'' ?h \<lparr>ks_schema = Some x, ks_resources = []\<rparr>) ?s =
      (Inr (compiled x), ?s\<lparr>reg_cache := Some c'\<rparr>)" and c': "c' = c \<or> c' = Cache_Put c ''p'' ''b'' ?h (compiled x)"
    using demo_compile [of ?s c ?h x] assms(2) by auto
  obtain ss where a: "run_state (applyARS kmem_client (demo_ars ?h)) w = (Inr (demo_ars ?h), w\<lparr>km_schemas := ss\<rparr>)"
    using demo_applyARS by blast
  let ?w1 = "w\<lparr>km_schemas := ss\<rparr>"
  obtain i where i: "run_state (identityByGroupResource kmem_client) ?w1 = (Inr i, ?w1)"
    by (auto simp: identityByGroupResource_def kmem_defs)
  obtain cl where cl: "published_claims (compiled x) Map.empty i = Some cl" "validateClaims cl = None"
    using demo_claims by blast
  obtain es where u: "run_state (UpsertAPIExport kmem_client ''ws.e.org'' (demo_ars ?h) cl) ?w1 = (None, ?w1\<lparr>km_exports := es\<rparr>)"
    using demo_upsert by blast
  have ars: "ars_plural (demo_ars ?h) = ''ws''" "ars_group (demo_ars ?h) = ''e.org''" "ars_kind (demo_ars ?h) = ''W''"
    by (simp_all add: demo_ars_def)
  have get: "run_state (kc_get_blueprint kmem_client ''b'') w = (Inr (demo_bp x st), w)"
    using assms(1) by (simp add: kmem_client_def demo_bp_def found_def)
  have fin: "run_state (ensure_finalizer demo_registrar (demo_bp x st)) w = (Inr (demo_bp x st), w)"
    by (simp add: ensure_finalizer_def demo_bp_def)
  have bp: "bp_deletionTimestamp (demo_bp x st) = None" "bp_spec (demo_bp x st) = demo_spec x"
    "bp_name (demo_bp x st) = ''b''" "bp_status (demo_bp x st) = st" by (simp_all add: demo_bp_def)
  have vs: "crd_version_names (compiled x) = [''v1'']" by (simp add: crd_version_names_def compiled_def)
  have "run_state (Registrar_Reconcile demo_rlib demo_registrar ''b'') ?s =
      run_state (write_status demo_rlib demo_registrar (demo_bp x st) ''ws.e.org'' ?h)
        \<lparr>reg_cache = Some c', reg_world = w\<lparr>km_schemas := ss, km_exports := es, cw_wiring := demo_announces x st (cw_wiring w)\<rparr>\<rparr>"
    using c u
    by (simp add: Registrar_Reconcile_def demo_registrar_simps get fin bp publish_def or_fail_def SpecHash_demo demo_ToKro
        publish_graph_def Let_def demo_BuildARS a i cl as_result_def announce_def vs ars demo_rlib_def [THEN arg_cong [where f = rl_range], simplified])
  then show ?thesis using c' by blast
qed

section \<open>Witnesses\<close>

definition no_status :: blueprint_status where
  "no_status = \<lparr>bs_ExportedAPI = '''', bs_IdentityHash = '''', bs_ObservedSpecHash = '''', bs_Conditions = []\<rparr>"

definition demo_world0 :: demo_cworld where
  "demo_world0 = \<lparr>km_blueprints = [demo_bp ''A'' no_status], km_schemas = [], km_exports = [], km_bindings = [],
     km_conflict = False, cw_wiring = wi_init\<rparr>"

definition demo_state :: "demo_cworld rstate" where
  "demo_state = \<lparr>reg_cache = Some NewGraphCache, reg_world = demo_world0\<rparr>"

definition demo_next :: "demo_cworld rstate" where
  "demo_next = snd (run_state (Registrar_Reconcile demo_rlib demo_registrar ''b'') demo_state)"

lemma New_Get [simp]: "Cache_Get NewGraphCache ws n h = None"
  by (simp add: Cache_Get_def NewGraphCache_def)

lemma demo_run_publish:
  "run_state (Registrar_Reconcile demo_rlib demo_registrar ''b'') demo_state = (Returned resyncInterval None, demo_next)"
proof -
  have bp: "km_blueprints demo_world0 = [demo_bp ''A'' no_status]" by (simp add: demo_world0_def)
  obtain ss es c' where p: "run_state (Registrar_Reconcile demo_rlib demo_registrar ''b'') demo_state =
      run_state (write_status demo_rlib demo_registrar (demo_bp ''A'' no_status) ''ws.e.org'' (demo_hash ''A''))
        \<lparr>reg_cache = Some c', reg_world = demo_world0\<lparr>km_schemas := ss, km_exports := es,
           cw_wiring := demo_announces ''A'' no_status (cw_wiring demo_world0)\<rparr>\<rparr>"
    using demo_pass [OF bp, of NewGraphCache] by (auto simp: demo_state_def)
  let ?w = "demo_world0\<lparr>km_schemas := ss, km_exports := es, cw_wiring := demo_announces ''A'' no_status (cw_wiring demo_world0)\<rparr>"
  have "km_blueprints ?w = [demo_bp ''A'' no_status]" "\<not> km_conflict ?w" by (simp_all add: demo_world0_def)
  from demo_write_status [OF this, of "''ws.e.org''" "demo_hash ''A''" c'] p show ?thesis
    unfolding demo_next_def by auto
qed

lemma demo_stored: "pl_blueprints (kmem_view (reg_world demo_state)) ''b'' = Some (demo_bp ''A'' no_status)"
  by (simp add: demo_state_def kmem_view_def demo_world0_def demo_bp_def)

lemma demo_coherent: "coherent demo_rlib demo_built (rg_Workspace demo_registrar) demo_state"
  by (simp add: coherent_def demo_state_def)

lemma demo_live: "bp_deletionTimestamp (demo_bp x st) = None" "CHR ''|'' \<notin> set ''b''"
  by (simp_all add: demo_bp_def)

theorem Registrar_publishes_witness:
  "\<exists>h ex. shows_published (kmem_view (reg_world demo_next)) ''b'' ex h \<and> pl_exports (kmem_view (reg_world demo_next)) ex \<noteq> None"
  using Registrar_publishes [OF demo_reg.registrar_run_axioms demo_run_publish demo_stored demo_live demo_coherent] by fast

theorem Registrar_cache_coherent_witness:
  "coherent demo_rlib demo_built (rg_Workspace demo_registrar) demo_next"
  by (rule Registrar_cache_coherent [OF demo_reg.registrar_run_axioms demo_run_publish demo_live(2) demo_coherent])

theorem Registrar_needs_foreign_node_witness:
  "\<exists>c g routing nd. reg_cache demo_next = Some c \<and> Cache_Get c (rg_Workspace demo_registrar) ''b'' (demo_hash ''A'') = Some g \<and>
     routes (demo_spec ''A'') routing \<and> nd \<in> set (g_nodes g) \<and> TargetForNode (nd_id nd) routing = TargetConsumer \<and>
     GroupResource (nd_gvr nd) \<noteq> GroupResource (g_instance_gvr g)"
  using Registrar_needs_foreign_node [OF demo_reg.registrar_run_axioms demo_run_publish demo_stored demo_live demo_coherent]
  by (auto simp: demo_bp_def SpecHash_demo)

theorem Registrar_schemas_immutable_witness:
  "pl_schemas (kmem_view (reg_world demo_state)) \<subseteq>\<^sub>m pl_schemas (kmem_view (reg_world demo_next))"
  using Registrar_schemas_immutable [OF demo_reg.registrar_run_axioms demo_run_publish demo_stored demo_live(1)] by blast


theorem Registrar_publishes_only_valid_witness:
  "\<exists>m b. pl_exports (kmem_view (reg_world demo_next)) m \<noteq> None \<and> pl_blueprints (kmem_view (reg_world demo_next)) ''b'' = Some b \<and>
     blueprintFinalizer \<in> set (bp_finalizers b)"
proof -
  obtain m where m: "pl_exports (kmem_view (reg_world demo_next)) m \<noteq> None"
    using demo_reg.Reconcile_publishes_run [OF demo_run_publish demo_stored demo_live demo_coherent] by fast
  then have "pl_exports (kmem_view (reg_world demo_next)) m \<noteq> pl_exports (kmem_view (reg_world demo_state)) m"
    by (simp add: demo_state_def demo_world0_def kmem_view_def)
  from Registrar_publishes_only_valid [OF demo_reg.registrar_run_axioms demo_run_publish demo_stored demo_live demo_coherent this] m
  show ?thesis by blast
qed

text \<open>A deleted blueprint with its export and schema still in place.\<close>

definition deleted_bp :: "(string, unit) blueprint" where
  "deleted_bp = (demo_bp ''A'' (no_status\<lparr>bs_ExportedAPI := ''ws.e.org''\<rparr>))\<lparr>bp_deletionTimestamp := Some 1\<rparr>"

definition withdrawn_state :: "demo_cworld rstate" where
  "withdrawn_state = \<lparr>reg_cache = Some NewGraphCache, reg_world = demo_world0\<lparr>km_blueprints := [deleted_bp],
     km_schemas := [demo_ars ''0''], km_exports := [export_of ''ws.e.org'' (demo_ars ''0'') []]\<rparr>\<rparr>"

lemma demo_run_withdraw:
  "\<exists>s'. run_state (Registrar_Reconcile demo_rlib demo_registrar ''b'') withdrawn_state = (Returned 0 None, s')"
  by (simp add: Registrar_Reconcile_def demo_registrar_simps withdrawn_state_def demo_world0_def deleted_bp_def demo_bp_def
      no_status_def withdraw_def DeletePublishedAPI_def release_finalizer_def kmem_defs export_of_def demo_ars_def Let_def found_def
      IgnoreNotFound_def not_found_def kdel_def removeString_def)

theorem Registrar_withdraws_witness:
  "\<exists>s'. run_state (Registrar_Reconcile demo_rlib demo_registrar ''b'') withdrawn_state = (Returned 0 None, s') \<and>
     pl_exports (kmem_view (reg_world s')) ''ws.e.org'' = None \<and> pl_schemas (kmem_view (reg_world s')) ''v0.ws.e.org'' = None"
proof -
  obtain s' where run: "run_state (Registrar_Reconcile demo_rlib demo_registrar ''b'') withdrawn_state = (Returned 0 None, s')"
    using demo_run_withdraw by blast
  let ?ex = "export_of ''ws.e.org'' (demo_ars ''0'') []"
  have st: "pl_blueprints (kmem_view (reg_world withdrawn_state)) ''b'' = Some deleted_bp"
    "pl_exports (kmem_view (reg_world withdrawn_state)) ''ws.e.org'' = Some ?ex"
    by (simp_all add: withdrawn_state_def kmem_view_def deleted_bp_def demo_bp_def export_of_def)
  have bp: "bp_deletionTimestamp deleted_bp \<noteq> None" "blueprintFinalizer \<in> set (bp_finalizers deleted_bp)"
    "bs_ExportedAPI (bp_status deleted_bp) = ''ws.e.org''"
    by (simp_all add: deleted_bp_def demo_bp_def no_status_def)
  have "rs_schema ` set (ex_resources ?ex) = {''v0.ws.e.org''}" by (simp add: export_of_def demo_ars_def)
  with Registrar_withdraws [OF demo_reg.registrar_run_axioms run st(1) bp _ st(2)] run show ?thesis by (auto simp: domIff)
qed

theorem Registrar_serves_witness:
  "\<exists>ex h. shows_published (kmem_view (reg_world demo_next)) ''b'' ex h \<and> Running (wi_sup (cw_wiring (reg_world demo_next))) ex \<and>
     published_Get (wi_registry (cw_wiring (reg_world demo_next))) ex \<noteq> None"
  using Registrar_serves [OF demo_serving.serving_axioms, folded demo_registrar_def,
      OF demo_run_publish demo_stored demo_live demo_coherent] by fast

text \<open>The same deleted blueprint while its manager runs.\<close>

definition serving_state :: "demo_cworld rstate" where
  "serving_state = withdrawn_state\<lparr>reg_world := (reg_world withdrawn_state)\<lparr>cw_wiring := demo_announces ''A'' no_status wi_init\<rparr>\<rparr>"

lemma demo_run_unserve:
  "\<exists>s'. run_state (Registrar_Reconcile demo_rlib demo_registrar ''b'') serving_state = (Returned 0 None, s')"
  by (simp add: serving_state_def Registrar_Reconcile_def demo_registrar_simps withdrawn_state_def demo_world0_def deleted_bp_def demo_bp_def
      no_status_def withdraw_def DeletePublishedAPI_def release_finalizer_def kmem_defs export_of_def demo_ars_def Let_def found_def
      IgnoreNotFound_def not_found_def kdel_def removeString_def)

theorem Registrar_unserves_witness:
  "Running (wi_sup (cw_wiring (reg_world serving_state))) ''ws.e.org'' \<and>
   (\<exists>s'. run_state (Registrar_Reconcile demo_rlib demo_registrar ''b'') serving_state = (Returned 0 None, s') \<and>
      \<not> Running (wi_sup (cw_wiring (reg_world s'))) ''ws.e.org'' \<and> published_Get (wi_registry (cw_wiring (reg_world s'))) ''ws.e.org'' = None)"
proof -
  obtain s' where run: "run_state (Registrar_Reconcile demo_rlib demo_registrar ''b'') serving_state = (Returned 0 None, s')"
    using demo_run_unserve by blast
  have st: "pl_blueprints (kmem_view (reg_world serving_state)) ''b'' = Some deleted_bp"
    by (simp add: serving_state_def withdrawn_state_def kmem_view_def deleted_bp_def demo_bp_def)
  have bp: "bp_deletionTimestamp deleted_bp \<noteq> None" "blueprintFinalizer \<in> set (bp_finalizers deleted_bp)"
    "bs_ExportedAPI (bp_status deleted_bp) = ''ws.e.org''"
    by (simp_all add: deleted_bp_def demo_bp_def no_status_def)
  have "Running (wi_sup (cw_wiring (reg_world serving_state))) ''ws.e.org''"
    by (simp add: serving_state_def OnPublished_effect(2))
  then show ?thesis
    using Registrar_unserves [OF demo_serving.serving_axioms, folded demo_registrar_def, OF run st bp] run by auto
qed

section \<open>A stale manager\<close>

text \<open>The start function of goroutine \<open>e\<close> reads the registry for the export.\<close>

definition read_registry :: "nat \<Rightarrow> string \<Rightarrow> demo_cworld rstate \<Rightarrow> demo_cworld rstate" where
  "read_registry e n s = s\<lparr>reg_world := (reg_world s)\<lparr>cw_wiring := (cw_wiring (reg_world s))\<lparr>wi_serving :=
     (wi_serving (cw_wiring (reg_world s)))(e := published_Get (wi_registry (cw_wiring (reg_world s))) n)\<rparr>\<rparr>\<rparr>"

text \<open>The provider edits the blueprint's spec; \<open>cf\<close>: the next status update will meet a conflict.\<close>

definition edit :: "string \<Rightarrow> bool \<Rightarrow> demo_cworld rstate \<Rightarrow> demo_cworld rstate" where
  "edit x cf s = s\<lparr>reg_world := (reg_world s)\<lparr>km_blueprints := map (\<lambda>b. b\<lparr>bp_spec := demo_spec x\<rparr>) (km_blueprints (reg_world s)),
     km_conflict := cf\<rparr>\<rparr>"

definition pass_b :: "demo_cworld rstate \<Rightarrow> demo_cworld rstate" where
  "pass_b s = snd (run_state (Registrar_Reconcile demo_rlib demo_registrar ''b'') s)"

text \<open>Publish A and serve it; edit to B and publish, but the status update conflicts; serve B; edit back to A and publish.\<close>

definition stale_history :: "demo_cworld rstate" where
  "stale_history = pass_b (edit ''A'' False (read_registry 1 ''ws.e.org'' (pass_b (edit ''B'' True
     (read_registry 0 ''ws.e.org'' (pass_b demo_state))))))"


text \<open>What the passes do to the parts that matter.\<close>

definition situation :: "demo_cworld rstate \<Rightarrow> graph_cache \<Rightarrow> string \<Rightarrow> blueprint_status \<Rightarrow> bool \<Rightarrow> wiring \<Rightarrow> bool" where
  "situation s c x st cf wi \<longleftrightarrow> reg_cache s = Some c \<and> km_blueprints (reg_world s) = [demo_bp x st] \<and>
     km_conflict (reg_world s) = cf \<and> cw_wiring (reg_world s) = wi"

lemma pass_b_situation:
  assumes "situation s c x st cf wi" and "Cache_Get c ''p'' ''b'' (demo_hash x) \<in> {None, Some (compiled x)}"
  shows "\<exists>c' st'. situation (pass_b s) c' x st' False (demo_announces x st wi) \<and>
    (c' = c \<or> c' = Cache_Put c ''p'' ''b'' (demo_hash x) (compiled x)) \<and>
    (if cf then st' = st else bs_ObservedSpecHash st' = demo_hash x \<and>
       fst (run_state (Registrar_Reconcile demo_rlib demo_registrar ''b'') s) = Returned resyncInterval None)"
proof -
  obtain w where s: "s = \<lparr>reg_cache = Some c, reg_world = w\<rparr>" and w: "km_blueprints w = [demo_bp x st]"
    "km_conflict w = cf" "cw_wiring w = wi"
    using assms(1) by (cases s) (auto simp: situation_def)
  obtain ss es c' where p: "run_state (Registrar_Reconcile demo_rlib demo_registrar ''b'') s =
      run_state (write_status demo_rlib demo_registrar (demo_bp x st) ''ws.e.org'' (demo_hash x))
        \<lparr>reg_cache = Some c', reg_world = w\<lparr>km_schemas := ss, km_exports := es, cw_wiring := demo_announces x st wi\<rparr>\<rparr>"
    and c': "c' = c \<or> c' = Cache_Put c ''p'' ''b'' (demo_hash x) (compiled x)"
    using demo_pass [OF w(1) assms(2)] by (auto simp: s w(3))
  let ?w = "w\<lparr>km_schemas := ss, km_exports := es, cw_wiring := demo_announces x st wi\<rparr>"
  have b: "km_blueprints ?w = [demo_bp x st]" using w(1) by simp
  show ?thesis
  proof (cases cf)
    case True
    then show ?thesis
      using demo_write_status_conflict [OF b, of "''ws.e.org''" "demo_hash x" c'] p c' w
      by (intro exI [of _ c'] exI [of _ st]) (simp add: pass_b_def situation_def)
  next
    case False
    then obtain st' where "run_state (write_status demo_rlib demo_registrar (demo_bp x st) ''ws.e.org'' (demo_hash x))
        \<lparr>reg_cache = Some c', reg_world = ?w\<rparr> = (Returned resyncInterval None,
         \<lparr>reg_cache = Some c', reg_world = ?w\<lparr>km_blueprints := [demo_bp x st']\<rparr>\<rparr>)" "bs_ObservedSpecHash st' = demo_hash x"
      using demo_write_status [OF b, of "''ws.e.org''" "demo_hash x" c'] w(2) by auto
    then show ?thesis using p c' w False
      by (intro exI [of _ c'] exI [of _ st']) (simp add: pass_b_def situation_def)
  qed
qed

definition demo_reads :: "nat \<Rightarrow> wiring \<Rightarrow> wiring" where
  "demo_reads e wi = wi\<lparr>wi_serving := (wi_serving wi)(e := published_Get (wi_registry wi) ''ws.e.org'')\<rparr>"

lemmas demo_wiring = demo_reads_def OnPublished_def Let_def wi_init_def published_defs Ensure_def Stop_def Stop_locked_def cancel_def New_def
  demo_served_def

lemma situation_read: "situation s c x st cf wi \<Longrightarrow> situation (read_registry e ''ws.e.org'' s) c x st cf (demo_reads e wi)"
  by (simp add: situation_def read_registry_def demo_reads_def)

lemma situation_edit: "situation s c x st cf wi \<Longrightarrow> situation (edit y cf' s) c y st cf' wi"
  by (simp add: situation_def edit_def demo_bp_def)

lemma Get_Put_same: "Cache_Get (Cache_Put c ws n h g) ws n h' = (if h' = h then Some g else None)"
  by (simp add: cache_defs)

lemma situation_start: "situation demo_state NewGraphCache ''A'' no_status False wi_init"
  by (simp add: situation_def demo_state_def demo_world0_def)

text \<open>Both histories begin with the publication of A and its manager reading the registry.\<close>

abbreviation demo_first :: wiring where
  "demo_first \<equiv> demo_reads 0 (demo_announces ''A'' no_status wi_init)"

lemma first_pass:
  obtains c st where "situation (read_registry 0 ''ws.e.org'' (pass_b demo_state)) c ''A'' st False demo_first"
    "situation (pass_b demo_state) c ''A'' st False (demo_announces ''A'' no_status wi_init)"
    "bs_ObservedSpecHash st = demo_hash ''A''" "c = NewGraphCache \<or> c = Cache_Put NewGraphCache ''p'' ''b'' (demo_hash ''A'') (compiled ''A'')"
    "Cache_Get c ''p'' ''b'' (demo_hash ''B'') \<in> {None, Some (compiled ''B'')}"
proof -
  obtain c st where s: "situation (pass_b demo_state) c ''A'' st False (demo_announces ''A'' no_status wi_init)"
    and c: "c = NewGraphCache \<or> c = Cache_Put NewGraphCache ''p'' ''b'' (demo_hash ''A'') (compiled ''A'')"
    and st: "bs_ObservedSpecHash st = demo_hash ''A''"
    using pass_b_situation [OF situation_start] by auto
  moreover have "Cache_Get c ''p'' ''b'' (demo_hash ''B'') \<in> {None, Some (compiled ''B'')}"
    using c demo_hash_differs by (auto simp: Get_Put_same)
  ultimately show thesis using that situation_read [OF s] by blast
qed

text \<open>
  C18. A lost status update leaves a stale manager behind. In the history that publishes A, publishes B but fails to record it in the
  status, and publishes A again after the edit was reverted, the registrar compares with the hash in the
  status, takes the last publication for unchanged and does not restart the manager: the registry holds A,
  and the tracked, unstopped manager serves B.
\<close>

theorem stale_manager:
  "let wi = cw_wiring (reg_world stale_history) in
   published_Get (wi_registry wi) ''ws.e.org'' = Some (demo_served ''A'') \<and>
   sv_running (wi_sup wi) ''ws.e.org'' = Some 1 \<and> wi_serving wi 1 = Some (demo_served ''B'') \<and>
   (\<exists>p. sv_goroutines (wi_sup wi) 1 = Some p \<and> \<not> go_cancelled p \<and> \<not> go_returned p)"
proof -
  note ne = demo_hash_differs
  obtain c1 st1 where s1: "situation (read_registry 0 ''ws.e.org'' (pass_b demo_state)) c1 ''A'' st1 False demo_first"
    and c1: "bs_ObservedSpecHash st1 = demo_hash ''A''" "c1 = NewGraphCache \<or> c1 = Cache_Put NewGraphCache ''p'' ''b'' (demo_hash ''A'') (compiled ''A'')"
      "Cache_Get c1 ''p'' ''b'' (demo_hash ''B'') \<in> {None, Some (compiled ''B'')}"
    by (rule first_pass)
  obtain c2 where c2: "c2 = c1 \<or> c2 = Cache_Put c1 ''p'' ''b'' (demo_hash ''B'') (compiled ''B'')"
    and s2: "situation (pass_b (edit ''B'' True (read_registry 0 ''ws.e.org'' (pass_b demo_state)))) c2 ''B'' st1 False
      (demo_announces ''B'' st1 demo_first)"
    using pass_b_situation [OF situation_edit [OF s1, of _ True] c1(3)] by auto
  have get: "Cache_Get c2 ''p'' ''b'' (demo_hash ''A'') \<in> {None, Some (compiled ''A'')}" using c1(2) c2 ne by (auto simp: Get_Put_same)
  have wi: "cw_wiring (reg_world stale_history) = demo_announces ''A'' st1 (demo_reads 1 (demo_announces ''B'' st1 demo_first))"
    using pass_b_situation [OF situation_edit [OF situation_read [OF s2]] get] unfolding stale_history_def by (auto simp: situation_def)
  show ?thesis unfolding wi using ne c1(1) by (simp add: demo_wiring)
qed

section \<open>A fresh manager\<close>

text \<open>The two specs have different hashes and the builder knows one blueprint, so that the hash comparison is sound on them.\<close>

definition demo_specs :: "(string, unit) rgd_spec set" where
  "demo_specs = {demo_spec ''A'', demo_spec ''B''}"

lemma demo_spec_eq [simp]: "demo_spec x = demo_spec y \<longleftrightarrow> x = y"
  by (simp add: demo_spec_def)

lemma demo_SpecHash_within:
  "SpecHash (rl_Marshal (within demo_specs demo_rlib)) spec = Inr h \<longleftrightarrow> (\<exists>x \<in> {''A'', ''B''}. spec = demo_spec x \<and> h = demo_hash x)"
proof (cases "spec \<in> demo_specs")
  case True
  then show ?thesis by (auto simp: demo_specs_def SpecHash_demo)
next
  case False
  then show ?thesis by (auto simp: within_def SpecHash_def demo_specs_def)
qed

interpretation demo_fresh: fresh "\<lambda>f w. w\<lparr>cw_wiring := f (cw_wiring w)\<rparr>" kmem_client "''https://kcp/clusters/p''"
  "\<lambda>n ks cfg. ret (demo_build n ks)" kmem_view "within demo_specs demo_rlib" demo_built cw_wiring
proof (rule fresh.intro [OF demo_serving.serving_within], unfold_locales, goal_cases)
  case (1 bp w rb w' b')
  then show ?case by (auto simp: kmem_rules split: option.splits if_splits)
next
  case (2 bp w rb w' b')
  then show ?case by (auto simp: kmem_rules split: option.splits if_splits dest: kfind_key)
next
  case (4 spec h spec')
  then show ?case using demo_hash_differs by (auto simp: demo_SpecHash_within)
qed (auto simp: demo_built_def serves_api_def)

definition fresh_history :: "demo_cworld rstate" where
  "fresh_history = read_registry 1 ''ws.e.org'' (pass_b (edit ''B'' False (read_registry 0 ''ws.e.org'' (pass_b demo_state))))"

abbreviation demo_reachable :: "demo_cworld rstate \<Rightarrow> bool" where
  "demo_reachable \<equiv> sys_reachable demo_rlib demo_registrar kmem_view cw_wiring demo_specs (\<lambda>_. True)"

lemma demo_view: "situation s c x st cf wi \<Longrightarrow> pl_blueprints (kmem_view (reg_world s)) m = (if m = ''b'' then Some (demo_bp x st) else None)"
  by (auto simp: situation_def kmem_view_def demo_bp_def)

lemma reach_pass:
  assumes "demo_reachable s" and "situation s c x st False wi" and "Cache_Get c ''p'' ''b'' (demo_hash x) \<in> {None, Some (compiled x)}"
  shows "demo_reachable (pass_b s)"
proof -
  have "run_state (Registrar_Reconcile demo_rlib demo_registrar ''b'') s = (Returned resyncInterval None, pass_b s)"
    using pass_b_situation [OF assms(2,3)] by (auto simp: pass_b_def prod_eq_iff)
  from sys_step.passes [OF this] show ?thesis using sys_reachable.steps [OF assms(1)] by simp
qed

lemma reach_edit:
  assumes "demo_reachable s" and "situation s c x st cf wi" and "y \<in> {''A'', ''B''}"
  shows "demo_reachable (edit y cf' s)"
  by (rule sys_reachable.steps [OF assms(1) sys_step.edits])
    (use demo_view [OF assms(2)] demo_view [OF situation_edit [OF assms(2)]] assms(3) in
      \<open>auto simp: edit_def demo_specs_def demo_bp_def split: if_splits\<close>)

lemma reach_read:
  assumes "demo_reachable s" and "sv_goroutines (wi_sup (cw_wiring (reg_world s))) e = Some p" and "\<not> go_returned p" and "go_export p = n"
    and "wi_serving (cw_wiring (reg_world s)) e = None" and "published_Get (wi_registry (cw_wiring (reg_world s))) n = Some sb"
  shows "demo_reachable (read_registry e n s)"
  by (rule sys_reachable.steps [OF assms(1) sys_step.manages])
    (use wi_step.reads [OF assms(2,3,5)] assms(4,6) in \<open>simp_all add: read_registry_def kmem_view_def\<close>)

lemma fresh_history_reachable:
  "\<exists>c st st1. demo_reachable fresh_history \<and> bs_ObservedSpecHash st = demo_hash ''B'' \<and> bs_ObservedSpecHash st1 = demo_hash ''A'' \<and>
     situation fresh_history c ''B'' st False (demo_reads 1 (demo_announces ''B'' st1 demo_first))"
proof -
  let ?g = "\<lparr>go_export = ''ws.e.org'', go_cancelled = False, go_returned = False\<rparr>"
  have r0: "demo_reachable demo_state"
    by (rule sys_reachable.begins)
      (use situation_start demo_view [OF situation_start] in \<open>auto simp: situation_def demo_specs_def demo_bp_def split: if_splits\<close>)
  obtain c1 st1 where s1: "situation (read_registry 0 ''ws.e.org'' (pass_b demo_state)) c1 ''A'' st1 False demo_first"
      "situation (pass_b demo_state) c1 ''A'' st1 False (demo_announces ''A'' no_status wi_init)"
    and c1: "bs_ObservedSpecHash st1 = demo_hash ''A''" "Cache_Get c1 ''p'' ''b'' (demo_hash ''B'') \<in> {None, Some (compiled ''B'')}"
    by (rule first_pass)
  have r1: "demo_reachable (pass_b demo_state)" by (rule reach_pass [OF r0 situation_start]) simp
  have r1': "demo_reachable (read_registry 0 ''ws.e.org'' (pass_b demo_state))"
    by (rule reach_read [OF r1, of 0 ?g _ "demo_served ''A''"]) (use s1(2) in \<open>simp_all add: situation_def demo_wiring no_status_def\<close>)
  let ?s2 = "edit ''B'' False (read_registry 0 ''ws.e.org'' (pass_b demo_state))"
  have s2: "situation ?s2 c1 ''B'' st1 False demo_first" by (rule situation_edit [OF s1(1)])
  have r2: "demo_reachable ?s2" by (rule reach_edit [OF r1' s1(1)]) simp
  obtain c3 st3 where s3: "situation (pass_b ?s2) c3 ''B'' st3 False (demo_announces ''B'' st1 demo_first)"
    and st3: "bs_ObservedSpecHash st3 = demo_hash ''B''"
    using pass_b_situation [OF s2 c1(2)] by auto
  have r3: "demo_reachable (pass_b ?s2)" by (rule reach_pass [OF r2 s2 c1(2)])
  have "demo_reachable fresh_history"
    unfolding fresh_history_def
    by (rule reach_read [OF r3, of 1 ?g _ "demo_served ''B''"])
      (use s3 c1(1) demo_hash_differs in \<open>simp_all add: situation_def demo_wiring no_status_def\<close>)
  moreover have "situation fresh_history c3 ''B'' st3 False (demo_reads 1 (demo_announces ''B'' st1 demo_first))"
    unfolding fresh_history_def by (rule situation_read [OF s3])
  ultimately show ?thesis using c1(1) st3 by blast
qed

lemma demo_serves: "serves_api (within demo_specs demo_rlib) demo_built ''b'' (demo_hash ''B'') (demo_served ''B'') ''ws.e.org''"
  unfolding serves_api_def
  by (intro exI [of _ "demo_spec ''B''"] exI [of _ "compiled ''B''"] exI [of _ Map.empty] exI [of _ "demo_ars (demo_hash ''B'')"]
      exI [of _ "''v1''"] exI [of _ "[]"])
    (simp add: demo_SpecHash_within demo_built_def demo_ToKro demo_schema_def routes_def demo_BuildARS demo_served_def,
      simp add: crd_version_names_def compiled_def demo_ars_def)

theorem managers_are_fresh_witness:
  "\<exists>sb. wi_serving (cw_wiring (reg_world fresh_history)) 1 = Some sb \<and> sb = demo_served ''B'' \<and>
     published_Get (wi_registry (cw_wiring (reg_world fresh_history))) ''ws.e.org'' = Some sb"
proof -
  obtain c st st1 where h: "demo_reachable fresh_history" "bs_ObservedSpecHash st = demo_hash ''B''" "bs_ObservedSpecHash st1 = demo_hash ''A''"
    "situation fresh_history c ''B'' st False (demo_reads 1 (demo_announces ''B'' st1 demo_first))"
    using fresh_history_reachable by blast
  then obtain sb where sv: "sv_running (wi_sup (cw_wiring (reg_world fresh_history))) ''ws.e.org'' = Some 1"
    "wi_serving (cw_wiring (reg_world fresh_history)) 1 = Some sb"
    using demo_hash_differs by (auto simp: situation_def demo_wiring no_status_def)
  have fr: "fresh (\<lambda>f w. w\<lparr>cw_wiring := f (cw_wiring w)\<rparr>) kmem_client ''https://kcp/clusters/p'' (only_in (\<lambda>_. True) (\<lambda>n ks cfg. ret (demo_build n ks)))
      kmem_view (within demo_specs demo_rlib) demo_built cw_wiring" using demo_fresh.fresh_axioms by simp
  note f = managers_are_fresh [OF fr keepsI keepsI, folded demo_registrar_def, OF TrueI TrueI h(1) sv]
  have "pl_blueprints (kmem_view (reg_world fresh_history)) ''b'' = Some (demo_bp ''B'' st)" using demo_view [OF h(4)] by simp
  moreover have "observed (demo_bp ''B'' st) = demo_hash ''B''" using h(2) by (simp add: demo_bp_def)
  ultimately have "sb = demo_served ''B''" using f demo_serves by metis
  then show ?thesis using f sv by blast
qed

end
