(* ===== verification/Run.thy ===== *)
theory Run
  imports Serving
begin

text \<open>
  The start of the controller: \<^verbatim>\<open>run\<close> and \<^verbatim>\<open>main\<close> of \<^verbatim>\<open>src/cmd/controller/main.go\<close> and the registration of the blueprint
  types in \<^verbatim>\<open>src/api/v1alpha1/groupversion_info.go\<close>. Flags, configuration, schemes, clients and the manager are
  library code: \<open>main_lib\<close> holds what \<^verbatim>\<open>run\<close> calls of them, with the values it passes. Logging and the signal
  handler are left out.
\<close>

section \<open>API registration\<close>

datatype group_version = GV (gv_group: string) (gv_version: string)

definition GroupVersion :: group_version where
  "GroupVersion = GV ''krop.opendefense.cloud'' ''v1alpha1''"

text \<open>
  A \<^verbatim>\<open>runtime.Scheme\<close> is of the unknown type \<open>'s\<close>. \<open>AddKnownTypes\<close> registers Go types, given here by their names, which
  become the kinds; \<open>AddToGroupVersion\<close> adds the meta types; \<open>Build\<close> is \<^verbatim>\<open>SchemeBuilder.AddToScheme\<close> for a
  list of registration functions.
\<close>

definition addKnownTypes :: "(group_version \<Rightarrow> string list \<Rightarrow> 's \<Rightarrow> 's) \<Rightarrow> (group_version \<Rightarrow> 's \<Rightarrow> 's) \<Rightarrow> 's add" where
  "addKnownTypes AddKnownTypes AddToGroupVersion scheme =
     Inr (AddToGroupVersion GroupVersion
       (AddKnownTypes GroupVersion [''ResourceGraphDefinition'', ''ResourceGraphDefinitionList''] scheme))"

definition AddToScheme :: "('s add list \<Rightarrow> 's add) \<Rightarrow> (group_version \<Rightarrow> string list \<Rightarrow> 's \<Rightarrow> 's) \<Rightarrow>
    (group_version \<Rightarrow> 's \<Rightarrow> 's) \<Rightarrow> 's add" where
  "AddToScheme Build AddKnownTypes AddToGroupVersion = Build [addKnownTypes AddKnownTypes AddToGroupVersion]"

section \<open>Options\<close>

record options =
  opt_healthProbeAddr :: string
  opt_metricsAddr :: string
  opt_leaderElect :: bool
  opt_leaderElectNamespace :: string
  opt_hostKubeconfig :: string

definition default_options :: "(string \<Rightarrow> string) \<Rightarrow> options" where
  "default_options Getenv =
     \<lparr>opt_healthProbeAddr = '':8081'', opt_metricsAddr = '':8080'', opt_leaderElect = False,
      opt_leaderElectNamespace = podNamespace Getenv, opt_hostKubeconfig = ''''\<rparr>"

section \<open>Library calls\<close>

record 's manager_options =
  mo_Scheme :: 's
  mo_HealthProbeBindAddress :: string
  mo_MetricsBindAddress :: string
  mo_LeaderElection :: bool
  mo_LeaderElectionID :: string
  mo_LeaderElectionNamespace :: string

text \<open>
  The provider client is one value for all types; the code uses it on unstructured objects, on the registrar's
  types and to list endpoint slices.
\<close>

record ('u, 'c, 'k, 'w) provider_client =
  pv_objects :: "'w client"
  pv_typed :: "('u, 'c, 'k, 'w) kcp_client"
  pv_slices :: "('w, error + endpoint_slice list) state"

text \<open>The manager: health checks, the builder's \<^verbatim>\<open>Complete\<close> with a controller name and handler, runnables, start.\<close>

record ('h, 'w) provider_manager =
  pm_AddHealthzCheck :: "string \<Rightarrow> ('w, error option) state"
  pm_AddReadyzCheck :: "string \<Rightarrow> ('w, error option) state"
  pm_Complete :: "string \<Rightarrow> 'h \<Rightarrow> ('w, error option) state"
  pm_Add :: "'w sweeper \<Rightarrow> ('w, error option) state"
  pm_Start :: "('w, error option) state"

text \<open>
  \<open>ma_Parse\<close> is \<^verbatim>\<open>flag.Parse\<close> on the registered defaults, with the exit code if it ends the process; \<open>ma_GetConfig\<close> is
  \<^verbatim>\<open>GetConfigOrDie\<close>, \<open>None\<close> if it does; \<open>ma_Supervise\<close> gives the supervisor's goroutines their start function; \<open>ma_Wiring\<close>
  updates the registry and the supervisor, which live in the world.
\<close>

record ('u, 'c, 'k, 's, 'cfg, 'http, 'b, 'rt, 'w) main_lib =
  ma_Getenv :: "string \<Rightarrow> string"
  ma_Parse :: "options \<Rightarrow> nat + options"
  ma_GetConfig :: "'cfg option"
  ma_Host :: "'cfg \<Rightarrow> string"
  ma_NewScheme :: 's
  ma_clientgo_AddToScheme :: "'s add"
  ma_apisv1alpha1_AddToScheme :: "'s add"
  ma_apisv1alpha2_AddToScheme :: "'s add"
  ma_SchemeBuild :: "'s add list \<Rightarrow> 's add"
  ma_AddKnownTypes :: "group_version \<Rightarrow> string list \<Rightarrow> 's \<Rightarrow> 's"
  ma_AddToGroupVersion :: "group_version \<Rightarrow> 's \<Rightarrow> 's"
  ma_NewManager :: "'cfg \<Rightarrow> 's manager_options \<Rightarrow>
    ('w, error + (string \<Rightarrow> ('w rstate, outcome) state, 'w) provider_manager) state"
  ma_client_New :: "'cfg \<Rightarrow> 's \<Rightarrow> error + ('u, 'c, 'k, 'w) provider_client"
  ma_host_New :: "'cfg \<Rightarrow> 's \<Rightarrow> error + 'w client"
  ma_BuildConfigFromFlags :: "string \<Rightarrow> error + 'cfg"
  ma_InClusterConfig :: "error + 'cfg"
  ma_HTTPClientFor :: "'cfg \<Rightarrow> error + 'http"
  ma_NewBuilder :: "'cfg \<Rightarrow> 'http \<Rightarrow> error + 'b"
  ma_NewRGD :: "'b \<Rightarrow> string \<Rightarrow> ('c, 'k) kro_spec \<Rightarrow> build_config \<Rightarrow> ('w, error + graph) state"
  ma_rlib :: "('c, 'k, 'w) rlib"
  ma_env :: "('rt, 'w) env"
  ma_instances :: "('s, 'w) manager_lib"
  ma_Wiring :: "(wiring \<Rightarrow> wiring) \<Rightarrow> 'w \<Rightarrow> 'w"
  ma_registry :: "'w \<Rightarrow> published"
  ma_Supervise :: "(string \<Rightarrow> ('w, error option) state) \<Rightarrow> ('w, unit) state"

section \<open>Running\<close>

definition provider_scheme :: "('u, 'c, 'k, 's, 'cfg, 'http, 'b, 'rt, 'w) main_lib \<Rightarrow> error + 's" where
  "provider_scheme ma = register ''registering provider scheme: ''
     [ma_clientgo_AddToScheme ma, AddToScheme (ma_SchemeBuild ma) (ma_AddKnownTypes ma) (ma_AddToGroupVersion ma),
      ma_apisv1alpha1_AddToScheme ma, ma_apisv1alpha2_AddToScheme ma] (ma_NewScheme ma)"

definition manager_options_of :: "options \<Rightarrow> 's \<Rightarrow> 's manager_options" where
  "manager_options_of opts scheme =
     \<lparr>mo_Scheme = scheme, mo_HealthProbeBindAddress = opt_healthProbeAddr opts, mo_MetricsBindAddress = opt_metricsAddr opts,
      mo_LeaderElection = opt_leaderElect opts, mo_LeaderElectionID = ''krop-controller-leader'',
      mo_LeaderElectionNamespace = opt_leaderElectNamespace opts\<rparr>"

text \<open>\<^verbatim>\<open>if err := m; err != nil { return fmt.Errorf(ctx + "%w", err) }\<close>, followed by \<open>k\<close>.\<close>

definition or_return :: "string \<Rightarrow> ('w, error option) state \<Rightarrow> ('w, error option) state \<Rightarrow> ('w, error option) state" where
  "or_return ctx m k =
     do {
       err \<leftarrow> m;
       case err of Some e \<Rightarrow> ret (Some (Wrapped ctx e)) | None \<Rightarrow> k
     }"

definition or_return_value :: "(error \<Rightarrow> error) \<Rightarrow> error + 'a \<Rightarrow> ('a \<Rightarrow> ('w, error option) state) \<Rightarrow> ('w, error option) state" where
  "or_return_value wrap x k = (case x of Inl e \<Rightarrow> ret (Some (wrap e)) | Inr a \<Rightarrow> k a)"

text \<open>The host client, with the scheme it is built on.\<close>

definition host_client :: "('u, 'c, 'k, 's, 'cfg, 'http, 'b, 'rt, 'w) main_lib \<Rightarrow> options \<Rightarrow> error + 'w client option" where
  "host_client ma opts =
     resolve_host (opt_hostKubeconfig opts) (ma_BuildConfigFromFlags ma) (ma_InClusterConfig ma)
       (case ma_clientgo_AddToScheme ma (ma_NewScheme ma) of Inl e \<Rightarrow> Some e | Inr _ \<Rightarrow> None)
       (\<lambda>cfg. case ma_clientgo_AddToScheme ma (ma_NewScheme ma) of Inl e \<Rightarrow> Inl e | Inr scheme \<Rightarrow> ma_host_New ma cfg scheme)"

text \<open>Everything after the clients and the graph source exist: registry, supervisor, registrar, sweeper, start.\<close>

definition assemble :: "('u, 'c, 'k, 's, 'cfg, 'http, 'b, 'rt, 'w) main_lib \<Rightarrow> 'cfg \<Rightarrow>
    (string \<Rightarrow> ('w rstate, outcome) state, 'w) provider_manager \<Rightarrow> ('u, 'c, 'k, 'w) provider_client \<Rightarrow> 'w client option \<Rightarrow> 'b \<Rightarrow>
    ('w, error option) state" where
  "assemble ma cfg mgr pc hc b =
     do {
       _ \<leftarrow> State (\<lambda>w. ((), ma_Wiring ma (\<lambda>_. wi_init) w));
       _ \<leftarrow> ma_Supervise ma (startFn (ma_env ma) (ma_instances ma) (pv_slices pc) (pv_objects pc) hc (ma_registry ma));
       or_return ''building registrar controller: ''
         (pm_Complete mgr ''krop-registrar''
           (Registrar_Reconcile (ma_rlib ma) (main_registrar (ma_Wiring ma) (pv_typed pc) (ma_Host ma cfg) (ma_NewRGD ma b))))
       (or_return ''adding orphan sweeper: '' (pm_Add mgr (main_sweeper (pv_objects pc) hc))
       (or_return ''running provider manager: '' (pm_Start mgr) (ret None)))
     }"

text \<open>From the health checks on, with the manager in place.\<close>

definition run_manager :: "('u, 'c, 'k, 's, 'cfg, 'http, 'b, 'rt, 'w) main_lib \<Rightarrow> options \<Rightarrow> 'cfg \<Rightarrow> 's \<Rightarrow>
    (string \<Rightarrow> ('w rstate, outcome) state, 'w) provider_manager \<Rightarrow> ('w, error option) state" where
  "run_manager ma opts cfg scheme mgr =
     or_return ''adding healthz check: '' (pm_AddHealthzCheck mgr ''healthz'')
     (or_return ''adding readyz check: '' (pm_AddReadyzCheck mgr ''readyz'')
     (or_return_value (Wrapped ''provider client: '') (ma_client_New ma cfg scheme) (\<lambda>pc.
      or_return_value id (host_client ma opts) (\<lambda>hc.
      or_return_value (Wrapped ''graph source: '')
        (NewEndpointGraphSource (ma_HTTPClientFor ma) (ma_NewBuilder ma) (Some cfg)) (\<lambda>b.
      assemble ma cfg mgr pc hc b)))))"

definition run_configured :: "('u, 'c, 'k, 's, 'cfg, 'http, 'b, 'rt, 'w) main_lib \<Rightarrow> options \<Rightarrow> 'cfg \<Rightarrow> ('w, error option) state" where
  "run_configured ma opts cfg =
     (case ValidateKubeconfig (ma_Host ma cfg) of
        Some e \<Rightarrow> ret (Some (Wrapped ''kubeconfig must be workspace-scoped: '' e))
      | None \<Rightarrow>
          or_return_value id (provider_scheme ma) (\<lambda>scheme.
          do {
            made \<leftarrow> ma_NewManager ma cfg (manager_options_of opts scheme);
            or_return_value (Wrapped ''setting up provider manager: '') made (run_manager ma opts cfg scheme)
          }))"

text \<open>How the process ends: by a library that exits, or with what \<^verbatim>\<open>run\<close> returns.\<close>

datatype run_result = Exited nat | RunReturned "error option"

definition run :: "('u, 'c, 'k, 's, 'cfg, 'http, 'b, 'rt, 'w) main_lib \<Rightarrow> ('w, run_result) state" where
  "run ma =
     (case ma_Parse ma (default_options (ma_Getenv ma)) of
        Inl code \<Rightarrow> ret (Exited code)
      | Inr opts \<Rightarrow>
          (case ma_GetConfig ma of
             None \<Rightarrow> ret (Exited 1)
           | Some cfg \<Rightarrow> do { err \<leftarrow> run_configured ma opts cfg; ret (RunReturned err) }))"

definition main :: "('u, 'c, 'k, 's, 'cfg, 'http, 'b, 'rt, 'w) main_lib \<Rightarrow> ('w, nat) state" where
  "main ma =
     do {
       r \<leftarrow> run ma;
       ret (case r of Exited code \<Rightarrow> code | RunReturned (Some _) \<Rightarrow> 1 | RunReturned None \<Rightarrow> 0)
     }"

section \<open>Order of the start\<close>

lemma or_returnE:
  assumes "run_state (or_return ctx m k) w = (r, w')"
  obtains (failed) e where "run_state m w = (Some e, w')" "r = Some (Wrapped ctx e)"
    | (passed) w1 where "run_state m w = (None, w1)" "run_state k w1 = (r, w')"
  using assms by (auto simp: or_return_def split: prod.splits option.splits)

lemma or_return_valueE:
  assumes "run_state (or_return_value wrap x k) w = (r, w')"
  obtains (failed) e where "x = Inl e" "r = Some (wrap e)" "w' = w"
    | (passed) a where "x = Inr a" "run_state (k a) w = (r, w')"
  using assms by (auto simp: or_return_value_def split: sum.splits)

text \<open>Every library call up to the start of the manager preserves a predicate of the world.\<close>

definition quiet_until_start :: "('w \<Rightarrow> bool) \<Rightarrow> ('u, 'c, 'k, 's, 'cfg, 'http, 'b, 'rt, 'w) main_lib \<Rightarrow> bool" where
  "quiet_until_start I ma \<longleftrightarrow>
     (\<forall>cfg mo. keeps I (ma_NewManager ma cfg mo)) \<and>
     (\<forall>cfg mo w mgr w'. run_state (ma_NewManager ma cfg mo) w = (Inr mgr, w') \<longrightarrow>
        (\<forall>n. keeps I (pm_AddHealthzCheck mgr n)) \<and> (\<forall>n. keeps I (pm_AddReadyzCheck mgr n)) \<and>
        (\<forall>n h. keeps I (pm_Complete mgr n h)) \<and> (\<forall>s. keeps I (pm_Add mgr s))) \<and>
     (\<forall>f w. I w \<longrightarrow> I (ma_Wiring ma f w)) \<and> (\<forall>f. keeps I (ma_Supervise ma f))"

text \<open>What is in place when the provider manager starts in \<open>w7\<close>.\<close>

definition wired :: "('w \<Rightarrow> wiring) \<Rightarrow> ('u, 'c, 'k, 's, 'cfg, 'http, 'b, 'rt, 'w) main_lib \<Rightarrow> options \<Rightarrow> 'cfg \<Rightarrow>
    (string \<Rightarrow> ('w rstate, outcome) state, 'w) provider_manager \<Rightarrow> 'w \<Rightarrow> bool" where
  "wired wi ma opts cfg mgr w7 \<longleftrightarrow>
     ValidateKubeconfig (ma_Host ma cfg) = None \<and>
     (\<exists>scheme pc hc b w5 w6. provider_scheme ma = Inr scheme \<and> ma_client_New ma cfg scheme = Inr pc \<and> host_client ma opts = Inr hc \<and>
        NewEndpointGraphSource (ma_HTTPClientFor ma) (ma_NewBuilder ma) (Some cfg) = Inr b \<and> wi w5 = wi_init \<and>
        run_state (pm_Complete mgr ''krop-registrar'' (Registrar_Reconcile (ma_rlib ma)
          (main_registrar (ma_Wiring ma) (pv_typed pc) (ma_Host ma cfg) (ma_NewRGD ma b)))) w5 = (None, w6) \<and>
        run_state (pm_Add mgr (main_sweeper (pv_objects pc) hc)) w6 = (None, w7))"

lemma assemble_wired:
  assumes "run_state (assemble ma cfg mgr pc hc b) w = (r, w')" and "I w" and "\<not> I w'"
    and "\<And>n h. keeps I (pm_Complete mgr n h)" "\<And>s. keeps I (pm_Add mgr s)" "\<And>f w. I w \<Longrightarrow> I (ma_Wiring ma f w)" "\<And>f. keeps I (ma_Supervise ma f)"
    and "\<And>f w. wi (ma_Wiring ma f w) = f (wi w)" and "\<And>f x. keeps (\<lambda>w. wi w = x) (ma_Supervise ma f)"
    and "ValidateKubeconfig (ma_Host ma cfg) = None" "provider_scheme ma = Inr scheme" "ma_client_New ma cfg scheme = Inr pc"
      "host_client ma opts = Inr hc" "NewEndpointGraphSource (ma_HTTPClientFor ma) (ma_NewBuilder ma) (Some cfg) = Inr b"
  shows "\<exists>w7 err. wired wi ma opts cfg mgr w7 \<and> run_state (pm_Start mgr) w7 = (err, w') \<and>
    r = map_option (Wrapped ''running provider manager: '') err"
proof -
  let ?w = "ma_Wiring ma (\<lambda>_. wi_init) w"
  let ?f = "startFn (ma_env ma) (ma_instances ma) (pv_slices pc) (pv_objects pc) hc (ma_registry ma)"
  obtain u w5 where s: "run_state (ma_Supervise ma ?f) ?w = (u, w5)" by (rule prod.exhaust)
  have i5: "I w5" using keepsD [OF assms(7) assms(6) [OF assms(2)] s] .
  have wi5: "wi w5 = wi_init" using keepsD [OF assms(9) _ s] assms(8) by simp
  from assms(1) s have "run_state (or_return ''building registrar controller: ''
      (pm_Complete mgr ''krop-registrar'' (Registrar_Reconcile (ma_rlib ma) (main_registrar (ma_Wiring ma) (pv_typed pc) (ma_Host ma cfg) (ma_NewRGD ma b))))
      (or_return ''adding orphan sweeper: '' (pm_Add mgr (main_sweeper (pv_objects pc) hc))
       (or_return ''running provider manager: '' (pm_Start mgr) (ret None)))) w5 = (r, w')"
    by (simp add: assemble_def)
  then show ?thesis
  proof (cases rule: or_returnE)
    case (failed e)
    then show ?thesis using keepsD [OF assms(4) i5] assms(3) by blast
  next
    case (passed w6)
    note c = passed(1)
    have i6: "I w6" using keepsD [OF assms(4) i5 c] .
    from passed(2) show ?thesis
    proof (cases rule: or_returnE)
      case (failed e)
      then show ?thesis using keepsD [OF assms(5) i6] assms(3) by blast
    next
      case (passed w7)
      have "wired wi ma opts cfg mgr w7" unfolding wired_def using assms(10-14) wi5 c passed(1) by blast
      moreover from passed(2) have "\<exists>err. run_state (pm_Start mgr) w7 = (err, w') \<and> r = map_option (Wrapped ''running provider manager: '') err"
        by (auto simp: or_return_def split: prod.splits option.splits)
      ultimately show ?thesis by blast
    qed
  qed
qed

lemma run_manager_wired:
  assumes "run_state (run_manager ma opts cfg scheme mgr) w = (r, w')" and "I w" and "\<not> I w'"
    and "\<And>n. keeps I (pm_AddHealthzCheck mgr n)" "\<And>n. keeps I (pm_AddReadyzCheck mgr n)"
    and "\<And>n h. keeps I (pm_Complete mgr n h)" "\<And>s. keeps I (pm_Add mgr s)" "\<And>f w. I w \<Longrightarrow> I (ma_Wiring ma f w)" "\<And>f. keeps I (ma_Supervise ma f)"
    and "\<And>f w. wi (ma_Wiring ma f w) = f (wi w)" and "\<And>f x. keeps (\<lambda>w. wi w = x) (ma_Supervise ma f)"
    and "ValidateKubeconfig (ma_Host ma cfg) = None" "provider_scheme ma = Inr scheme"
  shows "\<exists>w7 err. wired wi ma opts cfg mgr w7 \<and> run_state (pm_Start mgr) w7 = (err, w') \<and>
    r = map_option (Wrapped ''running provider manager: '') err"
  using assms(1) unfolding run_manager_def
proof (cases rule: or_returnE)
  case (failed e)
  then show ?thesis using keepsD [OF assms(4,2)] assms(3) by blast
next
  case (passed w2)
  have i2: "I w2" using keepsD [OF assms(4,2) passed(1)] .
  from passed(2) show ?thesis
  proof (cases rule: or_returnE)
    case (failed e)
    then show ?thesis using keepsD [OF assms(5) i2] assms(3) by blast
  next
    case (passed w3)
    have i3: "I w3" using keepsD [OF assms(5) i2 passed(1)] .
    from passed(2) obtain pc hc b where "ma_client_New ma cfg scheme = Inr pc" "host_client ma opts = Inr hc"
      "NewEndpointGraphSource (ma_HTTPClientFor ma) (ma_NewBuilder ma) (Some cfg) = Inr b" "run_state (assemble ma cfg mgr pc hc b) w3 = (r, w')"
      using i3 assms(3) by (auto elim!: or_return_valueE)
    then show ?thesis
      by (intro assemble_wired [where I = I and w = w3]) (use i3 assms in \<open>simp_all\<close>)
  qed
qed

lemma run_configured_wired:
  assumes "run_state (run_configured ma opts cfg) w = (r, w')" and "I w" and "\<not> I w'" and "quiet_until_start I ma"
    and "\<And>f w. wi (ma_Wiring ma f w) = f (wi w)" and "\<And>f x. keeps (\<lambda>w. wi w = x) (ma_Supervise ma f)"
  shows "\<exists>mgr w7 err. wired wi ma opts cfg mgr w7 \<and> run_state (pm_Start mgr) w7 = (err, w') \<and>
    r = map_option (Wrapped ''running provider manager: '') err"
proof (cases "ValidateKubeconfig (ma_Host ma cfg)")
  case (Some e)
  then show ?thesis using assms(1-3) by (simp add: run_configured_def)
next
  case valid: None
  note q = assms(4) [unfolded quiet_until_start_def]
  from assms(1) valid obtain scheme where scheme: "provider_scheme ma = Inr scheme"
    and run: "run_state (do { made \<leftarrow> ma_NewManager ma cfg (manager_options_of opts scheme);
      or_return_value (Wrapped ''setting up provider manager: '') made (run_manager ma opts cfg scheme) }) w = (r, w')"
    using assms(2,3) by (auto simp: run_configured_def elim!: or_return_valueE)
  obtain made w1 where m: "run_state (ma_NewManager ma cfg (manager_options_of opts scheme)) w = (made, w1)" by fastforce
  have i1: "I w1" using q assms(2) m keepsD by fast
  from run m i1 assms(3) obtain mgr where mgr: "made = Inr mgr" and r: "run_state (run_manager ma opts cfg scheme mgr) w1 = (r, w')"
    by (auto elim!: or_return_valueE)
  have quiet: "keeps I (pm_AddHealthzCheck mgr n)" "keeps I (pm_AddReadyzCheck mgr n)" "keeps I (pm_Complete mgr n h)"
    "keeps I (pm_Add mgr s)" for n h s using q m mgr by blast+
  have "\<exists>w7 err. wired wi ma opts cfg mgr w7 \<and> run_state (pm_Start mgr) w7 = (err, w') \<and>
      r = map_option (Wrapped ''running provider manager: '') err"
    by (rule run_manager_wired [OF r i1 assms(3)]) (use quiet q assms(5,6) valid scheme in simp_all)
  then show ?thesis by blast
qed

text \<open>
  C22. Nothing runs before everything is wired. Let \<open>I\<close> say that no controller has acted yet, a condition that no library call before
  the start of the provider manager can break. If the process breaks it, then the manager was started, and at that moment
  the kubeconfig was workspace-scoped, the clients and the graph source had been built, and the registrar's controller was registered with
  the wired registrar, which compiles with that graph source, in a world
  where registry and supervisor were empty, and the sweeper was added after it with the same provider and host
  clients. The exit code is 0 exactly if the manager ended without error.
\<close>

theorem main_starts_wired:
  assumes "run_state (main ma) w = (code, w')" and "I w" and "\<not> I w'" and "quiet_until_start I ma"
    and "\<forall>f w. wi (ma_Wiring ma f w) = f (wi w)" and "\<forall>f x. keeps (\<lambda>w. wi w = x) (ma_Supervise ma f)"
  shows "\<exists>opts cfg mgr w7 err. ma_Parse ma (default_options (ma_Getenv ma)) = Inr opts \<and> ma_GetConfig ma = Some cfg \<and>
    wired wi ma opts cfg mgr w7 \<and> run_state (pm_Start mgr) w7 = (err, w') \<and> (code = 0 \<longleftrightarrow> err = None)"
proof -
  obtain r where run: "run_state (run ma) w = (r, w')"
    and code: "code = (case r of Exited code \<Rightarrow> code | RunReturned (Some _) \<Rightarrow> 1 | RunReturned None \<Rightarrow> 0)"
    using assms(1) by (auto simp: main_def split: prod.splits)
  from run assms(2,3) obtain opts cfg err where p: "ma_Parse ma (default_options (ma_Getenv ma)) = Inr opts" "ma_GetConfig ma = Some cfg"
    and c: "run_state (run_configured ma opts cfg) w = (err, w')" and r: "r = RunReturned err"
    by (auto simp: run_def split: sum.splits option.splits prod.splits)
  obtain mgr w7 err' where "wired wi ma opts cfg mgr w7" "run_state (pm_Start mgr) w7 = (err', w')"
    and "err = map_option (Wrapped ''running provider manager: '') err'"
    using run_configured_wired [OF c assms(2-4), of wi] assms(5,6) by blast
  then show ?thesis using p code r by (cases err') auto
qed

text \<open>A kubeconfig outside a workspace ends the process with code 1 before any call that could have an effect.\<close>

lemma main_rejects_host:
  assumes "ma_Parse ma (default_options (ma_Getenv ma)) = Inr opts" and "ma_GetConfig ma = Some cfg"
    and "\<nexists>a b. ma_Host ma cfg = a @ ''/clusters/'' @ b"
  shows "run_state (main ma) w = (1, w)"
proof -
  have "ValidateKubeconfig (ma_Host ma cfg) \<noteq> None"
    using assms(3) go_Cut_None by (simp add: ValidateKubeconfig_def go_Contains_def clustersPath_def)
  then show ?thesis using assms(1,2) by (auto simp: main_def run_def run_configured_def)
qed

text \<open>A process whose libraries all succeed; the manager records that it started.\<close>

record boot =
  bt_started :: bool
  bt_wiring :: wiring

definition idle_client :: "'w client" where
  "idle_client = \<lparr>c_get = (\<lambda>_ _ _. ret (Inl not_found)), c_list = (\<lambda>_ _. ret (Inr [])), c_create = (\<lambda>_. ret None),
     c_update = (\<lambda>_. ret None), c_delete = (\<lambda>_. ret None), c_apply = (\<lambda>_ _ _. ret None), c_status_update = (\<lambda>_. ret None)\<rparr>"

definition idle_kcp :: "(unit, unit, unit, 'w) kcp_client" where
  "idle_kcp = \<lparr>kc_get_blueprint = (\<lambda>_. ret (Inl not_found)), kc_update_blueprint = (\<lambda>b. ret (Inr b)), kc_update_status = (\<lambda>b. ret (Inr b)),
     kc_get_schema = (\<lambda>_. ret (Inl not_found)), kc_create_schema = (\<lambda>a. ret (Inr a)), kc_delete_schema = (\<lambda>_. ret None),
     kc_list_bindings = ret (Inr []), kc_get_export = (\<lambda>_. ret (Inl not_found)), kc_encode = (\<lambda>_. Inr ()),
     kc_apply = (\<lambda>_ _ _. ret None), kc_delete_export = (\<lambda>_. ret None)\<rparr>"

definition boot_manager :: "(string \<Rightarrow> (boot rstate, outcome) state, boot) provider_manager" where
  "boot_manager = \<lparr>pm_AddHealthzCheck = (\<lambda>_. ret None), pm_AddReadyzCheck = (\<lambda>_. ret None), pm_Complete = (\<lambda>_ _. ret None),
     pm_Add = (\<lambda>_. ret None), pm_Start = State (\<lambda>w. (None, w\<lparr>bt_started := True\<rparr>))\<rparr>"

definition boot_lib :: "(unit, unit, unit, string list, string, unit, unit, unit, boot) main_lib" where
  "boot_lib = \<lparr>ma_Getenv = (\<lambda>_. ''''), ma_Parse = Inr, ma_GetConfig = Some ''https://kcp/clusters/p'', ma_Host = id,
     ma_NewScheme = [], ma_clientgo_AddToScheme = (\<lambda>s. Inr (''core'' # s)), ma_apisv1alpha1_AddToScheme = Inr, ma_apisv1alpha2_AddToScheme = Inr,
     ma_SchemeBuild = (\<lambda>fs. hd fs), ma_AddKnownTypes = (\<lambda>_ ks s. ks @ s), ma_AddToGroupVersion = (\<lambda>_ s. s),
     ma_NewManager = (\<lambda>_ _. ret (Inr boot_manager)),
     ma_client_New = (\<lambda>_ _. Inr \<lparr>pv_objects = idle_client, pv_typed = idle_kcp, pv_slices = ret (Inr [])\<rparr>),
     ma_host_New = (\<lambda>_ _. Inr idle_client), ma_BuildConfigFromFlags = Inr, ma_InClusterConfig = Inl (ErrorString ''not in a pod''),
     ma_HTTPClientFor = (\<lambda>_. Inr ()), ma_NewBuilder = (\<lambda>_ _. Inr ()), ma_NewRGD = (\<lambda>_ _ _ _. ret (Inl (ErrorString ''no graph''))),
     ma_rlib = \<lparr>rl_Marshal = (\<lambda>_. Inr ''''), rl_toARS = (\<lambda>_ _. Inl (ErrorString ''no schema'')),
       rl_SetStatusCondition = (\<lambda>cs c. ret (c # cs)), rl_range = id\<rparr>,
     ma_env = \<lparr>env_FromGraph = (\<lambda>_ _. Inl (ErrorString ''no graph'')), env_selectors = lib0, env_Now = ret 0,
       env_SetStatusCondition = (\<lambda>cs c. ret (c # cs)), env_decode_condition = (\<lambda>_. Inl (ErrorString ''no condition'')),
       env_encode_condition = (\<lambda>_. Inl (ErrorString ''no condition'')), env_order = []\<rparr>,
     ma_instances = once_lib, ma_Wiring = (\<lambda>f w. w\<lparr>bt_wiring := f (bt_wiring w)\<rparr>), ma_registry = (\<lambda>w. wi_registry (bt_wiring w)),
     ma_Supervise = (\<lambda>_. ret ())\<rparr>"

theorem main_starts_wired_witness:
  "\<exists>opts cfg mgr w7. wired bt_wiring boot_lib opts cfg mgr w7 \<and>
     run_state (pm_Start mgr) w7 = (None, \<lparr>bt_started = True, bt_wiring = wi_init\<rparr>)"
proof -
  have "run_state (main boot_lib) \<lparr>bt_started = False, bt_wiring = wi_init\<rparr> = (0, \<lparr>bt_started = True, bt_wiring = wi_init\<rparr>)"
    by (simp add: main_def run_def run_configured_def boot_lib_def ValidateKubeconfig_def go_Contains_def go_Cut.simps clustersPath_def
        or_return_value_def or_return_def provider_scheme_def AddToScheme_def addKnownTypes_def run_manager_def boot_manager_def
        host_client_def resolve_host_def default_options_def NewEndpointGraphSource_def assemble_def)
  moreover have "quiet_until_start (\<lambda>w. \<not> bt_started w) boot_lib"
    by (auto simp: quiet_until_start_def boot_lib_def boot_manager_def intro: keeps_return)
  ultimately show ?thesis
    using main_starts_wired [of boot_lib _ 0 _ "\<lambda>w. \<not> bt_started w" bt_wiring]
    by (fastforce simp: boot_lib_def intro: keeps_return)
qed

end
