(* ===== verification/Heartbeat.thy ===== *)
theory Heartbeat
  imports Sweeper
begin

text \<open>
  The instance reconciler and the sweeper together. The sweeper trusts the liveness records: this theory shows what passes of all instances,
  sweeps and other writers do to the records that name one instance, and concludes when its objects are safe from the sweeper
  and when they are not.
\<close>

section \<open>Records in a store\<close>

text \<open>
  What is needed of the provider workspace beyond \<open>api_plane\<close>: a write of a ConfigMap takes place or not, and it does if it succeeds; deleting
  changes neither labels nor data of what lingers.
\<close>

locale record_plane = api_plane +
  assumes create_record: "run_state (c_create c ob) w = (re, w') \<Longrightarrow> o_gvk ob = configMapGVK \<Longrightarrow> objs w' (okey ob) = Some b \<Longrightarrow>
        (re \<noteq> None \<and> objs w (okey ob) = Some b) \<or> (o_labels b = o_labels ob \<and> o_content b ''data'' = o_content ob ''data'')"
    and update_record: "run_state (c_update c ob) w = (re, w') \<Longrightarrow> o_gvk ob = configMapGVK \<Longrightarrow> objs w' (okey ob) = Some b \<Longrightarrow>
        (re \<noteq> None \<and> objs w (okey ob) = Some b) \<or> (o_labels b = o_labels ob \<and> o_content b ''data'' = o_content ob ''data'')"
    and delete_record: "run_state (c_delete c ob) w = (re, w') \<Longrightarrow> objs w' k = Some b' \<Longrightarrow>
        \<exists>b. objs w k = Some b \<and> o_labels b' = o_labels b \<and> o_content b' ''data'' = o_content b ''data''"

interpretation mem_record: record_plane "mem_client p" "\<lambda>w. mem_find (w p)" for p
  by unfold_locales (auto simp: mem_defs Let_def split: option.splits if_splits dest: mem_find_self)

text \<open>\<open>vouched P m\<close>: every ConfigMap of the store \<open>m\<close> satisfies \<open>P\<close>, a predicate on key, labels and data.\<close>

definition vouched :: "(objkey \<Rightarrow> (string \<rightharpoonup> string) \<Rightarrow> json option \<Rightarrow> bool) \<Rightarrow> (objkey \<rightharpoonup> obj) \<Rightarrow> bool" where
  "vouched P m \<longleftrightarrow> (\<forall>k b. m k = Some b \<and> fst k = configMapGVK \<longrightarrow> P k (labels_of b) (o_content b ''data''))"

lemma vouchedD: "vouched P m \<Longrightarrow> m k = Some b \<Longrightarrow> fst k = configMapGVK \<Longrightarrow> P k (labels_of b) (o_content b ''data'')"
  unfolding vouched_def by blast

lemma labels_of_cong: "o_labels a = o_labels b \<Longrightarrow> labels_of a = labels_of b"
  by (simp add: labels_of_def)

lemma same_configmap: "fst k = configMapGVK \<Longrightarrow> fst k' = configMapGVK \<Longrightarrow> same_object k k' \<longleftrightarrow> k = k'"
  by (cases k; cases k') auto

context record_plane
begin

lemma delete_vouched: "keeps (\<lambda>w. vouched P (objs w)) (c_delete c ob)"
proof (rule keepsI)
  fix w re w'
  assume v: "vouched P (objs w)" and run: "run_state (c_delete c ob) w = (re, w')"
  show "vouched P (objs w')"
    unfolding vouched_def
  proof (intro allI impI, elim conjE)
    fix k b
    assume "objs w' k = Some b" and k: "fst k = configMapGVK"
    then obtain b0 where "objs w k = Some b0" "o_labels b = o_labels b0" "o_content b ''data'' = o_content b0 ''data''"
      using delete_record [OF run] by blast
    then show "P k (labels_of b) (o_content b ''data'')" using vouchedD [OF v _ k] labels_of_cong by metis
  qed
qed

text \<open>A write of a ConfigMap: \<open>Q\<close> may be stronger than \<open>P\<close> under the key written if the write succeeds.\<close>

lemma written_vouched:
  assumes "vouched P (objs w)" and "o_gvk ob = configMapGVK"
    and "\<And>k. \<not> same_object k (okey ob) \<Longrightarrow> objs w' k = objs w k"
    and "\<And>b. objs w' (okey ob) = Some b \<Longrightarrow>
      (re \<noteq> None \<and> objs w (okey ob) = Some b) \<or> (o_labels b = o_labels ob \<and> o_content b ''data'' = o_content ob ''data'')"
    and "Q (okey ob) (labels_of ob) (o_content ob ''data'')" and "\<And>k l d. P k l d \<Longrightarrow> k \<noteq> okey ob \<or> re \<noteq> None \<Longrightarrow> Q k l d"
  shows "vouched Q (objs w')"
  unfolding vouched_def
proof (intro allI impI, elim conjE)
  fix k b
  assume b: "objs w' k = Some b" and k: "fst k = configMapGVK"
  show "Q k (labels_of b) (o_content b ''data'')"
  proof (cases "k = okey ob")
    case True
    from assms(4) [OF b [unfolded True]] show ?thesis
    proof
      assume "re \<noteq> None \<and> objs w (okey ob) = Some b"
      with vouchedD [OF assms(1) _ k, of b] assms(6) True show ?thesis by blast
    qed (use assms(5) True in \<open>simp add: labels_of_cong [of b ob]\<close>)
  next
    case False
    moreover have "fst (okey ob) = configMapGVK" using assms(2) by (simp add: okey_def)
    ultimately have "objs w k = Some b" using b assms(3) same_configmap [OF k] by simp
    from vouchedD [OF assms(1) this k] show ?thesis using assms(6) False by blast
  qed
qed

lemma create_vouched:
  assumes "run_state (c_create c ob) w = (re, w')" and "o_gvk ob = configMapGVK" and "vouched P (objs w)"
    and "Q (okey ob) (labels_of ob) (o_content ob ''data'')" and "\<And>k l d. P k l d \<Longrightarrow> k \<noteq> okey ob \<or> re \<noteq> None \<Longrightarrow> Q k l d"
  shows "vouched Q (objs w')"
  by (rule written_vouched [where re = re and Q = Q, OF assms(3,2) create_frame [OF assms(1)] create_record [OF assms(1,2)] assms(4)])
    (use assms(5) in simp_all)

lemma update_vouched:
  assumes "run_state (c_update c ob) w = (re, w')" and "o_gvk ob = configMapGVK" and "vouched P (objs w)"
    and "Q (okey ob) (labels_of ob) (o_content ob ''data'')" and "\<And>k l d. P k l d \<Longrightarrow> k \<noteq> okey ob \<or> re \<noteq> None \<Longrightarrow> Q k l d"
  shows "vouched Q (objs w')"
  by (rule written_vouched [where re = re and Q = Q, OF assms(3,2) update_frame [OF assms(1)] update_record [OF assms(1,2)] assms(4)])
    (use assms(5) in simp_all)

lemma SSA_vouched:
  assumes "\<not> same_kind configMapGVK (o_gvk ob)"
  shows "keeps (\<lambda>w. vouched P (objs w)) (SSAApplier_Apply c ob)"
proof (rule keepsI)
  fix w x w'
  assume v: "vouched P (objs w)" and run: "run_state (SSAApplier_Apply c ob) w = (x, w')"
  have "objs w' k = objs w k" if "fst k = configMapGVK" for k
    using SSA_frame [OF run, of k] assms that by (simp add: same_object_alt okey_def)
  with v show "vouched P (objs w')" by (simp add: vouched_def)
qed

end

section \<open>A pass and the records\<close>

text \<open>The hypotheses on a blueprint: kro's runtime runs the graph, and no provider template is a ConfigMap.\<close>

definition plain_blueprint :: "('rt, 'w) env \<Rightarrow> 'w reconciler \<Rightarrow> bool" where
  "plain_blueprint env r \<longleftrightarrow> (\<forall>i rt rt0. env_FromGraph env (rc_Graph r) i = Inr (rt, rt0) \<longrightarrow> runtime_for (rc_Graph r) rt) \<and>
     (\<forall>g \<in> set (childGVKs r TargetProvider). \<not> same_kind configMapGVK g)"

locale record_planes =
  planes env r cc objs + provider: record_plane "rc_ProviderClient r" "objs TargetProvider"
  for env :: "('rt, 'w) env" and r :: "'w reconciler" and cc :: "'w client" and objs :: "target \<Rightarrow> 'w \<Rightarrow> objkey \<rightharpoonup> obj"
begin

abbreviation vouches :: "(objkey \<Rightarrow> (string \<rightharpoonup> string) \<Rightarrow> json option \<Rightarrow> bool) \<Rightarrow> 'w \<Rightarrow> bool" where
  "vouches P w \<equiv> vouched P (objs TargetProvider w)"

lemma delete_vouches:
  assumes "target_clients r cc t = Some cl"
  shows "keeps (vouches P) (c_delete cl ob)"
proof (cases "t = TargetProvider")
  case True
  then show ?thesis using assms provider.delete_vouched by simp
next
  case False
  then show ?thesis using leaves_keeps [OF client_leaves(5) [OF apart [OF assms]]] by metis
qed

lemma gc_vouches:
  assumes "target_clients r cc t = Some cl"
  shows "keeps (vouches P) (gc_kinds cl lgvk lmsg dmsg keep opts gs)"
  by (intro keeps_gc_kinds delete_vouches [OF assms] leaves_keeps [OF list_leaves [OF assms]])

lemma collect_vouches:
  "keeps (vouches P) (deleteChildren env r cc uid)" "keeps (vouches P) (pruneChildren env r cc uid applied)"
  unfolding deleteChildren_def pruneChildren_def by (intro keeps_for_targets gc_vouches; assumption)+

lemma deleteLivenessRecord_vouches: "keeps (vouches P) (deleteLivenessRecord r cn uid)"
  unfolding deleteLivenessRecord_def by (intro keeps_intros delete_vouches [of TargetProvider]) simp

text \<open>The consumer's server holds no records.\<close>

lemma consumer_vouches:
  "keeps (vouches P) (c_update cc ob)" "keeps (vouches P) (c_status_update cc ob)" "keeps (vouches P) (c_get cc g ns nm)"
  using client_leaves [OF apart [OF target_clients_simps(1), of TargetProvider]] leaves_keeps by blast+

lemma finish_vouches: "keeps (vouches P) (finish_pass env cc inst rt rt1 res)"
  unfolding finish_pass_def applyResultConditions_def
  by (intro keeps_intros consumer_vouches leaves_keeps [OF set_condition])

lemma deleting_vouches: "keeps (vouches P) (reconcile_deleting env r cc cn inst)"
  unfolding reconcile_deleting_def
  by (intro keeps_intros collect_vouches deleteLivenessRecord_vouches consumer_vouches)

text \<open>The engine applies no ConfigMap to the provider workspace if no template asks for one.\<close>

lemma engine_vouches:
  fixes rt0 :: 'rt
  assumes "run_state (Engine_Reconcile (env_selectors env) (lift_runtime rt) (pass_appliers r cc cn inst)
      (pass_readers r cc) (rc_Routing r)) (pass_start rt0 w) = (re, p)"
    and "runtime_for (rc_Graph r) rt" and "\<forall>g \<in> set (childGVKs r TargetProvider). \<not> same_kind configMapGVK g" and "vouches P w"
  shows "vouches P (p_world p)"
proof -
  let ?D = "set (pass_plan env r cc cn inst rt rt0 w)"
  have "keeps (\<lambda>p :: ('rt, 'w) pass. vouches P (p_world p)) (ap ob)"
    if D: "(n, ob) \<in> ?D" and ap: "pass_appliers r cc cn inst (TargetForNode (nd_id n) (rc_Routing r)) = Some ap" for n ob ap
  proof (rule keepsI)
    fix p x q
    assume v: "vouches P (p_world p)" and run: "run_state (ap ob) p = (x, q)"
    let ?t = "TargetForNode (nd_id n) (rc_Routing r)"
    show "vouches P (p_world q)"
    proof (cases "?t = TargetProvider")
      case True
      then have "\<not> same_kind configMapGVK (fst (okey (pass_final r cn inst ?t ob)))"
        using plan_gvk [OF assms(2) D] assms(3) by (simp add: pass_final_kind)
      then have "objs TargetProvider (p_world q) k = objs TargetProvider (p_world p) k" if "fst k = configMapGVK" for k
        using applier.apply_frame [OF pass_applier [OF ap] run, of k] that True by (simp add: same_object_alt)
      with v show ?thesis by (simp add: vouched_def)
    next
      case False
      then show ?thesis using applier_apart [OF ap _ run, of TargetProvider] v by simp
    qed
  qed
  then have "engine_run (lift_runtime rt) (pass_appliers r cc cn inst) (pass_readers r cc) (rc_Routing r) ?D
      (\<lambda>p :: ('rt, 'w) pass. vouches P (p_world p))"
    by (rule engine_runI [where Q = "\<lambda>m _. vouched P m"])
  from engine_run.Engine_keeps [OF this _ _ assms(1)] assms(4) show ?thesis by (simp add: pass_start_def pass_plan_def)
qed

text \<open>\<open>stamps Q cn uid\<close>: whatever the clock says, \<open>Q\<close> holds of the record a pass writes.\<close>

definition stamps :: "(objkey \<Rightarrow> (string \<rightharpoonup> string) \<Rightarrow> json option \<Rightarrow> bool) \<Rightarrow> string \<Rightarrow> string \<Rightarrow> bool" where
  "stamps Q cn uid \<longleftrightarrow> (\<forall>v t v'. run_state (env_Now env) v = (t, v') \<longrightarrow>
     Q (record_key r cn uid) (record_labels r cn uid) (Some (JObj (\<lambda>k. map_option JStr (record_data r t k)))))"

lemma write_vouches:
  assumes run: "run_state (writeLivenessRecord env r cn uid) w = (x, w')" and v: "vouches P w" and st: "stamps Q cn uid"
    and mono: "\<And>k l d. P k l d \<Longrightarrow> k \<noteq> record_key r cn uid \<or> x \<noteq> None \<Longrightarrow> Q k l d"
  shows "vouches Q w'"
  using run
proof (cases rule: writeLivenessRecord_cases)
  case (get_failed now w1 e)
  then have "objs TargetProvider w' = objs TargetProvider w" by (simp add: clock_frame provider.get_frame)
  with v mono get_failed(3) show ?thesis by (auto simp: vouched_def)
next
  case (create now w1 w2 e y)
  have "vouches P w2" using v create(1,2) by (simp add: clock_frame provider.get_frame)
  from provider.create_vouched [OF create(3) _ this, where Q = Q] st mono create(1,4) show ?thesis
    by (auto simp: set_nested_string_map_def set_nested_map_def okey_def new_obj_def labels_of_def stamps_def)
next
  case (update now w1 w2 ex y)
  have ex: "objs TargetProvider w1 (record_key r cn uid) = Some ex" using provider.get_found [OF update(2)] .
  then have key: "okey ex = record_key r cn uid" by (rule provider.objs_key)
  have "vouches P w2" using v update(1,2) by (simp add: clock_frame provider.get_frame)
  from provider.update_vouched [OF update(3) _ this, where Q = Q] st mono update(1,4) key show ?thesis
    by (auto simp: set_nested_string_map_def set_nested_map_def okey_def labels_of_def stamps_def)
qed

lemma run_engine_vouches:
  assumes "env_FromGraph env (rc_Graph r) i = Inr (rt, rt0)" and "plain_blueprint env r" and "vouches P w"
    and "run_state (Engine_Reconcile (env_selectors env) (lift_runtime rt) (pass_appliers r cc cn inst)
      (pass_readers r cc) (rc_Routing r)) \<lparr>p_rt = rt0, p_world = w, p_applied = (\<lambda>_. [])\<rparr> = (re, p)"
  shows "vouches P (p_world p)"
  using engine_vouches [OF assms(4) [folded pass_start_def]] assms(1-3) by (auto simp: plain_blueprint_def)

lemma apply_vouches:
  assumes run: "run_state (reconcile_apply env r cc cn inst) w = ((res, err), w')" and v: "vouches P w"
    and pl: "plain_blueprint env r" and st: "stamps P cn (o_uid inst)"
  shows "vouches P w'"
proof (cases "env_FromGraph env (rc_Graph r) (StampConsumerCluster inst cn)")
  case (Inl e)
  with run v show ?thesis by (simp add: reconcile_apply_def)
next
  case (Inr b)
  obtain rt rt0 where b: "b = (rt, rt0)" by fastforce
  let ?eng = "Engine_Reconcile (env_selectors env) (lift_runtime rt) (pass_appliers r cc cn inst) (pass_readers r cc) (rc_Routing r)"
  obtain re p where eng: "run_state ?eng \<lparr>p_rt = rt0, p_world = w, p_applied = (\<lambda>_. [])\<rparr> = (re, p)" by fastforce
  then have rp: "run_state (run_pass ?eng rt0) w = ((re, p_rt p, p_applied p), p_world p)" by (simp add: run_pass_def)
  have p1: "vouches P (p_world p)" by (rule run_engine_vouches [OF Inr [unfolded b] pl v eng])
  obtain x w2 where wl: "run_state (writeLivenessRecord env r cn (o_uid inst)) (p_world p) = (x, w2)" by fastforce
  have p2: "vouches P w2" by (rule write_vouches [OF wl p1 st]) simp
  have p3: "vouches P w3" if "run_state (pruneChildren env r cc (o_uid inst) a) w2 = (y, w3)" for a y w3
    by (rule keepsD [OF collect_vouches(2) p2 that])
  note fin = keepsD [OF finish_vouches]
  from run Inr b rp wl p1 p2 show ?thesis
    by (auto simp: reconcile_apply_def dest: p3 fin split: prod.splits option.splits if_splits)
qed

lemma apply_refreshes:
  assumes run: "run_state (reconcile_apply env r cc cn inst) w = ((res, None), w')" and live: "o_deletionTimestamp inst = None"
    and v: "vouches P w" and pl: "plain_blueprint env r" and st: "stamps Q cn (o_uid inst)"
    and mono: "\<And>k l d. P k l d \<Longrightarrow> k \<noteq> record_key r cn (o_uid inst) \<Longrightarrow> Q k l d"
  shows "vouches Q w'"
proof -
  from run obtain rt rt0 res0 p w2 w3 where fg: "env_FromGraph env (rc_Graph r) (StampConsumerCluster inst cn) = Inr (rt, rt0)"
    and eng: "run_state (Engine_Reconcile (env_selectors env) (lift_runtime rt) (pass_appliers r cc cn inst)
       (pass_readers r cc) (rc_Routing r)) \<lparr>p_rt = rt0, p_world = w, p_applied = (\<lambda>_. [])\<rparr> = ((res0, None), p)"
    and wl: "run_state (writeLivenessRecord env r cn (o_uid inst)) (p_world p) = (None, w2)"
    and pr: "run_state (if Complete res0 then pruneChildren env r cc (o_uid inst) (p_applied p) else ret None) w2 = (None, w3)"
    and fin: "run_state (finish_pass env cc inst rt (p_rt p) res0) w3 = ((res, None), w')"
    by (rule reconcile_apply_ok [OF _ live])
  have "vouches Q w2"
    by (rule write_vouches [OF wl run_engine_vouches [OF fg pl v eng] st]) (use mono in simp)
  then have "vouches Q w3" using pr keepsD [OF collect_vouches(2)] by (auto split: if_splits)
  with fin show ?thesis by (rule keepsD [OF finish_vouches, rotated])
qed

text \<open>Whatever a pass does, it vouches for the records; one without error has renewed the record of a live instance.\<close>

lemma Reconcile_vouches:
  assumes run: "run_state (Reconcile env r cc cn ns nm) w = ((res, err), w')" and v: "vouches P w" and pl: "plain_blueprint env r"
    and get: "run_state (c_get cc (rc_InstanceGVK r) ns nm) w = (got, w0)"
    and st: "\<And>inst. got = Inr inst \<Longrightarrow> stamps P cn (o_uid inst)"
  shows "vouches P w'"
proof -
  have v0: "vouches P w0" by (rule keepsD [OF consumer_vouches(3) v get])
  show ?thesis
  proof (cases got)
    case (Inl e)
    with run get v0 show ?thesis by (simp add: Reconcile_def)
  next
    case (Inr inst)
    note go = Reconcile_found [OF run get [unfolded Inr]]
    have "vouches P w'" if "o_deletionTimestamp inst \<noteq> None"
      by (rule keepsD [OF deleting_vouches v0]) (use go that in auto)
    moreover have "vouches P w'" if "o_deletionTimestamp inst = None" "Finalizer \<notin> set (o_finalizers inst)"
      using go that keepsD [OF consumer_vouches(1) v0] by (auto split: prod.splits)
    moreover have "vouches P w'" if "o_deletionTimestamp inst = None" "Finalizer \<in> set (o_finalizers inst)"
      by (rule apply_vouches [OF _ v0 pl st [OF Inr]]) (use go that in auto)
    ultimately show ?thesis by blast
  qed
qed

lemma Reconcile_refreshes:
  assumes run: "run_state (Reconcile env r cc cn ns nm) w = ((res, None), w')" and v: "vouches P w" and pl: "plain_blueprint env r"
    and get: "run_state (c_get cc (rc_InstanceGVK r) ns nm) w = (Inr inst, w0)"
    and inst: "\<not> terminating inst" "Finalizer \<in> set (o_finalizers inst)" and st: "stamps Q cn (o_uid inst)"
    and mono: "\<And>k l d. P k l d \<Longrightarrow> k \<noteq> record_key r cn (o_uid inst) \<Longrightarrow> Q k l d"
  shows "vouches Q w'"
proof (rule apply_refreshes [OF _ _ keepsD [OF consumer_vouches(3) v get] pl st mono])
  show live: "o_deletionTimestamp inst = None" using inst(1) by (simp add: terminating_def)
  then show "run_state (reconcile_apply env r cc cn inst) w0 = ((res, None), w')" using Reconcile_found [OF run get] inst(2) by simp
qed

end

section \<open>A sweep and the records\<close>

lemma Sweep_keeps:
  assumes via: "\<And>t cl raw uid. sw_clients s t = Some cl \<Longrightarrow> keeps I (sweepChildrenVia cl raw uid)"
    and del: "\<And>ob. keeps I (c_delete (sw_ProviderClient s) ob)" and list: "\<And>lg opts. keeps I (c_list (sw_ProviderClient s) lg opts)"
    and now: "keeps I (sw_now time_Now s)"
  shows "keeps I (Sweep time_Now (s\<lparr>sw_startedAt := t\<rparr>))"
proof -
  have "keeps I (sweepChildrenVia (sw_ProviderClient s) raw uid)"
    and "sw_HostClient s = Some hc \<Longrightarrow> keeps I (sweepChildrenVia hc raw uid)" for hc raw uid
    using via [of TargetProvider] via [of TargetHost] by simp_all
  then have ch: "keeps I (sweepChildren s rec uid)" for rec uid
    unfolding sweepChildren_def by (auto intro!: keeps_intros split: option.split)
  have "keeps I (sweep_records s now recs)" for now recs
    by (induction recs) (auto intro!: keeps_intros ch del)
  moreover have "sw_now time_Now (s\<lparr>sw_startedAt := t\<rparr>) = sw_now time_Now s" by (simp add: sw_now_def)
  ultimately show ?thesis unfolding Sweep_def
    by (simp add: Let_def, intro keeps_intros now) (auto intro!: keeps_intros list)
qed

locale sweep_store = sweep_planes s objs + provider: record_plane "sw_ProviderClient s" "objs TargetProvider"
  for s :: "'w sweeper" and objs :: "target \<Rightarrow> 'w \<Rightarrow> objkey \<rightharpoonup> obj"
begin

abbreviation vouches :: "(objkey \<Rightarrow> (string \<rightharpoonup> string) \<Rightarrow> json option \<Rightarrow> bool) \<Rightarrow> 'w \<Rightarrow> bool" where
  "vouches P w \<equiv> vouched P (objs TargetProvider w)"

lemma via_vouches:
  assumes "sw_clients s t = Some cl"
  shows "keeps (vouches P) (sweepChildrenVia cl raw uid)"
proof (cases "t = TargetProvider")
  case True
  then show ?thesis using assms unfolding sweepChildrenVia_def
    by (intro keeps_gc_kinds) (auto intro: provider.delete_vouched provider.list_keeps)
next
  case False
  then show ?thesis unfolding sweepChildrenVia_def
    by (intro keeps_gc_kinds leaves_keeps [OF client_leaves(2) [OF apart [OF assms]]] leaves_keeps [OF client_leaves(5) [OF apart [OF assms]]]) auto
qed

lemma Sweep_vouches:
  assumes "leaves_store (objs TargetProvider) (sw_now time_Now s)"
  shows "keeps (vouches P) (Sweep time_Now (s\<lparr>sw_startedAt := t\<rparr>))"
  by (intro Sweep_keeps via_vouches provider.delete_vouched provider.list_keeps leaves_keeps [OF assms])

end

section \<open>A heartbeat\<close>

text \<open>
  \<open>names ns u k l\<close>: a ConfigMap with key \<open>k\<close> and labels \<open>l\<close> is a liveness record in the namespace \<open>ns\<close> that names the instance with uid \<open>u\<close>.
  \<open>stamped\<close>: such a record is the one \<^verbatim>\<open>writeLivenessRecord\<close> keeps, and it was written at \<open>lo\<close> or later, at an instant the format can express.
\<close>

definition names :: "string \<Rightarrow> string \<Rightarrow> objkey \<Rightarrow> (string \<rightharpoonup> string) \<Rightarrow> bool" where
  "names ns u k l \<longleftrightarrow> fst (snd k) = ns \<and> l LabelLiveness = Some ''true'' \<and> go_index l LabelInstanceUID = u"

definition stamped :: "string \<Rightarrow> string \<Rightarrow> string \<Rightarrow> time \<Rightarrow> objkey \<Rightarrow> (string \<rightharpoonup> string) \<Rightarrow> json option \<Rightarrow> bool" where
  "stamped ns cn u lo k l d \<longleftrightarrow> (names ns u k l \<longrightarrow> k = (configMapGVK, ns, LivenessRecordName cn u) \<and>
     (\<exists>t m. lo \<le> t \<and> time_ok t \<and> d = Some (JObj m) \<and> m ''lastReconciled'' = Some (JStr (format_RFC3339 t))))"

lemma stamped_mono: "stamped ns cn u lo k l d \<Longrightarrow> lo' \<le> lo \<Longrightarrow> stamped ns cn u lo' k l d"
  unfolding stamped_def using order_trans [of lo' lo] by blast

lemma stamped_off: "stamped ns cn u lo k l d \<Longrightarrow> k \<noteq> (configMapGVK, ns, LivenessRecordName cn u) \<Longrightarrow> stamped ns cn u lo' k l d"
  unfolding stamped_def by blast

lemma stamped_fresh:
  assumes "stamped (sw_recordNamespace s) cn (record_uid rec) lo (okey rec) (labels_of rec) (o_content rec ''data'')" and "is_record s rec"
    and "now - lo \<le> sw_StaleAfter s - Second" and "0 \<le> sw_StaleAfter s" and "sw_StaleAfter s < 2 ^ 63 - 1"
  shows "\<not> stale s now rec"
proof -
  have "names (sw_recordNamespace s) (record_uid rec) (okey rec) (labels_of rec)"
    using assms(2) by (simp add: names_def is_record_def okey_def)
  with assms(1) obtain t m where t: "lo \<le> t" "time_ok t"
    and d: "o_content rec ''data'' = Some (JObj m)" "m ''lastReconciled'' = Some (JStr (format_RFC3339 t))" by (auto simp: stamped_def)
  from d have "nested_string rec ''data'' ''lastReconciled'' = format_RFC3339 t" by (simp add: nested_string_def nested_map_def)
  from stamp_age(1) [OF this _ _ assms(4,5)] t assms(3) show ?thesis by (simp add: time_ok_def)
qed

text \<open>
  The state: the time \<open>T\<close>, the time \<open>L\<close> when the last successful pass over the live instance began (or the history did), and the world. A step
  is a pass of any blueprint's reconciler over any instance, with any outcome, in any map order and while its clock runs from \<open>T\<close> on; a sweep with
  any outcome; or anything else that writes no record naming the instance.
\<close>

definition refreshing :: "string \<Rightarrow> error + obj \<Rightarrow> error option \<Rightarrow> bool" where
  "refreshing u got err \<longleftrightarrow> err = None \<and>
     (case got of Inl _ \<Rightarrow> False | Inr inst \<Rightarrow> o_uid inst = u \<and> \<not> terminating inst \<and> Finalizer \<in> set (o_finalizers inst))"

inductive hb_step :: "('rt, 'w) env \<Rightarrow> 'w sweeper \<Rightarrow> (target \<Rightarrow> 'w \<Rightarrow> objkey \<rightharpoonup> obj) \<Rightarrow> string \<Rightarrow> string \<Rightarrow>
    time \<times> time \<times> 'w \<Rightarrow> time \<times> time \<times> 'w \<Rightarrow> bool"
  for env :: "('rt, 'w) env" and s :: "'w sweeper" and objs :: "target \<Rightarrow> 'w \<Rightarrow> objkey \<rightharpoonup> obj" and cn u :: string where
  passes: "env' = env\<lparr>env_Now := clk, env_order := ord\<rparr> \<Longrightarrow> record_planes env' r cc objs \<Longrightarrow> plain_blueprint env' r \<Longrightarrow>
    run_state (Reconcile env' r cc cn' ns nm) w = ((res, err), w') \<Longrightarrow>
    run_state (c_get cc (rc_InstanceGVK r) ns nm) w = (got, w0) \<Longrightarrow>
    \<forall>v t v'. run_state clk v = (t, v') \<longrightarrow> T \<le> t \<and> time_ok t \<Longrightarrow>
    \<forall>inst. got = Inr inst \<and> o_uid inst = u \<longrightarrow> cn' = cn \<and> recordNamespace r = sw_recordNamespace s \<Longrightarrow> T \<le> T' \<Longrightarrow>
    hb_step env s objs cn u (T, L, w) (T', if refreshing u got err then T else L, w')"
| sweeps: "leaves_store (objs TargetProvider) (sw_now time_Now s) \<Longrightarrow>
    run_state (Sweep time_Now (s\<lparr>sw_startedAt := st\<rparr>)) w = (x, w') \<Longrightarrow> T \<le> T' \<Longrightarrow>
    hb_step env s objs cn u (T, L, w) (T', L, w')"
| others: "(\<And>k b. objs TargetProvider w' k = Some b \<Longrightarrow> fst k = configMapGVK \<Longrightarrow> names (sw_recordNamespace s) u k (labels_of b) \<Longrightarrow>
      objs TargetProvider w k = Some b) \<Longrightarrow> T \<le> T' \<Longrightarrow>
    hb_step env s objs cn u (T, L, w) (T', L, w')"

inductive hb_reachable :: "('rt, 'w) env \<Rightarrow> 'w sweeper \<Rightarrow> (target \<Rightarrow> 'w \<Rightarrow> objkey \<rightharpoonup> obj) \<Rightarrow> string \<Rightarrow> string \<Rightarrow>
    time \<times> time \<times> 'w \<Rightarrow> bool"
  for env :: "('rt, 'w) env" and s :: "'w sweeper" and objs :: "target \<Rightarrow> 'w \<Rightarrow> objkey \<rightharpoonup> obj" and cn u :: string where
  begins: "(\<And>k b. objs TargetProvider w k = Some b \<Longrightarrow> fst k = configMapGVK \<Longrightarrow> \<not> names (sw_recordNamespace s) u k (labels_of b)) \<Longrightarrow>
    hb_reachable env s objs cn u (T, T, w)"
| moves: "hb_reachable env s objs cn u x \<Longrightarrow> hb_step env s objs cn u x y \<Longrightarrow> hb_reachable env s objs cn u y"

definition heartbeat :: "'w sweeper \<Rightarrow> (target \<Rightarrow> 'w \<Rightarrow> objkey \<rightharpoonup> obj) \<Rightarrow> string \<Rightarrow> string \<Rightarrow> time \<times> time \<times> 'w \<Rightarrow> bool" where
  "heartbeat s objs cn u = (\<lambda>(T, L, w). L \<le> T \<and> vouched (stamped (sw_recordNamespace s) cn u L) (objs TargetProvider w))"

lemma hb_stamps:
  assumes "record_planes (env\<lparr>env_Now := clk, env_order := ord\<rparr>) r cc objs"
    and "\<forall>v t v'. run_state clk v = (t, v') \<longrightarrow> T \<le> t \<and> time_ok t"
    and "o_uid inst = u \<longrightarrow> cn' = cn \<and> recordNamespace r = ns" and "lo \<le> T"
  shows "record_planes.stamps (env\<lparr>env_Now := clk, env_order := ord\<rparr>) r (stamped ns cn u lo) cn' (o_uid inst)"
  unfolding record_planes.stamps_def [OF assms(1)]
proof (intro allI impI)
  fix v t v'
  assume "run_state (env_Now (env\<lparr>env_Now := clk, env_order := ord\<rparr>)) v = (t, v')"
  with assms(2) have t: "T \<le> t" "time_ok t" by auto
  show "stamped ns cn u lo (record_key r cn' (o_uid inst)) (record_labels r cn' (o_uid inst))
      (Some (JObj (\<lambda>k. map_option JStr (record_data r t k))))"
    unfolding stamped_def
  proof (rule impI)
    assume "names ns u (record_key r cn' (o_uid inst)) (record_labels r cn' (o_uid inst))"
    then have "o_uid inst = u" by (simp add: names_def record_labels_def label_defs go_index_def)
    with assms(3) have "record_key r cn' (o_uid inst) = (configMapGVK, ns, LivenessRecordName cn u)" by simp
    moreover have "map_option JStr (record_data r t ''lastReconciled'') = Some (JStr (format_RFC3339 t))" by (simp add: record_data_def)
    moreover have "lo \<le> t" using assms(4) t(1) by simp
    ultimately show "record_key r cn' (o_uid inst) = (configMapGVK, ns, LivenessRecordName cn u) \<and>
        (\<exists>t' m. lo \<le> t' \<and> time_ok t' \<and> Some (JObj (\<lambda>k. map_option JStr (record_data r t k))) = Some (JObj m) \<and>
          m ''lastReconciled'' = Some (JStr (format_RFC3339 t')))"
      using t(2) by blast
  qed
qed

lemma others_vouched:
  assumes "vouched (stamped ns cn u lo) m"
    and "\<And>k b. m' k = Some b \<Longrightarrow> fst k = configMapGVK \<Longrightarrow> names ns u k (labels_of b) \<Longrightarrow> m k = Some b"
  shows "vouched (stamped ns cn u lo) m'"
  unfolding vouched_def
proof (intro allI impI, elim conjE)
  fix k b
  assume "m' k = Some b" and "fst k = configMapGVK"
  then show "stamped ns cn u lo k (labels_of b) (o_content b ''data'')"
    using assms(2) vouchedD [OF assms(1)] by (cases "names ns u k (labels_of b)") (blast, simp add: stamped_def)
qed

lemma pass_heartbeat:
  assumes hb: "heartbeat s objs cn u (T, L, w)"
    and rp: "record_planes env' r cc objs" and env': "env' = env\<lparr>env_Now := clk, env_order := ord\<rparr>" and pl: "plain_blueprint env' r"
    and run: "run_state (Reconcile env' r cc cn' ns nm) w = ((res, err), w')"
    and get: "run_state (c_get cc (rc_InstanceGVK r) ns nm) w = (got, w0)"
    and clk: "\<forall>v t v'. run_state clk v = (t, v') \<longrightarrow> T \<le> t \<and> time_ok t"
    and own: "\<forall>inst. got = Inr inst \<and> o_uid inst = u \<longrightarrow> cn' = cn \<and> recordNamespace r = sw_recordNamespace s"
  shows "vouched (stamped (sw_recordNamespace s) cn u (if refreshing u got err then T else L)) (objs TargetProvider w')"
proof -
  let ?P = "stamped (sw_recordNamespace s) cn u"
  have LT: "L \<le> T" and v: "vouched (?P L) (objs TargetProvider w)" using hb by (simp_all add: heartbeat_def)
  have st: "record_planes.stamps env' r (?P lo) cn' (o_uid inst)" if "got = Inr inst" "lo \<le> T" for lo inst
    unfolding env' by (rule hb_stamps [OF rp [unfolded env'] clk _ that(2)]) (use own that(1) in blast)
  show ?thesis
  proof (cases "refreshing u got err")
    case True
    then obtain inst where inst: "got = Inr inst" "err = None" "o_uid inst = u" "\<not> terminating inst" "Finalizer \<in> set (o_finalizers inst)"
      by (auto simp: refreshing_def split: sum.splits)
    have "vouched (?P T) (objs TargetProvider w')"
    proof (rule record_planes.Reconcile_refreshes [OF rp run [unfolded inst] v pl get [unfolded inst] inst(4,5) st [OF inst(1) order_refl]])
      show "?P T k l d" if "?P L k l d" "k \<noteq> record_key r cn' (o_uid inst)" for k l d
        using stamped_off [OF that(1)] that(2) own inst by simp
    qed
    with True show ?thesis by simp
  next
    case False
    with record_planes.Reconcile_vouches [OF rp run v pl get st [OF _ LT]] show ?thesis by simp
  qed
qed

lemma hb_reachable_heartbeat:
  assumes "sweep_store s objs" and "hb_reachable env s objs cn u x"
  shows "heartbeat s objs cn u x"
  using assms(2)
proof induction
  case (begins w T)
  then show ?case by (auto simp: heartbeat_def vouched_def stamped_def)
next
  case (moves x y)
  from moves(2,3) show ?case
  proof cases
    case (passes env' clk ord r cc cn' ns nm w res err w' got w0 T T' L)
    then have "vouched (stamped (sw_recordNamespace s) cn u (if refreshing u got err then T else L)) (objs TargetProvider w')"
      using pass_heartbeat moves(3) by metis
    then show ?thesis using moves(3) passes by (auto simp: heartbeat_def)
  next
    case (sweeps time_Now st w x' w' T T' L)
    have "vouched (stamped (sw_recordNamespace s) cn u L) (objs TargetProvider w')" if "vouched (stamped (sw_recordNamespace s) cn u L) (objs TargetProvider w)"
      by (rule keepsD [OF sweep_store.Sweep_vouches [OF assms(1) sweeps(3)] that sweeps(4)])
    then show ?thesis using moves(3) sweeps by (auto simp: heartbeat_def)
  next
    case (others w' w T T' L)
    show ?thesis using moves(3) others others_vouched [of _ cn u L "objs TargetProvider w" "objs TargetProvider w'"] by (auto simp: heartbeat_def)
  qed
qed

lemma startedAt_planes: "sweep_planes s objs \<Longrightarrow> sweep_planes (s\<lparr>sw_startedAt := t\<rparr>) objs"
  by (simp add: sweep_planes_def sw_clients_def cong: target.case_cong)

lemma startedAt_clock [simp]: "sw_now time_Now (s\<lparr>sw_startedAt := t\<rparr>) = sw_now time_Now s"
  by (simp add: sw_now_def)

lemma startedAt_is_record [simp]: "is_record (s\<lparr>sw_startedAt := t\<rparr>) = is_record s"
  by (simp add: is_record_def sw_recordNamespace_def fun_eq_iff)

text \<open>
  C5. A live instance keeps what it has. Take any history that begins without a record of the instance and consists of passes of all blueprints
  over all instances, with any outcome and map order, of sweeps with any outcome, and of whatever others do short of writing
  records of this instance. As long as the last error-free pass over the live instance began at most \<^verbatim>\<open>StaleAfter\<close> less one second ago,
  a sweep leaves every object of the instance as it is, its record included, on every plane. Hypotheses: the instance's uid
  is seen in one consumer cluster only, the reconcilers serving it record in the sweeper's namespace, and no blueprint templates a
  ConfigMap into the provider workspace (with one, a complete pass deletes its own record).
\<close>

theorem live_instance_survives:
  assumes "sweep_store s objs" and "hb_reachable env s objs cn u (T, L, w)"
    and "run_state (Sweep time_Now (s\<lparr>sw_startedAt := st\<rparr>)) w = ((err, s'), w')" and "run_state (sw_now time_Now s) w = (now, w)"
    and "now - L \<le> sw_StaleAfter s - Second" and "0 \<le> sw_StaleAfter s" and "sw_StaleAfter s < 2 ^ 63 - 1"
    and "\<And>k' ob. objs t w k' = Some ob \<Longrightarrow> same_object k k' \<Longrightarrow> labels_of ob LabelInstanceUID = Some u"
  shows "objs t w' k = objs t w k"
proof -
  have sp: "sweep_planes (s\<lparr>sw_startedAt := st\<rparr>) objs"
    by (rule startedAt_planes) (rule sweep_store.axioms(1) [OF assms(1)])
  have v: "vouched (stamped (sw_recordNamespace s) cn u L) (objs TargetProvider w)"
    using hb_reachable_heartbeat [OF assms(1,2)] by (simp add: heartbeat_def)
  have fresh: "record_uid rec \<noteq> u"
    if "objs TargetProvider w (okey rec) = Some rec" "is_record s rec" "stale s now rec" for rec
    using stamped_fresh [OF _ that(2) assms(5-7), of cn] vouchedD [OF v that(1)] that(2,3) by (auto simp: is_record_def okey_def)
  show ?thesis
  proof (rule sweep_planes.Sweep_frame [OF sp assms(3), of now])
    fix rec
    assume "objs TargetProvider w (okey rec) = Some rec" "is_record (s\<lparr>sw_startedAt := st\<rparr>) rec" "stale (s\<lparr>sw_startedAt := st\<rparr>) now rec"
    with fresh have rec: "record_uid rec \<noteq> u" "objs TargetProvider w (okey rec) = Some rec" by simp_all
    then have "\<not> (t = TargetProvider \<and> same_object k (okey rec))" using assms(8) [of "okey rec" rec] by (auto simp: go_index_def)
    moreover have "\<not> same_object k k'"
      if "objs t w k' = Some ob" "labels_of ob LabelInstanceUID = Some (record_uid rec)" for k' ob
      using assms(8) [OF that(1)] that(2) rec(1) by auto
    ultimately show "\<not> (t = TargetProvider \<and> same_object k (okey rec)) \<and>
        (\<forall>k' ob. objs t w k' = Some ob \<and> labels_of ob LabelInstanceUID = Some (record_uid rec) \<longrightarrow> \<not> same_object k k')"
      by blast
  qed (use assms(4) in simp)
qed

interpretation demo_records: record_planes "mem_env mk now" "demo_reconciler pg" "mem_client TargetConsumer" "\<lambda>t w. mem_find (w t)" for mk now pg
  by (rule record_planes.intro [OF demo.planes_axioms]) (simp add: mem_record.record_plane_axioms)

interpretation demo_store: sweep_store "demo_sweeper started now" "\<lambda>t w. mem_find (w t)" for started now
  by (rule sweep_store.intro [OF demo_sweep.sweep_planes_axioms]) (simp add: demo_sweeper_def mem_record.record_plane_axioms)

lemma demo_plain: "plain_blueprint (mem_env demo_runtime now) (demo_reconciler jobGVK)"
  using demo_runtime_for [of jobGVK] by (simp add: plain_blueprint_def same_kind_def demo_kind_defs)

text \<open>The record of a first pass, in a world where somebody else has changed everything but that record.\<close>

lemma demo_heartbeat:
  obtains ob where "mem_find (demo_after demo_runtime None jobGVK TargetProvider) (configMapGVK, ''default'', LivenessRecordName ''c1'' ''u-1'') = Some ob"
    and "okey ob = (configMapGVK, ''default'', LivenessRecordName ''c1'' ''u-1'')" and "labels_of ob = record_labels (demo_reconciler jobGVK) ''c1'' ''u-1''"
    and "hb_reachable (mem_env demo_runtime 0) (demo_sweeper started now) (\<lambda>t w. mem_find (w t)) ''c1'' ''u-1''
      (4 * Minute, 0, (\<lambda>_. [])(TargetProvider := [ob, stale_child jobGVK]))"
proof -
  let ?e = "mem_env demo_runtime 0" and ?r = "demo_reconciler jobGVK" and ?o = "\<lambda>t (w :: target mem). mem_find (w t)" and ?s = "demo_sweeper started now"
  let ?k = "(configMapGVK, ''default'', LivenessRecordName ''c1'' ''u-1'')"
  obtain now0 ob where ob: "mem_find (demo_after demo_runtime None jobGVK TargetProvider) ?k = Some ob" "labels_of ob = record_labels ?r ''c1'' ''u-1''"
    using planes.record_fresh [OF demo.planes_axioms _ _ _ demo_run [of jobGVK], where inst = "demo_instance None" and N = "{0}"]
    by (auto simp: demo_get demo_no_record demo_not_configmap)
  have key: "okey ob = ?k" by (rule mem_find_key [OF ob(1)])
  have "hb_reachable ?e ?s ?o ''c1'' ''u-1'' (0, 0, demo_world None jobGVK)"
    by (rule begins) (auto simp: demo_world_def demo_kind_defs split: if_splits)
  moreover have "hb_step ?e ?s ?o ''c1'' ''u-1'' (0, 0, demo_world None jobGVK) (0, 0, demo_after demo_runtime None jobGVK)"
    using hb_step.passes [where env = ?e and env' = ?e and clk = "env_Now ?e" and ord = "env_order ?e" and s = ?s and cn = "''c1''" and u = "''u-1''"
        and T = 0 and T' = 0 and L = 0 and objs = ?o, OF _ demo_records.record_planes_axioms demo_plain demo_run [of jobGVK]]
      demo_get time_ok_0
    by (simp add: demo_sweeper_def sw_recordNamespace_def defaultRecordNamespace_def)
  moreover have "hb_step ?e ?s ?o ''c1'' ''u-1'' (0, 0, demo_after demo_runtime None jobGVK)
      (4 * Minute, 0, (\<lambda>_. [])(TargetProvider := [ob, stale_child jobGVK]))"
    by (rule hb_step.others) (use ob(1) key in \<open>auto simp: Minute_def Second_def demo_kind_defs split: if_splits\<close>)
  ultimately show ?thesis using that [OF ob(1) key ob(2)] hb_reachable.moves by blast
qed

theorem live_instance_survives_witness:
  "\<exists>ob. mem_find (demo_after demo_runtime None jobGVK TargetProvider) (configMapGVK, ''default'', LivenessRecordName ''c1'' ''u-1'') = Some ob \<and>
     mem_find (snd (run_state (Sweep (ret 0) (demo_sweeper 1 (4 * Minute))) ((\<lambda>_. [])(TargetProvider := [ob, stale_child jobGVK]))) TargetProvider)
       (jobGVK, ''default'', ''old'') = Some (stale_child jobGVK)"
proof -
  let ?s = "demo_sweeper 1 (4 * Minute)"
  obtain ob where ob: "mem_find (demo_after demo_runtime None jobGVK TargetProvider) (configMapGVK, ''default'', LivenessRecordName ''c1'' ''u-1'') = Some ob"
    and key: "okey ob = (configMapGVK, ''default'', LivenessRecordName ''c1'' ''u-1'')"
    and re: "hb_reachable (mem_env demo_runtime 0) ?s (\<lambda>t w. mem_find (w t)) ''c1'' ''u-1''
      (4 * Minute, 0, (\<lambda>_. [])(TargetProvider := [ob, stale_child jobGVK]))"
    by (rule demo_heartbeat)
  let ?w = "(\<lambda>_. [])(TargetProvider := [ob, stale_child jobGVK])"
  obtain err s' w' where run: "run_state (Sweep (ret 0) (?s\<lparr>sw_startedAt := 1\<rparr>)) ?w = ((err, s'), w')" by (metis prod.exhaust)
  have "mem_find (w' TargetProvider) (jobGVK, ''default'', ''old'') = mem_find (?w TargetProvider) (jobGVK, ''default'', ''old'')"
    by (rule live_instance_survives [OF demo_store.sweep_store_axioms re run])
      (use key in \<open>auto simp: demo_sweeper_def sw_now_def Minute_def Second_def demo_kind_defs GCLabels_def label_defs split: if_splits\<close>)
  moreover have "?s\<lparr>sw_startedAt := 1\<rparr> = ?s" by (simp add: demo_sweeper_def)
  ultimately show ?thesis using ob key run by (auto simp: demo_kind_defs)
qed

section \<open>When passes fail\<close>

text \<open>A pass over the live instance \<open>u\<close> whose runtime cannot be built or whose engine run ends in an error.\<close>

definition failing_pass :: "('rt, 'w) env \<Rightarrow> 'w reconciler \<Rightarrow> 'w client \<Rightarrow> string \<Rightarrow> string \<Rightarrow> string \<Rightarrow> string \<Rightarrow> 'w \<Rightarrow> 'w \<Rightarrow> bool" where
  "failing_pass env r cc cn ns nm u w w' \<longleftrightarrow> (\<exists>inst w0.
     run_state (c_get cc (rc_InstanceGVK r) ns nm) w = (Inr inst, w0) \<and>
     o_uid inst = u \<and> \<not> terminating inst \<and> Finalizer \<in> set (o_finalizers inst) \<and>
     (case env_FromGraph env (rc_Graph r) (StampConsumerCluster inst cn) of
        Inl _ \<Rightarrow> True
      | Inr (rt, rt0) \<Rightarrow> snd (fst (run_state (Engine_Reconcile (env_selectors env) (lift_runtime rt) (pass_appliers r cc cn inst)
          (pass_readers r cc) (rc_Routing r)) (pass_start rt0 w0))) \<noteq> None) \<and>
     snd (run_state (Reconcile env r cc cn ns nm) w) = w')"

lemma failing_pass_record:
  assumes "planes env r cc objs" and "failing_pass env r cc cn ns nm u w w'"
  shows "objs TargetProvider w' (record_key r cn' uid) = objs TargetProvider w (record_key r cn' uid)"
proof -
  from assms(2) obtain inst w0 where get: "run_state (c_get cc (rc_InstanceGVK r) ns nm) w = (Inr inst, w0)"
    and inst: "o_uid inst = u" "\<not> terminating inst" "Finalizer \<in> set (o_finalizers inst)"
    and eng: "case env_FromGraph env (rc_Graph r) (StampConsumerCluster inst cn) of Inl _ \<Rightarrow> True
      | Inr (rt, rt0) \<Rightarrow> snd (fst (run_state (Engine_Reconcile (env_selectors env) (lift_runtime rt) (pass_appliers r cc cn inst)
          (pass_readers r cc) (rc_Routing r)) (pass_start rt0 w0))) \<noteq> None"
    and w': "snd (run_state (Reconcile env r cc cn ns nm) w) = w'" unfolding failing_pass_def by blast
  have w0: "objs TargetProvider w0 = objs TargetProvider w"
    by (rule leaves_storeD [OF client_leaves(1) [OF planes.apart [OF assms(1) target_clients_simps(1)]] get]) simp
  have w': "snd (run_state (reconcile_apply env r cc cn inst) w0) = w'"
    using w' get inst by (simp add: Reconcile_def terminating_def)
  show ?thesis
  proof (cases "env_FromGraph env (rc_Graph r) (StampConsumerCluster inst cn)")
    case (Inl e)
    with w' w0 show ?thesis by (simp add: reconcile_apply_def)
  next
    case (Inr b)
    obtain rt rt0 where b: "b = (rt, rt0)" by fastforce
    obtain res err p where run: "run_state (Engine_Reconcile (env_selectors env) (lift_runtime rt) (pass_appliers r cc cn inst)
      (pass_readers r cc) (rc_Routing r)) (pass_start rt0 w0) = ((res, err), p)" by (metis prod.exhaust)
    with eng Inr b obtain e where "err = Some e" by auto
    with w' Inr b run have "w' = p_world p" by (simp add: reconcile_apply_def run_pass_def pass_start_def)
    with planes.engine_record_frame [OF assms(1) run] w0 show ?thesis by simp
  qed
qed

lemma failing_passes_record:
  assumes "(failing_pass env r cc cn ns nm u)\<^sup>*\<^sup>* w w'" and "planes env r cc objs"
  shows "objs TargetProvider w' (record_key r cn' uid) = objs TargetProvider w (record_key r cn' uid)"
  using assms(1) by induction (simp_all add: failing_pass_record [OF assms(2)])

context sweep_planes
begin

lemma Sweep_consumer:
  assumes "leaves_store (objs TargetConsumer) (sw_now time_Now s)"
  shows "leaves_store (objs TargetConsumer) (Sweep time_Now (s\<lparr>sw_startedAt := t\<rparr>))"
  unfolding leaves_store_def
proof
  fix v
  have prov: "client_leaves_store (objs TargetConsumer) (sw_ProviderClient s)" by (rule apart [OF sw_clients_simps(1)]) simp
  have "keeps (\<lambda>w. objs TargetConsumer w = v) (sweepChildrenVia cl raw uid)" if "sw_clients s t = Some cl" for t cl raw uid
    by (rule leaves_keeps [OF via_apart [OF that]]) (use that in \<open>auto simp: sw_clients_def\<close>)
  then show "keeps (\<lambda>w. objs TargetConsumer w = v) (Sweep time_Now (s\<lparr>sw_startedAt := t\<rparr>))"
    by (intro Sweep_keeps leaves_keeps [OF assms] leaves_keeps [OF client_leaves(2) [OF prov]] leaves_keeps [OF client_leaves(5) [OF prov]])
qed

end

text \<open>
  C16. An instance whose passes fail is swept although it lives. Let the instance have the record an earlier pass wrote at \<open>t\<close>. However many passes
  over the live instance follow in which the runtime cannot be built or the engine returns an error, the record stays as it is; once it is older
  than \<^verbatim>\<open>StaleAfter\<close> and the grace period is over, a sweep against reliable servers deletes the record and every provider and host
  child of the blueprint's kinds. Nothing happens on the consumer plane, so the instance is still there.
\<close>

theorem failing_instance_swept:
  assumes "planes env r cc objs" and "sweep_planes s objs"
    and "objs TargetProvider w (record_key r cn u) = Some rec" and "labels_of rec = record_labels r cn u"
    and "nested_map rec ''data'' = Some (\<lambda>k. map_option JStr (record_data r t k))" and "time_ok t"
    and "u \<noteq> ''''" and "recordNamespace r = sw_recordNamespace s" and "\<And>p. \<forall>g \<in> set (childGVKs r p). wf_gvk g"
    and "(failing_pass env r cc cn ns nm u)\<^sup>*\<^sup>* w w1"
    and "run_state (Sweep time_Now s) w1 = ((err, s'), w2)" and "run_state (sw_now time_Now s) w1 = (now, w1)"
    and "leaves_store (objs TargetConsumer) (sw_now time_Now s)" and "\<And>p cl. sw_clients s p = Some cl \<Longrightarrow> reliable cl"
    and "\<not> IsZero (sw_startedAt s)" and "sw_StaleAfter s \<le> time_Sub now (sw_startedAt s)"
    and "0 \<le> sw_StaleAfter s" and "sw_StaleAfter s < 2 ^ 63 - 1" and "sw_StaleAfter s < now - t"
  shows "err = None \<and> objs TargetConsumer w2 = objs TargetConsumer w1 \<and> gone (objs TargetProvider w2) (record_key r cn u) \<and>
    (\<forall>p k ob. sw_clients s p \<noteq> None \<and> fst k \<in> set (childGVKs r p) \<and> objs p w2 k = Some ob \<and>
       labels_of ob LabelInstanceUID = Some u \<longrightarrow> terminating ob)"
proof -
  have rec: "objs TargetProvider w1 (record_key r cn u) = Some rec" using failing_passes_record [OF assms(10,1)] assms(3) by simp
  then have key: "okey rec = record_key r cn u"
    by (rule api_plane.objs_key [OF planes.plane [OF assms(1) target_clients_simps(2)]])
  have uid: "record_uid rec = u" by (simp add: assms(4) record_labels_def label_defs go_index_def)
  have isr: "is_record s rec" using key assms(4,8) by (simp add: is_record_def okey_def record_labels_def)
  have st: "stale s now rec" using record_age(2) [OF assms(5) _ _ assms(17,18,19)] assms(6) by (simp add: time_ok_def)
  have kinds: "p \<noteq> TargetConsumer \<Longrightarrow> record_kinds rec p = childGVKs r p" for p
    using sweep_kinds_join [OF assms(9) [of p]] record_data_nested [OF assms(5)]
    by (cases p) (simp_all add: record_kinds_def childGVKString_def)
  from sweep_planes.Sweep_reclaimed [OF assms(2,11,12,14,15,16)] rec isr st uid assms(7) key
  have "err = None" and re: "sweep_planes.reclaimed s objs rec w2" by auto
  moreover have "objs TargetConsumer w2 = objs TargetConsumer w1"
    using leaves_storeD [OF sweep_planes.Sweep_consumer [OF assms(2,13), of "sw_startedAt s"]] assms(11) by simp
  moreover have "terminating ob" if "sw_clients s p \<noteq> None" "fst k \<in> set (childGVKs r p)" "objs p w2 k = Some ob"
    "labels_of ob LabelInstanceUID = Some u" for p k ob
  proof -
    have "p \<noteq> TargetConsumer" using that(1) by (auto simp: sw_clients_def)
    with that re uid kinds show ?thesis unfolding sweep_planes.reclaimed_def [OF assms(2)] by metis
  qed
  moreover have "gone (objs TargetProvider w2) (record_key r cn u)"
    using re key unfolding sweep_planes.reclaimed_def [OF assms(2)] by simp
  ultimately show ?thesis by blast
qed

text \<open>A runtime that fails on every node, and the demo instance with a record from an earlier pass.\<close>

definition broken_runtime :: "graph \<Rightarrow> unit runtime" where
  "broken_runtime gr = (fixed_runtime gr (\<lambda>_. []))\<lparr>rt_GetDesired := (\<lambda>n. ret (Inl (ErrorString ''no such key'')))\<rparr>"

definition own_record :: obj where
  "own_record = (demo_record 0)\<lparr>o_name := LivenessRecordName ''c1'' ''u-1''\<rparr>"

definition broken_world :: "target mem" where
  "broken_world = (\<lambda>_. [])(TargetConsumer := [demo_instance None], TargetProvider := [own_record, stale_child jobGVK])"

lemma own_record_facts:
  "okey own_record = (configMapGVK, ''default'', LivenessRecordName ''c1'' ''u-1'')"
  "labels_of own_record = record_labels (demo_reconciler jobGVK) ''c1'' ''u-1''"
  "nested_map own_record ''data'' = Some (\<lambda>k. map_option JStr (record_data (demo_reconciler jobGVK) 0 k))"
  using demo_record_facts [of 0] by (simp_all add: own_record_def okey_def labels_of_def nested_map_def)

lemma broken_pass:
  "failing_pass (mem_env broken_runtime 0) (demo_reconciler jobGVK) (mem_client TargetConsumer) ''c1'' ''default'' ''w1'' ''u-1''
     broken_world (snd (run_state (Reconcile (mem_env broken_runtime 0) (demo_reconciler jobGVK) (mem_client TargetConsumer)
       ''c1'' ''default'' ''w1'') broken_world))"
  unfolding failing_pass_def
proof (intro exI conjI)
  show "run_state (c_get (mem_client TargetConsumer) (rc_InstanceGVK (demo_reconciler jobGVK)) ''default'' ''w1'') broken_world =
      (Inr (demo_instance None), broken_world)" by (simp add: mem_get_def broken_world_def)
qed (simp_all add: Engine_Reconcile_def lift_runtime_def broken_runtime_def fixed_runtime_def reconcile_node_def)

theorem failing_instance_swept_witness:
  "let w1 = snd (run_state (Reconcile (mem_env broken_runtime 0) (demo_reconciler jobGVK) (mem_client TargetConsumer)
       ''c1'' ''default'' ''w1'') broken_world);
     w2 = snd (run_state (Sweep (ret 0) (demo_sweeper 1 (20 * Minute))) w1)
   in mem_find (w2 TargetConsumer) = mem_find (w1 TargetConsumer) \<and>
     gone (mem_find (w2 TargetProvider)) (configMapGVK, ''default'', LivenessRecordName ''c1'' ''u-1'') \<and>
     {ob. mem_find (w2 TargetProvider) (jobGVK, ''default'', ''old'') = Some ob \<and> labels_of ob LabelInstanceUID = Some ''u-1'' \<and> \<not> terminating ob} = {}"
proof -
  let ?s = "demo_sweeper 1 (20 * Minute)" and ?r = "demo_reconciler jobGVK"
  define w1 where "w1 = snd (run_state (Reconcile (mem_env broken_runtime 0) ?r (mem_client TargetConsumer) ''c1'' ''default'' ''w1'') broken_world)"
  obtain err s' w2 where run: "run_state (Sweep (ret 0) ?s) w1 = ((err, s'), w2)" by (metis prod.exhaust)
  have f: "(failing_pass (mem_env broken_runtime 0) ?r (mem_client TargetConsumer) ''c1'' ''default'' ''w1'' ''u-1'')\<^sup>*\<^sup>* broken_world w1"
    using broken_pass unfolding w1_def by blast
  have rel: "reliable cl" if "sw_clients ?s p = Some cl" for p cl
    using that mem_reliable by (cases p) (auto simp: sw_clients_def demo_sweeper_def)
  have rec: "mem_find (broken_world TargetProvider) (record_key ?r ''c1'' ''u-1'') = Some own_record"
    by (simp add: broken_world_def own_record_facts)
  have wf: "\<forall>g \<in> set (childGVKs ?r p). wf_gvk g" for p
    by (cases p) (simp_all add: wf_gvk_def printable_def demo_kind_defs)
  have "err = None \<and> mem_find (w2 TargetConsumer) = mem_find (w1 TargetConsumer) \<and> gone (mem_find (w2 TargetProvider)) (record_key ?r ''c1'' ''u-1'') \<and>
    (\<forall>p k ob. sw_clients ?s p \<noteq> None \<and> fst k \<in> set (childGVKs ?r p) \<and> mem_find (w2 p) k = Some ob \<and>
       labels_of ob LabelInstanceUID = Some ''u-1'' \<longrightarrow> terminating ob)"
    by (rule failing_instance_swept [OF demo.planes_axioms demo_sweep.sweep_planes_axioms rec own_record_facts(2,3) time_ok_0 _ _ wf f run])
      (use rel in \<open>auto simp: demo_sweeper_def sw_now_def sw_recordNamespace_def defaultRecordNamespace_def IsZero_def time_Sub_def Minute_def Second_def intro!: leaves_storeI\<close>)
  then have "mem_find (w2 TargetConsumer) = mem_find (w1 TargetConsumer)"
    and "gone (mem_find (w2 TargetProvider)) (record_key ?r ''c1'' ''u-1'')"
    and "\<And>ob. mem_find (w2 TargetProvider) (jobGVK, ''default'', ''old'') = Some ob \<Longrightarrow> labels_of ob LabelInstanceUID = Some ''u-1'' \<Longrightarrow> terminating ob"
    by (auto dest: spec [where x = TargetProvider])
  with run show ?thesis by (auto simp: Let_def simp flip: w1_def)
qed

end
