(* ===== verification/DeepCopy.thy ===== *)
theory DeepCopy
  imports Publish
begin

text \<open>
  The deep copies of the blueprint types: \<^verbatim>\<open>src/api/v1alpha1/zz_generated.deepcopy.go\<close>. The rest of the development
  works on values; here the memory is explicit, with one store per Go type and addresses from a common
  supply. A nil pointer or slice is \<open>None\<close>; a cell of a slice holds its elements. Addresses are
  opaque, so a fresh one is drawn when the new object is complete.

  The structs of libraries that the generated code copies (conditions \<open>'d\<close>, kro's schema \<open>'c\<close> and resource \<open>'k\<close>, metadata \<open>'m\<close> and \<open>'n\<close>) may point to
  further memory of these libraries (maps, slices, raw bytes), the store \<open>hp_lib\<close>. Their deep copies, collected in \<open>copiers\<close>, are programs
  on the memory; what they promise is the contract \<open>copying\<close>: the copy means the same as the original and consists of new cells.
\<close>

section \<open>Memory\<close>

record type_meta =
  tm_Kind :: string
  tm_APIVersion :: string

record status_cell =
  sc_ExportedAPI :: string
  sc_IdentityHash :: string
  sc_ObservedSpecHash :: string
  sc_Conditions :: "nat option"

record spec_cell =
  pc_Schema :: "nat option"
  pc_Resources :: "nat option"

record 'm rgd_cell =
  rc_TypeMeta :: type_meta
  rc_ObjectMeta :: 'm
  rc_Spec :: spec_cell
  rc_Status :: status_cell

record 'n rgd_list_cell =
  lc_TypeMeta :: type_meta
  lc_ListMeta :: 'n
  lc_Items :: "nat option"

record ('d, 'c, 'k, 'm, 'n, 'l) heap =
  hp_conditions :: "nat \<Rightarrow> 'd list"
  hp_schemas :: "nat \<Rightarrow> 'c"
  hp_slots :: "nat \<Rightarrow> nat option list"
  hp_resources :: "nat \<Rightarrow> 'k resource"
  hp_items :: "nat \<Rightarrow> 'm rgd_cell list"
  hp_statuses :: "nat \<Rightarrow> status_cell"
  hp_specs :: "nat \<Rightarrow> spec_cell"
  hp_rgds :: "nat \<Rightarrow> 'm rgd_cell"
  hp_lists :: "nat \<Rightarrow> 'n rgd_list_cell"
  hp_lib :: "nat \<Rightarrow> 'l"
  hp_next :: nat

record ('d, 'c, 'k, 'm, 'n, 'l) copiers =
  cp_Condition :: "'d \<Rightarrow> (('d, 'c, 'k, 'm, 'n, 'l) heap, 'd) state"
  cp_Schema :: "'c \<Rightarrow> (('d, 'c, 'k, 'm, 'n, 'l) heap, 'c) state"
  cp_Resource :: "'k kro_resource \<Rightarrow> (('d, 'c, 'k, 'm, 'n, 'l) heap, 'k kro_resource) state"
  cp_ObjectMeta :: "'m \<Rightarrow> (('d, 'c, 'k, 'm, 'n, 'l) heap, 'm) state"
  cp_ListMeta :: "'n \<Rightarrow> (('d, 'c, 'k, 'm, 'n, 'l) heap, 'n) state"

text \<open>Reading a cell, and storing a value in a new one.\<close>

definition rd :: "('h \<Rightarrow> nat \<Rightarrow> 'a) \<Rightarrow> nat \<Rightarrow> ('h, 'a) state" where
  "rd store a = State (\<lambda>h. (store h a, h))"

definition new_cell :: "(nat \<Rightarrow> ('d, 'c, 'k, 'm, 'n, 'l) heap \<Rightarrow> ('d, 'c, 'k, 'm, 'n, 'l) heap) \<Rightarrow> (('d, 'c, 'k, 'm, 'n, 'l) heap, nat) state" where
  "new_cell put = State (\<lambda>h. (hp_next h, (put (hp_next h) h)\<lparr>hp_next := Suc (hp_next h)\<rparr>))"

abbreviation "put_conditions v \<equiv> \<lambda>a h. h\<lparr>hp_conditions := (hp_conditions h)(a := v)\<rparr>"
abbreviation "put_schema v \<equiv> \<lambda>a h. h\<lparr>hp_schemas := (hp_schemas h)(a := v)\<rparr>"
abbreviation "put_slots v \<equiv> \<lambda>a h. h\<lparr>hp_slots := (hp_slots h)(a := v)\<rparr>"
abbreviation "put_resource v \<equiv> \<lambda>a h. h\<lparr>hp_resources := (hp_resources h)(a := v)\<rparr>"
abbreviation "put_items v \<equiv> \<lambda>a h. h\<lparr>hp_items := (hp_items h)(a := v)\<rparr>"
abbreviation "put_status v \<equiv> \<lambda>a h. h\<lparr>hp_statuses := (hp_statuses h)(a := v)\<rparr>"
abbreviation "put_spec v \<equiv> \<lambda>a h. h\<lparr>hp_specs := (hp_specs h)(a := v)\<rparr>"
abbreviation "put_rgd v \<equiv> \<lambda>a h. h\<lparr>hp_rgds := (hp_rgds h)(a := v)\<rparr>"
abbreviation "put_list v \<equiv> \<lambda>a h. h\<lparr>hp_lists := (hp_lists h)(a := v)\<rparr>"
abbreviation "put_lib v \<equiv> \<lambda>a h. h\<lparr>hp_lib := (hp_lib h)(a := v)\<rparr>"

section \<open>The generated functions\<close>

text \<open>\<^verbatim>\<open>DeepCopyInto\<close> returns what it leaves in \<^verbatim>\<open>*out\<close>, which starts as \<^verbatim>\<open>*in\<close>.\<close>

fun copy_conditions :: "('d, 'c, 'k, 'm, 'n, 'l) copiers \<Rightarrow> 'd list \<Rightarrow> (('d, 'c, 'k, 'm, 'n, 'l) heap, 'd list) state" where
  "copy_conditions L [] = ret []"
| "copy_conditions L (x # xs) =
     do {
       y \<leftarrow> cp_Condition L x;
       ys \<leftarrow> copy_conditions L xs;
       ret (y # ys)
     }"

definition BlueprintStatus_DeepCopyInto :: "('d, 'c, 'k, 'm, 'n, 'l) copiers \<Rightarrow> status_cell \<Rightarrow>
    (('d, 'c, 'k, 'm, 'n, 'l) heap, status_cell) state" where
  "BlueprintStatus_DeepCopyInto L s =
     (case sc_Conditions s of
        None \<Rightarrow> ret s
      | Some a \<Rightarrow>
          do {
            cs \<leftarrow> rd hp_conditions a;
            cs' \<leftarrow> copy_conditions L cs;
            b \<leftarrow> new_cell (put_conditions cs');
            ret (s\<lparr>sc_Conditions := Some b\<rparr>)
          })"

definition Resource_DeepCopyInto :: "('d, 'c, 'k, 'm, 'n, 'l) copiers \<Rightarrow> 'k resource \<Rightarrow>
    (('d, 'c, 'k, 'm, 'n, 'l) heap, 'k resource) state" where
  "Resource_DeepCopyInto L r = do { k \<leftarrow> cp_Resource L (res_kro r); ret (r\<lparr>res_kro := k\<rparr>) }"

fun copy_resources :: "('d, 'c, 'k, 'm, 'n, 'l) copiers \<Rightarrow> nat option list \<Rightarrow>
    (('d, 'c, 'k, 'm, 'n, 'l) heap, nat option list) state" where
  "copy_resources L [] = ret []"
| "copy_resources L (None # ps) = do { qs \<leftarrow> copy_resources L ps; ret (None # qs) }"
| "copy_resources L (Some a # ps) =
     do {
       r \<leftarrow> rd hp_resources a;
       r' \<leftarrow> Resource_DeepCopyInto L r;
       b \<leftarrow> new_cell (put_resource r');
       qs \<leftarrow> copy_resources L ps;
       ret (Some b # qs)
     }"

definition copy_schema :: "('d, 'c, 'k, 'm, 'n, 'l) copiers \<Rightarrow> nat option \<Rightarrow> (('d, 'c, 'k, 'm, 'n, 'l) heap, nat option) state" where
  "copy_schema L p =
     (case p of
        None \<Rightarrow> ret None
      | Some a \<Rightarrow>
          do {
            x \<leftarrow> rd hp_schemas a;
            y \<leftarrow> cp_Schema L x;
            b \<leftarrow> new_cell (put_schema y);
            ret (Some b)
          })"

definition copy_slice :: "('d, 'c, 'k, 'm, 'n, 'l) copiers \<Rightarrow> nat option \<Rightarrow> (('d, 'c, 'k, 'm, 'n, 'l) heap, nat option) state" where
  "copy_slice L p =
     (case p of
        None \<Rightarrow> ret None
      | Some a \<Rightarrow>
          do {
            ps \<leftarrow> rd hp_slots a;
            qs \<leftarrow> copy_resources L ps;
            b \<leftarrow> new_cell (put_slots qs);
            ret (Some b)
          })"

definition ResourceGraphDefinitionSpec_DeepCopyInto :: "('d, 'c, 'k, 'm, 'n, 'l) copiers \<Rightarrow> spec_cell \<Rightarrow>
    (('d, 'c, 'k, 'm, 'n, 'l) heap, spec_cell) state" where
  "ResourceGraphDefinitionSpec_DeepCopyInto L s =
     do {
       schema \<leftarrow> copy_schema L (pc_Schema s);
       resources \<leftarrow> copy_slice L (pc_Resources s);
       ret (s\<lparr>pc_Schema := schema, pc_Resources := resources\<rparr>)
     }"

definition ResourceGraphDefinition_DeepCopyInto :: "('d, 'c, 'k, 'm, 'n, 'l) copiers \<Rightarrow> 'm rgd_cell \<Rightarrow>
    (('d, 'c, 'k, 'm, 'n, 'l) heap, 'm rgd_cell) state" where
  "ResourceGraphDefinition_DeepCopyInto L r =
     do {
       meta \<leftarrow> cp_ObjectMeta L (rc_ObjectMeta r);
       spec \<leftarrow> ResourceGraphDefinitionSpec_DeepCopyInto L (rc_Spec r);
       status \<leftarrow> BlueprintStatus_DeepCopyInto L (rc_Status r);
       ret (r\<lparr>rc_ObjectMeta := meta, rc_Spec := spec, rc_Status := status\<rparr>)
     }"

fun copy_items :: "('d, 'c, 'k, 'm, 'n, 'l) copiers \<Rightarrow> 'm rgd_cell list \<Rightarrow> (('d, 'c, 'k, 'm, 'n, 'l) heap, 'm rgd_cell list) state" where
  "copy_items L [] = ret []"
| "copy_items L (r # rs) =
     do {
       r' \<leftarrow> ResourceGraphDefinition_DeepCopyInto L r;
       rs' \<leftarrow> copy_items L rs;
       ret (r' # rs')
     }"

definition ResourceGraphDefinitionList_DeepCopyInto :: "('d, 'c, 'k, 'm, 'n, 'l) copiers \<Rightarrow> 'n rgd_list_cell \<Rightarrow>
    (('d, 'c, 'k, 'm, 'n, 'l) heap, 'n rgd_list_cell) state" where
  "ResourceGraphDefinitionList_DeepCopyInto L l =
     do {
       meta \<leftarrow> cp_ListMeta L (lc_ListMeta l);
       case lc_Items l of
         None \<Rightarrow> ret (l\<lparr>lc_ListMeta := meta\<rparr>)
       | Some a \<Rightarrow>
           do {
             rs \<leftarrow> rd hp_items a;
             rs' \<leftarrow> copy_items L rs;
             b \<leftarrow> new_cell (put_items rs');
             ret (l\<lparr>lc_ListMeta := meta, lc_Items := Some b\<rparr>)
           }
     }"

definition BlueprintStatus_DeepCopy :: "('d, 'c, 'k, 'm, 'n, 'l) copiers \<Rightarrow> nat option \<Rightarrow> (('d, 'c, 'k, 'm, 'n, 'l) heap, nat option) state" where
  "BlueprintStatus_DeepCopy L p =
     (case p of
        None \<Rightarrow> ret None
      | Some a \<Rightarrow> do { s \<leftarrow> rd hp_statuses a; s' \<leftarrow> BlueprintStatus_DeepCopyInto L s; b \<leftarrow> new_cell (put_status s'); ret (Some b) })"

definition Resource_DeepCopy :: "('d, 'c, 'k, 'm, 'n, 'l) copiers \<Rightarrow> nat option \<Rightarrow> (('d, 'c, 'k, 'm, 'n, 'l) heap, nat option) state" where
  "Resource_DeepCopy L p =
     (case p of
        None \<Rightarrow> ret None
      | Some a \<Rightarrow> do { r \<leftarrow> rd hp_resources a; r' \<leftarrow> Resource_DeepCopyInto L r; b \<leftarrow> new_cell (put_resource r'); ret (Some b) })"

definition ResourceGraphDefinitionSpec_DeepCopy :: "('d, 'c, 'k, 'm, 'n, 'l) copiers \<Rightarrow> nat option \<Rightarrow>
    (('d, 'c, 'k, 'm, 'n, 'l) heap, nat option) state" where
  "ResourceGraphDefinitionSpec_DeepCopy L p =
     (case p of
        None \<Rightarrow> ret None
      | Some a \<Rightarrow> do { s \<leftarrow> rd hp_specs a; s' \<leftarrow> ResourceGraphDefinitionSpec_DeepCopyInto L s; b \<leftarrow> new_cell (put_spec s'); ret (Some b) })"

definition ResourceGraphDefinition_DeepCopy :: "('d, 'c, 'k, 'm, 'n, 'l) copiers \<Rightarrow> nat option \<Rightarrow>
    (('d, 'c, 'k, 'm, 'n, 'l) heap, nat option) state" where
  "ResourceGraphDefinition_DeepCopy L p =
     (case p of
        None \<Rightarrow> ret None
      | Some a \<Rightarrow> do { r \<leftarrow> rd hp_rgds a; r' \<leftarrow> ResourceGraphDefinition_DeepCopyInto L r; b \<leftarrow> new_cell (put_rgd r'); ret (Some b) })"

definition ResourceGraphDefinitionList_DeepCopy :: "('d, 'c, 'k, 'm, 'n, 'l) copiers \<Rightarrow> nat option \<Rightarrow>
    (('d, 'c, 'k, 'm, 'n, 'l) heap, nat option) state" where
  "ResourceGraphDefinitionList_DeepCopy L p =
     (case p of
        None \<Rightarrow> ret None
      | Some a \<Rightarrow> do { l \<leftarrow> rd hp_lists a; l' \<leftarrow> ResourceGraphDefinitionList_DeepCopyInto L l; b \<leftarrow> new_cell (put_list l'); ret (Some b) })"

text \<open>A \<^verbatim>\<open>runtime.Object\<close> holds a typed pointer; \<open>None\<close> is the nil interface, which a nil pointer must become.\<close>

datatype runtime_object = RGDObject nat | RGDListObject nat

definition ResourceGraphDefinition_DeepCopyObject :: "('d, 'c, 'k, 'm, 'n, 'l) copiers \<Rightarrow> nat option \<Rightarrow>
    (('d, 'c, 'k, 'm, 'n, 'l) heap, runtime_object option) state" where
  "ResourceGraphDefinition_DeepCopyObject L p =
     do { c \<leftarrow> ResourceGraphDefinition_DeepCopy L p; case c of Some b \<Rightarrow> ret (Some (RGDObject b)) | None \<Rightarrow> ret None }"

definition ResourceGraphDefinitionList_DeepCopyObject :: "('d, 'c, 'k, 'm, 'n, 'l) copiers \<Rightarrow> nat option \<Rightarrow>
    (('d, 'c, 'k, 'm, 'n, 'l) heap, runtime_object option) state" where
  "ResourceGraphDefinitionList_DeepCopyObject L p =
     do { c \<leftarrow> ResourceGraphDefinitionList_DeepCopy L p; case c of Some b \<Rightarrow> ret (Some (RGDListObject b)) | None \<Rightarrow> ret None }"

section \<open>Copies\<close>

text \<open>Heaps that hold the same in the given cells; a heap that only has new cells.\<close>

definition agree_on :: "nat set \<Rightarrow> ('d, 'c, 'k, 'm, 'n, 'l) heap \<Rightarrow> ('d, 'c, 'k, 'm, 'n, 'l) heap \<Rightarrow> bool" where
  "agree_on A h h' \<longleftrightarrow> (\<forall>a\<in>A. hp_conditions h' a = hp_conditions h a \<and> hp_schemas h' a = hp_schemas h a \<and>
     hp_slots h' a = hp_slots h a \<and> hp_resources h' a = hp_resources h a \<and> hp_items h' a = hp_items h a \<and>
     hp_statuses h' a = hp_statuses h a \<and> hp_specs h' a = hp_specs h a \<and> hp_rgds h' a = hp_rgds h a \<and> hp_lists h' a = hp_lists h a \<and>
     hp_lib h' a = hp_lib h a)"

definition extends :: "('d, 'c, 'k, 'm, 'n, 'l) heap \<Rightarrow> ('d, 'c, 'k, 'm, 'n, 'l) heap \<Rightarrow> bool" where
  "extends h h' \<longleftrightarrow> hp_next h \<le> hp_next h' \<and> agree_on {..<hp_next h} h h'"

lemma agree_on_mono: "agree_on A h h' \<Longrightarrow> B \<subseteq> A \<Longrightarrow> agree_on B h h'"
  by (auto simp: agree_on_def)

lemma extends_refl [simp]: "extends h h"
  by (simp add: extends_def agree_on_def)

lemma extends_trans: "extends h h1 \<Longrightarrow> extends h1 h2 \<Longrightarrow> extends h h2"
  by (auto simp: extends_def agree_on_def)

lemma run_rd [simp]: "run_state (rd store a) h = (store h a, h)"
  by (simp add: rd_def)

lemma run_new [simp]: "run_state (new_cell put) h = (hp_next h, (put (hp_next h) h)\<lparr>hp_next := Suc (hp_next h)\<rparr>)"
  by (simp add: new_cell_def)

text \<open>
  The contract of a kind of object: its meaning \<open>den\<close> and its addresses \<open>fp\<close> depend on the cells at these
  addresses only. From it follow the two facts every copying step needs: an object is not affected by
  what is allocated after it, and a copy stays a copy.
\<close>

definition copied :: "(('d, 'c, 'k, 'm, 'n, 'l) heap \<Rightarrow> 'x \<Rightarrow> 'v) \<Rightarrow> (('d, 'c, 'k, 'm, 'n, 'l) heap \<Rightarrow> 'x \<Rightarrow> nat set) \<Rightarrow>
    ('d, 'c, 'k, 'm, 'n, 'l) heap \<Rightarrow> 'x \<Rightarrow> ('d, 'c, 'k, 'm, 'n, 'l) heap \<Rightarrow> 'x \<Rightarrow> bool" where
  "copied den fp h x h' y \<longleftrightarrow> extends h h' \<and> den h' y = den h x \<and> fp h' y \<subseteq> {hp_next h..<hp_next h'}"

locale denotation =
  fixes den :: "('d, 'c, 'k, 'm, 'n, 'l) heap \<Rightarrow> 'x \<Rightarrow> 'v" and fp :: "('d, 'c, 'k, 'm, 'n, 'l) heap \<Rightarrow> 'x \<Rightarrow> nat set"
  assumes local: "agree_on (fp h x) h h' \<Longrightarrow> den h' x = den h x \<and> fp h' x = fp h x"
begin

lemma kept:
  assumes "extends h h'" and "fp h x \<subseteq> {..<hp_next h}"
  shows "den h' x = den h x" "fp h' x = fp h x" "fp h' x \<subseteq> {..<hp_next h'}"
  using assms local [of h x h'] agree_on_mono [of "{..<hp_next h}" h h' "fp h x"] by (auto simp: extends_def)

lemma copied_after:
  assumes "copied den fp h x h1 y" and "extends h1 h2"
  shows "copied den fp h x h2 y"
proof -
  have "fp h1 y \<subseteq> {..<hp_next h1}" using assms(1) by (auto simp: copied_def)
  from kept [OF assms(2) this] show ?thesis
    using assms extends_trans by (fastforce simp: copied_def extends_def)
qed

lemma copied_before:
  assumes "extends h h1" and "fp h x \<subseteq> {..<hp_next h}" and "copied den fp h1 x h2 y"
  shows "copied den fp h x h2 y"
  using assms kept [OF assms(1,2)] extends_trans by (fastforce simp: copied_def extends_def)

text \<open>Original and copy do not affect each other.\<close>

lemma copied_independent:
  assumes "copied den fp h x h' y" and "fp h x \<subseteq> {..<hp_next h}"
  shows "agree_on {..<hp_next h} h' h2 \<Longrightarrow> den h2 x = den h x"
    and "agree_on {hp_next h..<hp_next h'} h' h2 \<Longrightarrow> den h2 y = den h x"
proof -
  have e: "extends h h'" and d: "den h' y = den h x" and f: "fp h' y \<subseteq> {hp_next h..<hp_next h'}"
    using assms(1) by (auto simp: copied_def)
  note k = kept [OF e assms(2)]
  show "den h2 x = den h x" if "agree_on {..<hp_next h} h' h2"
    using local [of h' x h2] agree_on_mono [OF that, of "fp h' x"] k assms(2) by simp
  show "den h2 y = den h x" if "agree_on {hp_next h..<hp_next h'} h' h2"
    using local [of h' y h2] agree_on_mono [OF that f] d by simp
qed

end

text \<open>\<open>copying den fp cp\<close>: \<open>cp\<close> is a deep copy.\<close>

locale copying = denotation den fp
  for den :: "('d, 'c, 'k, 'm, 'n, 'l) heap \<Rightarrow> 'x \<Rightarrow> 'v" and fp :: "('d, 'c, 'k, 'm, 'n, 'l) heap \<Rightarrow> 'x \<Rightarrow> nat set" +
  fixes cp :: "'x \<Rightarrow> (('d, 'c, 'k, 'm, 'n, 'l) heap, 'x) state"
  assumes copies: "run_state (cp x) h = (y, h') \<Longrightarrow> fp h x \<subseteq> {..<hp_next h} \<Longrightarrow> copied den fp h x h' y"

subsection \<open>Deep copies of composed objects\<close>

text \<open>Plain values, pairs, parts of a struct, elements of a slice, and what a pointer points to.\<close>

lemma copying_plain: "copying (\<lambda>h x. x) (\<lambda>h x. {}) ret"
  by unfold_locales (simp_all add: copied_def)

lemma copyingD:
  assumes "copying den fp cp"
  shows "denotation den fp" and "run_state (cp x) h = (y, h') \<Longrightarrow> fp h x \<subseteq> {..<hp_next h} \<Longrightarrow> copied den fp h x h' y"
  using copying.axioms(1) [OF assms] copying.copies [OF assms] by blast+

lemma copyingI:
  assumes "\<And>h h' x. agree_on (fp h x) h h' \<Longrightarrow> den h' x = den h x \<and> fp h' x = fp h x"
    and "\<And>x h y h'. run_state (cp x) h = (y, h') \<Longrightarrow> fp h x \<subseteq> {..<hp_next h} \<Longrightarrow> copied den fp h x h' y"
  shows "copying den fp cp"
  by unfold_locales (use assms in blast)+

lemma copying_image:
  assumes "copying den fp cp"
  shows "copying (\<lambda>h x. g (den h x)) fp cp"
  by (rule copyingI) (use denotation.local [OF copyingD(1) [OF assms]] copyingD(2) [OF assms] in \<open>auto simp: copied_def\<close>)

lemma copying_part:
  assumes "copying den fp cp" and "\<And>r y. sel (mk r y) = y" and "\<And>r y. rest (mk r y) = rest r"
  shows "copying (\<lambda>h r. (den h (sel r), rest r)) (\<lambda>h r. fp h (sel r)) (\<lambda>r. do { y \<leftarrow> cp (sel r); ret (mk r y) })"
proof (rule copyingI)
  show "(den h' (sel r), rest r) = (den h (sel r), rest r) \<and> fp h' (sel r) = fp h (sel r)" if "agree_on (fp h (sel r)) h h'" for h h' r
    using denotation.local [OF copyingD(1) [OF assms(1)] that] by simp
  show "copied (\<lambda>h r. (den h (sel r), rest r)) (\<lambda>h r. fp h (sel r)) h r h' s"
    if "run_state (do { y \<leftarrow> cp (sel r); ret (mk r y) }) h = (s, h')" and "fp h (sel r) \<subseteq> {..<hp_next h}" for r h s h'
  proof -
    obtain y h1 where y: "run_state (cp (sel r)) h = (y, h1)" by fastforce
    then have "s = mk r y" "h1 = h'" using that(1) by simp_all
    with copyingD(2) [OF assms(1) y that(2)] assms(2,3) show ?thesis by (simp add: copied_def)
  qed
qed

text \<open>Two copies in sequence: neither disturbs the other.\<close>

lemma copied_two:
  assumes 1: "copying den1 fp1 cp1" and 2: "copying den2 fp2 cp2"
    and "run_state (cp1 x1) h = (y1, h1)" and "run_state (cp2 x2) h1 = (y2, h2)"
    and fp: "fp1 h x1 \<subseteq> {..<hp_next h}" "fp2 h x2 \<subseteq> {..<hp_next h}"
  shows "copied den1 fp1 h x1 h2 y1" and "copied den2 fp2 h x2 h2 y2"
proof -
  have c1: "copied den1 fp1 h x1 h1 y1" by (rule copyingD(2) [OF 1 assms(3) fp(1)])
  then have e1: "extends h h1" by (simp add: copied_def)
  have c2: "copied den2 fp2 h1 x2 h2 y2"
    by (rule copyingD(2) [OF 2 assms(4) denotation.kept(3) [OF copyingD(1) [OF 2] e1 fp(2)]])
  then show "copied den1 fp1 h x1 h2 y1"
    by (intro denotation.copied_after [OF copyingD(1) [OF 1] c1]) (simp add: copied_def)
  show "copied den2 fp2 h x2 h2 y2" by (rule denotation.copied_before [OF copyingD(1) [OF 2] e1 fp(2) c2])
qed

lemma agree_on_Un: "agree_on (A \<union> B) h h' \<longleftrightarrow> agree_on A h h' \<and> agree_on B h h'"
  by (auto simp: agree_on_def)

lemma copying_pair:
  assumes "copying den1 fp1 cp1" and "copying den2 fp2 cp2"
  shows "copying (\<lambda>h x. (den1 h (fst x), den2 h (snd x))) (\<lambda>h x. fp1 h (fst x) \<union> fp2 h (snd x))
    (\<lambda>x. do { y \<leftarrow> cp1 (fst x); z \<leftarrow> cp2 (snd x); ret (y, z) })"
proof (rule copyingI)
  show "(den1 h' (fst x), den2 h' (snd x)) = (den1 h (fst x), den2 h (snd x)) \<and> fp1 h' (fst x) \<union> fp2 h' (snd x) = fp1 h (fst x) \<union> fp2 h (snd x)"
    if "agree_on (fp1 h (fst x) \<union> fp2 h (snd x)) h h'" for h h' x
    using that denotation.local [OF copyingD(1) [OF assms(1)], of h "fst x" h'] denotation.local [OF copyingD(1) [OF assms(2)], of h "snd x" h']
    by (simp add: agree_on_Un)
next
  fix x h y h'
  assume run: "run_state (do { y \<leftarrow> cp1 (fst x); z \<leftarrow> cp2 (snd x); ret (y, z) }) h = (y, h')"
    and fp: "fp1 h (fst x) \<union> fp2 h (snd x) \<subseteq> {..<hp_next h}"
  obtain y1 h1 where r1: "run_state (cp1 (fst x)) h = (y1, h1)" by fastforce
  obtain y2 h2 where r2: "run_state (cp2 (snd x)) h1 = (y2, h2)" by fastforce
  have "y = (y1, y2)" "h' = h2" using run r1 r2 by simp_all
  with copied_two [OF assms r1 r2] fp
  show "copied (\<lambda>h x. (den1 h (fst x), den2 h (snd x))) (\<lambda>h x. fp1 h (fst x) \<union> fp2 h (snd x)) h x h' y" by (simp add: copied_def)
qed

text \<open>The elements of a slice.\<close>

fun copy_each :: "('x \<Rightarrow> ('h, 'x) state) \<Rightarrow> 'x list \<Rightarrow> ('h, 'x list) state" where
  "copy_each cp [] = ret []"
| "copy_each cp (x # xs) = do { y \<leftarrow> cp x; ys \<leftarrow> copy_each cp xs; ret (y # ys) }"

definition fp_each :: "('h \<Rightarrow> 'x \<Rightarrow> nat set) \<Rightarrow> 'h \<Rightarrow> 'x list \<Rightarrow> nat set" where
  "fp_each fp h xs = \<Union>(fp h ` set xs)"

lemma fp_each_simps [simp]: "fp_each fp h [] = {}" "fp_each fp h (x # xs) = fp h x \<union> fp_each fp h xs"
  by (simp_all add: fp_each_def)

lemma denotation_each:
  assumes "denotation den fp"
  shows "denotation (\<lambda>h. map (den h)) (fp_each fp)"
proof
  show "map (den h') xs = map (den h) xs \<and> fp_each fp h' xs = fp_each fp h xs" if "agree_on (fp_each fp h xs) h h'" for h h' xs
    using that denotation.local [OF assms] by (induction xs) (auto simp: agree_on_Un)
qed

lemma copying_each:
  assumes "copying den fp cp"
  shows "copying (\<lambda>h. map (den h)) (fp_each fp) (copy_each cp)"
proof (rule copying.intro [OF denotation_each [OF copyingD(1) [OF assms]]], rule copying_axioms.intro)
  note el = copyingD(1) [OF assms]
  note li = denotation_each [OF el]
  show "copied (\<lambda>h. map (den h)) (fp_each fp) h xs h' ys"
    if "run_state (copy_each cp xs) h = (ys, h')" "fp_each fp h xs \<subseteq> {..<hp_next h}" for xs h ys h'
    using that
  proof (induction xs arbitrary: h ys)
    case Nil
    then show ?case by (simp add: copied_def)
  next
    case (Cons x xs)
    obtain y h1 where r: "run_state (cp x) h = (y, h1)" by fastforce
    obtain zs where rs: "run_state (copy_each cp xs) h1 = (zs, h')" and ys: "ys = y # zs"
      using Cons.prems(1) r by (auto split: prod.splits)
    have fp: "fp h x \<subseteq> {..<hp_next h}" "fp_each fp h xs \<subseteq> {..<hp_next h}" using Cons.prems(2) by simp_all
    have c: "copied den fp h x h1 y" by (rule copyingD(2) [OF assms r fp(1)])
    then have e: "extends h h1" by (simp add: copied_def)
    have cs: "copied (\<lambda>h. map (den h)) (fp_each fp) h1 xs h' zs"
      by (rule Cons.IH [OF rs denotation.kept(3) [OF li e fp(2)]])
    then have "copied den fp h x h' y" by (intro denotation.copied_after [OF el c]) (simp add: copied_def)
    with denotation.copied_before [OF li e fp(2) cs] ys show ?case by (simp add: copied_def)
  qed
qed

text \<open>A pointer, or the reference of a slice, with the store of its type.\<close>

definition cell_of :: "(('d, 'c, 'k, 'm, 'n, 'l) heap \<Rightarrow> nat \<Rightarrow> 'x) \<Rightarrow>
    ('x \<Rightarrow> nat \<Rightarrow> ('d, 'c, 'k, 'm, 'n, 'l) heap \<Rightarrow> ('d, 'c, 'k, 'm, 'n, 'l) heap) \<Rightarrow> bool" where
  "cell_of store put \<longleftrightarrow> (\<forall>h h' a. agree_on {a} h h' \<longrightarrow> store h' a = store h a) \<and>
     (\<forall>v a h. store (put v a h) a = v \<and> agree_on (- {a}) h (put v a h))"

lemma cell_of_stores [simp]:
  "cell_of hp_conditions put_conditions" "cell_of hp_schemas put_schema" "cell_of hp_slots put_slots" "cell_of hp_resources put_resource"
  "cell_of hp_items put_items" "cell_of hp_lists put_list" "cell_of hp_lib put_lib" "cell_of hp_statuses put_status"
  "cell_of hp_specs put_spec" "cell_of hp_rgds put_rgd"
  by (simp_all add: cell_of_def agree_on_def)

definition den_ptr :: "('h \<Rightarrow> nat \<Rightarrow> 'x) \<Rightarrow> ('h \<Rightarrow> 'x \<Rightarrow> 'v) \<Rightarrow> 'h \<Rightarrow> nat option \<Rightarrow> 'v option" where
  "den_ptr store den h p = map_option (\<lambda>a. den h (store h a)) p"

definition fp_ptr :: "('h \<Rightarrow> nat \<Rightarrow> 'x) \<Rightarrow> ('h \<Rightarrow> 'x \<Rightarrow> nat set) \<Rightarrow> 'h \<Rightarrow> nat option \<Rightarrow> nat set" where
  "fp_ptr store fp h p = (case p of None \<Rightarrow> {} | Some a \<Rightarrow> insert a (fp h (store h a)))"

definition copy_ptr :: "(('d, 'c, 'k, 'm, 'n, 'l) heap \<Rightarrow> nat \<Rightarrow> 'x) \<Rightarrow>
    ('x \<Rightarrow> nat \<Rightarrow> ('d, 'c, 'k, 'm, 'n, 'l) heap \<Rightarrow> ('d, 'c, 'k, 'm, 'n, 'l) heap) \<Rightarrow>
    ('x \<Rightarrow> (('d, 'c, 'k, 'm, 'n, 'l) heap, 'x) state) \<Rightarrow> nat option \<Rightarrow> (('d, 'c, 'k, 'm, 'n, 'l) heap, nat option) state" where
  "copy_ptr store put cp p =
     (case p of None \<Rightarrow> ret None | Some a \<Rightarrow> do { x \<leftarrow> rd store a; y \<leftarrow> cp x; b \<leftarrow> new_cell (put y); ret (Some b) })"

lemma copy_ptr_simps [simp]:
  "copy_ptr store put cp None = ret None"
  "copy_ptr store put cp (Some a) = do { x \<leftarrow> rd store a; y \<leftarrow> cp x; b \<leftarrow> new_cell (put y); ret (Some b) }"
  by (simp_all add: copy_ptr_def)

lemma cell_put:
  assumes "cell_of store put"
  shows "extends h ((put v (hp_next h) h)\<lparr>hp_next := Suc (hp_next h)\<rparr>)" "store ((put v (hp_next h) h)\<lparr>hp_next := Suc (hp_next h)\<rparr>) (hp_next h) = v"
proof -
  let ?h = "put v (hp_next h) h"
  have p: "store ?h (hp_next h) = v" "agree_on (- {hp_next h}) h ?h" using assms by (simp_all add: cell_of_def)
  from p(2) have "agree_on {..<hp_next h} h ?h" by (rule agree_on_mono) auto
  then show "extends h (?h\<lparr>hp_next := Suc (hp_next h)\<rparr>)" by (simp add: extends_def agree_on_def)
  have "agree_on {hp_next h} ?h (?h\<lparr>hp_next := Suc (hp_next h)\<rparr>)" by (simp add: agree_on_def)
  with assms p(1) show "store (?h\<lparr>hp_next := Suc (hp_next h)\<rparr>) (hp_next h) = v" unfolding cell_of_def by metis
qed

lemma copying_ptr:
  assumes cp: "copying den fp cp" and cell: "cell_of store put"
  shows "copying (den_ptr store den) (fp_ptr store fp) (copy_ptr store put cp)"
proof (rule copyingI)
  have st: "store h' a = store h a" if "agree_on (insert a A) h h'" for h h' a A
    using cell that agree_on_mono [OF that, of "{a}"] by (simp add: cell_of_def)
  show "den_ptr store den h' p = den_ptr store den h p \<and> fp_ptr store fp h' p = fp_ptr store fp h p" if "agree_on (fp_ptr store fp h p) h h'" for h h' p
  proof (cases p)
    case (Some a)
    with that have ag: "agree_on (insert a (fp h (store h a))) h h'" by (simp add: fp_ptr_def)
    from denotation.local [OF copyingD(1) [OF cp] agree_on_mono [OF ag]] st [OF ag] Some show ?thesis
      by (auto simp: den_ptr_def fp_ptr_def)
  qed (simp add: den_ptr_def fp_ptr_def)
next
  fix p h q h'
  assume run: "run_state (copy_ptr store put cp p) h = (q, h')" and fp: "fp_ptr store fp h p \<subseteq> {..<hp_next h}"
  show "copied (den_ptr store den) (fp_ptr store fp) h p h' q"
  proof (cases p)
    case None
    then show ?thesis using run by (simp add: copy_ptr_def copied_def den_ptr_def fp_ptr_def)
  next
    case (Some a)
    obtain y h1 where r: "run_state (cp (store h a)) h = (y, h1)" by fastforce
    let ?h = "(put y (hp_next h1) h1)\<lparr>hp_next := Suc (hp_next h1)\<rparr>"
    have q: "q = Some (hp_next h1)" "h' = ?h" using run Some r by (simp_all add: copy_ptr_def)
    have c: "copied den fp h (store h a) h1 y" by (rule copyingD(2) [OF cp r]) (use fp Some in \<open>simp add: fp_ptr_def\<close>)
    then have "copied den fp h (store h a) ?h y" by (rule denotation.copied_after [OF copyingD(1) [OF cp] _ cell_put(1) [OF cell]])
    moreover have "hp_next h \<le> hp_next h1" using c by (simp add: copied_def extends_def)
    ultimately show ?thesis using q Some cell_put(2) [OF cell, of h1 y] by (auto simp: copied_def den_ptr_def fp_ptr_def)
  qed
qed

section \<open>What blueprints mean\<close>

text \<open>
  \<open>meaning\<close> says what the library's structs mean (a value of type \<open>'v\<close>) and which cells they are made of; the library
  is correct if its copies are deep for these. On top of it, the meaning of the repository's own types, nil and empty slices kept apart.
\<close>

record ('d, 'c, 'k, 'm, 'n, 'l, 'v) meaning =
  den_condition :: "('d, 'c, 'k, 'm, 'n, 'l) heap \<Rightarrow> 'd \<Rightarrow> 'v"
  fp_condition :: "('d, 'c, 'k, 'm, 'n, 'l) heap \<Rightarrow> 'd \<Rightarrow> nat set"
  den_schema :: "('d, 'c, 'k, 'm, 'n, 'l) heap \<Rightarrow> 'c \<Rightarrow> 'v"
  fp_schema :: "('d, 'c, 'k, 'm, 'n, 'l) heap \<Rightarrow> 'c \<Rightarrow> nat set"
  den_kro :: "('d, 'c, 'k, 'm, 'n, 'l) heap \<Rightarrow> 'k kro_resource \<Rightarrow> 'v"
  fp_kro :: "('d, 'c, 'k, 'm, 'n, 'l) heap \<Rightarrow> 'k kro_resource \<Rightarrow> nat set"
  den_meta :: "('d, 'c, 'k, 'm, 'n, 'l) heap \<Rightarrow> 'm \<Rightarrow> 'v"
  fp_meta :: "('d, 'c, 'k, 'm, 'n, 'l) heap \<Rightarrow> 'm \<Rightarrow> nat set"
  den_lmeta :: "('d, 'c, 'k, 'm, 'n, 'l) heap \<Rightarrow> 'n \<Rightarrow> 'v"
  fp_lmeta :: "('d, 'c, 'k, 'm, 'n, 'l) heap \<Rightarrow> 'n \<Rightarrow> nat set"

locale deep_library =
  fixes V :: "('d, 'c, 'k, 'm, 'n, 'l, 'v) meaning" and L :: "('d, 'c, 'k, 'm, 'n, 'l) copiers"
  assumes condition: "copying (den_condition V) (fp_condition V) (cp_Condition L)"
    and schema: "copying (den_schema V) (fp_schema V) (cp_Schema L)"
    and kro: "copying (den_kro V) (fp_kro V) (cp_Resource L)"
    and meta: "copying (den_meta V) (fp_meta V) (cp_ObjectMeta L)"
    and lmeta: "copying (den_lmeta V) (fp_lmeta V) (cp_ListMeta L)"

definition den_status :: "('d, 'c, 'k, 'm, 'n, 'l, 'v) meaning \<Rightarrow> ('d, 'c, 'k, 'm, 'n, 'l) heap \<Rightarrow> status_cell \<Rightarrow>
    'v list option \<times> string \<times> string \<times> string" where
  "den_status V h s = (den_ptr hp_conditions (\<lambda>h. map (den_condition V h)) h (sc_Conditions s),
     sc_ExportedAPI s, sc_IdentityHash s, sc_ObservedSpecHash s)"

definition fp_status :: "('d, 'c, 'k, 'm, 'n, 'l, 'v) meaning \<Rightarrow> ('d, 'c, 'k, 'm, 'n, 'l) heap \<Rightarrow> status_cell \<Rightarrow> nat set" where
  "fp_status V h s = fp_ptr hp_conditions (fp_each (fp_condition V)) h (sc_Conditions s)"

definition den_resource :: "('d, 'c, 'k, 'm, 'n, 'l, 'v) meaning \<Rightarrow> ('d, 'c, 'k, 'm, 'n, 'l) heap \<Rightarrow> 'k resource \<Rightarrow> 'v \<times> string" where
  "den_resource V h r = (den_kro V h (res_kro r), res_target r)"

definition fp_resource :: "('d, 'c, 'k, 'm, 'n, 'l, 'v) meaning \<Rightarrow> ('d, 'c, 'k, 'm, 'n, 'l) heap \<Rightarrow> 'k resource \<Rightarrow> nat set" where
  "fp_resource V h r = fp_kro V h (res_kro r)"

type_synonym 'v spec_value = "'v option \<times> ('v \<times> string) option list option"

definition den_spec :: "('d, 'c, 'k, 'm, 'n, 'l, 'v) meaning \<Rightarrow> ('d, 'c, 'k, 'm, 'n, 'l) heap \<Rightarrow> spec_cell \<Rightarrow> 'v spec_value" where
  "den_spec V h s = (den_ptr hp_schemas (den_schema V) h (pc_Schema s),
     den_ptr hp_slots (\<lambda>h. map (den_ptr hp_resources (den_resource V) h)) h (pc_Resources s))"

definition fp_spec :: "('d, 'c, 'k, 'm, 'n, 'l, 'v) meaning \<Rightarrow> ('d, 'c, 'k, 'm, 'n, 'l) heap \<Rightarrow> spec_cell \<Rightarrow> nat set" where
  "fp_spec V h s = fp_ptr hp_schemas (fp_schema V) h (pc_Schema s) \<union>
     fp_ptr hp_slots (fp_each (fp_ptr hp_resources (fp_resource V))) h (pc_Resources s)"

type_synonym 'v rgd_value = "('v \<times> 'v spec_value \<times> 'v list option \<times> string \<times> string \<times> string) \<times> type_meta"

definition den_rgd :: "('d, 'c, 'k, 'm, 'n, 'l, 'v) meaning \<Rightarrow> ('d, 'c, 'k, 'm, 'n, 'l) heap \<Rightarrow> 'm rgd_cell \<Rightarrow> 'v rgd_value" where
  "den_rgd V h r = ((den_meta V h (rc_ObjectMeta r), den_spec V h (rc_Spec r), den_status V h (rc_Status r)), rc_TypeMeta r)"

definition fp_rgd :: "('d, 'c, 'k, 'm, 'n, 'l, 'v) meaning \<Rightarrow> ('d, 'c, 'k, 'm, 'n, 'l) heap \<Rightarrow> 'm rgd_cell \<Rightarrow> nat set" where
  "fp_rgd V h r = fp_meta V h (rc_ObjectMeta r) \<union> (fp_spec V h (rc_Spec r) \<union> fp_status V h (rc_Status r))"

definition den_list :: "('d, 'c, 'k, 'm, 'n, 'l, 'v) meaning \<Rightarrow> ('d, 'c, 'k, 'm, 'n, 'l) heap \<Rightarrow> 'n rgd_list_cell \<Rightarrow>
    ('v \<times> 'v rgd_value list option) \<times> type_meta" where
  "den_list V h l = ((den_lmeta V h (lc_ListMeta l), den_ptr hp_items (\<lambda>h. map (den_rgd V h)) h (lc_Items l)), lc_TypeMeta l)"

definition fp_list :: "('d, 'c, 'k, 'm, 'n, 'l, 'v) meaning \<Rightarrow> ('d, 'c, 'k, 'm, 'n, 'l) heap \<Rightarrow> 'n rgd_list_cell \<Rightarrow> nat set" where
  "fp_list V h l = fp_lmeta V h (lc_ListMeta l) \<union> fp_ptr hp_items (fp_each (fp_rgd V)) h (lc_Items l)"

text \<open>The generated functions are made of these steps.\<close>

lemma copy_conditions_each: "copy_conditions L = copy_each (cp_Condition L)"
proof
  show "copy_conditions L xs = copy_each (cp_Condition L) xs" for xs by (induction xs) simp_all
qed

lemma status_steps:
  "BlueprintStatus_DeepCopyInto L s = do { p \<leftarrow> copy_ptr hp_conditions put_conditions (copy_each (cp_Condition L)) (sc_Conditions s);
     ret (s\<lparr>sc_Conditions := p\<rparr>) }"
proof (cases "sc_Conditions s")
  case None
  then have e: "s\<lparr>sc_Conditions := None\<rparr> = s" by (cases s) simp
  show ?thesis by (simp add: BlueprintStatus_DeepCopyInto_def None) (simp only: e)
qed (simp add: BlueprintStatus_DeepCopyInto_def copy_conditions_each)

lemma copy_resources_each: "copy_resources L = copy_each (copy_ptr hp_resources put_resource (Resource_DeepCopyInto L))"
proof
  show "copy_resources L ps = copy_each (copy_ptr hp_resources put_resource (Resource_DeepCopyInto L)) ps" for ps
  proof (induction ps)
    case (Cons p ps)
    then show ?case by (cases p) (simp_all del: fun_upd_apply)
  qed simp
qed

lemma spec_steps:
  "ResourceGraphDefinitionSpec_DeepCopyInto L = (\<lambda>s. do {
     x \<leftarrow> (do { y \<leftarrow> copy_ptr hp_schemas put_schema (cp_Schema L) (fst (pc_Schema s, pc_Resources s));
                z \<leftarrow> copy_ptr hp_slots put_slots (copy_resources L) (snd (pc_Schema s, pc_Resources s)); ret (y, z) });
     ret (s\<lparr>pc_Schema := fst x, pc_Resources := snd x\<rparr>) })"
  by (intro ext) (simp add: ResourceGraphDefinitionSpec_DeepCopyInto_def copy_schema_def copy_slice_def copy_ptr_def)

lemma rgd_steps:
  "ResourceGraphDefinition_DeepCopyInto L = (\<lambda>r. do {
     x \<leftarrow> (do { y \<leftarrow> cp_ObjectMeta L (fst (rc_ObjectMeta r, rc_Spec r, rc_Status r));
                z \<leftarrow> (do { y \<leftarrow> ResourceGraphDefinitionSpec_DeepCopyInto L (fst (snd (rc_ObjectMeta r, rc_Spec r, rc_Status r)));
                           z \<leftarrow> BlueprintStatus_DeepCopyInto L (snd (snd (rc_ObjectMeta r, rc_Spec r, rc_Status r))); ret (y, z) });
                ret (y, z) });
     ret (r\<lparr>rc_ObjectMeta := fst x, rc_Spec := fst (snd x), rc_Status := snd (snd x)\<rparr>) })"
  by (intro ext) (simp add: ResourceGraphDefinition_DeepCopyInto_def)

lemma copy_items_each: "copy_items L = copy_each (ResourceGraphDefinition_DeepCopyInto L)"
proof
  show "copy_items L rs = copy_each (ResourceGraphDefinition_DeepCopyInto L) rs" for rs by (induction rs) simp_all
qed

lemma list_steps:
  "ResourceGraphDefinitionList_DeepCopyInto L l = do {
     x \<leftarrow> (do { y \<leftarrow> cp_ListMeta L (fst (lc_ListMeta l, lc_Items l));
                z \<leftarrow> copy_ptr hp_items put_items (copy_items L) (snd (lc_ListMeta l, lc_Items l)); ret (y, z) });
     ret (l\<lparr>lc_ListMeta := fst x, lc_Items := snd x\<rparr>) }"
proof (cases "lc_Items l")
  case None
  then have e: "l\<lparr>lc_ListMeta := y, lc_Items := None\<rparr> = l\<lparr>lc_ListMeta := y\<rparr>" for y by (cases l) simp
  show ?thesis by (simp add: ResourceGraphDefinitionList_DeepCopyInto_def None) (simp only: e)
qed (simp add: ResourceGraphDefinitionList_DeepCopyInto_def)

context deep_library
begin

lemma status_copying: "copying (den_status V) (fp_status V) (BlueprintStatus_DeepCopyInto L)"
  using copying_part [OF copying_ptr [OF copying_each [OF condition] cell_of_stores(1)], of sc_Conditions "\<lambda>s p. s\<lparr>sc_Conditions := p\<rparr>"
      "\<lambda>s. (sc_ExportedAPI s, sc_IdentityHash s, sc_ObservedSpecHash s)"]
  by (simp add: status_steps [abs_def] den_status_def [abs_def] fp_status_def [abs_def])

lemma resource_copying: "copying (den_resource V) (fp_resource V) (Resource_DeepCopyInto L)"
  using copying_part [OF kro, of res_kro "\<lambda>r k. r\<lparr>res_kro := k\<rparr>" res_target]
  by (simp add: Resource_DeepCopyInto_def [abs_def] den_resource_def [abs_def] fp_resource_def [abs_def])

lemma spec_copying: "copying (den_spec V) (fp_spec V) (ResourceGraphDefinitionSpec_DeepCopyInto L)"
proof -
  note ptrs = copying_pair [OF copying_ptr [OF schema cell_of_stores(2)]
      copying_ptr [OF copying_each [OF copying_ptr [OF resource_copying cell_of_stores(4)]] cell_of_stores(3)]]
  from copying_image [OF copying_part [OF ptrs, of "\<lambda>s. (pc_Schema s, pc_Resources s)" "\<lambda>s x. s\<lparr>pc_Schema := fst x, pc_Resources := snd x\<rparr>" "\<lambda>s. ()"], of fst]
  show ?thesis unfolding spec_steps copy_resources_each den_spec_def [abs_def] fp_spec_def [abs_def] by simp
qed

lemma rgd_copying: "copying (den_rgd V) (fp_rgd V) (ResourceGraphDefinition_DeepCopyInto L)"
  using copying_part [OF copying_pair [OF meta copying_pair [OF spec_copying status_copying]],
      of "\<lambda>r. (rc_ObjectMeta r, rc_Spec r, rc_Status r)"
        "\<lambda>r x. r\<lparr>rc_ObjectMeta := fst x, rc_Spec := fst (snd x), rc_Status := snd (snd x)\<rparr>" rc_TypeMeta]
  unfolding rgd_steps den_rgd_def [abs_def] fp_rgd_def [abs_def] by simp

lemma list_copying: "copying (den_list V) (fp_list V) (ResourceGraphDefinitionList_DeepCopyInto L)"
  using copying_part [OF copying_pair [OF lmeta copying_ptr [OF copying_each [OF rgd_copying] cell_of_stores(5)]],
      of "\<lambda>l. (lc_ListMeta l, lc_Items l)" "\<lambda>l x. l\<lparr>lc_ListMeta := fst x, lc_Items := snd x\<rparr>" lc_TypeMeta]
  unfolding list_steps [abs_def] copy_items_each den_list_def [abs_def] fp_list_def [abs_def] by simp

text \<open>The copies of the pointers themselves.\<close>

lemma pointer_copying:
  "copying (den_ptr hp_statuses (den_status V)) (fp_ptr hp_statuses (fp_status V)) (BlueprintStatus_DeepCopy L)"
  "copying (den_ptr hp_resources (den_resource V)) (fp_ptr hp_resources (fp_resource V)) (Resource_DeepCopy L)"
  "copying (den_ptr hp_specs (den_spec V)) (fp_ptr hp_specs (fp_spec V)) (ResourceGraphDefinitionSpec_DeepCopy L)"
  "copying (den_ptr hp_rgds (den_rgd V)) (fp_ptr hp_rgds (fp_rgd V)) (ResourceGraphDefinition_DeepCopy L)"
  "copying (den_ptr hp_lists (den_list V)) (fp_ptr hp_lists (fp_list V)) (ResourceGraphDefinitionList_DeepCopy L)"
proof -
  have "BlueprintStatus_DeepCopy L = copy_ptr hp_statuses put_status (BlueprintStatus_DeepCopyInto L)"
    "Resource_DeepCopy L = copy_ptr hp_resources put_resource (Resource_DeepCopyInto L)"
    "ResourceGraphDefinitionSpec_DeepCopy L = copy_ptr hp_specs put_spec (ResourceGraphDefinitionSpec_DeepCopyInto L)"
    "ResourceGraphDefinition_DeepCopy L = copy_ptr hp_rgds put_rgd (ResourceGraphDefinition_DeepCopyInto L)"
    "ResourceGraphDefinitionList_DeepCopy L = copy_ptr hp_lists put_list (ResourceGraphDefinitionList_DeepCopyInto L)"
    by (intro ext, simp add: BlueprintStatus_DeepCopy_def Resource_DeepCopy_def ResourceGraphDefinitionSpec_DeepCopy_def
        ResourceGraphDefinition_DeepCopy_def ResourceGraphDefinitionList_DeepCopy_def copy_ptr_def)+
  then show "copying (den_ptr hp_statuses (den_status V)) (fp_ptr hp_statuses (fp_status V)) (BlueprintStatus_DeepCopy L)"
    "copying (den_ptr hp_resources (den_resource V)) (fp_ptr hp_resources (fp_resource V)) (Resource_DeepCopy L)"
    "copying (den_ptr hp_specs (den_spec V)) (fp_ptr hp_specs (fp_spec V)) (ResourceGraphDefinitionSpec_DeepCopy L)"
    "copying (den_ptr hp_rgds (den_rgd V)) (fp_ptr hp_rgds (fp_rgd V)) (ResourceGraphDefinition_DeepCopy L)"
    "copying (den_ptr hp_lists (den_list V)) (fp_ptr hp_lists (fp_list V)) (ResourceGraphDefinitionList_DeepCopy L)"
    using copying_ptr [OF status_copying cell_of_stores(8)] copying_ptr [OF resource_copying cell_of_stores(4)]
      copying_ptr [OF spec_copying cell_of_stores(9)] copying_ptr [OF rgd_copying cell_of_stores(10)]
      copying_ptr [OF list_copying cell_of_stores(6)] by simp_all
qed

end

text \<open>So the generated copies of blueprints and of their lists satisfy the contract the libraries' copies are asked for.\<close>

sublocale deep_library \<subseteq> rgd: copying "den_ptr hp_rgds (den_rgd V)" "fp_ptr hp_rgds (fp_rgd V)" "ResourceGraphDefinition_DeepCopy L"
  by (rule pointer_copying(4))

sublocale deep_library \<subseteq> rgd_list: copying "den_ptr hp_lists (den_list V)" "fp_ptr hp_lists (fp_list V)" "ResourceGraphDefinitionList_DeepCopy L"
  by (rule pointer_copying(5))

section \<open>Property\<close>

text \<open>
  C40. A deep copy of a blueprint list is equal to the original and shares nothing with it, provided that the libraries' own deep copies of
  metadata, conditions, schemas and resources are deep: the new object denotes the same list (nil and
  empty slices included), all its parts, those inside library structs included, are new cells, whatever is written to cells of the original
  never shows in the copy, and whatever is written to the copy's cells never shows in the original. A nil pointer
  becomes the nil interface.
\<close>

theorem DeepCopyObject_independent:
  assumes "deep_library V L" and "run_state (ResourceGraphDefinitionList_DeepCopyObject L p) h = (obj, h')"
    and "\<forall>a. p = Some a \<longrightarrow> a < hp_next h \<and> fp_list V h (hp_lists h a) \<subseteq> {..<hp_next h}"
  shows "(p = None \<longrightarrow> obj = None \<and> h' = h) \<and>
    (\<forall>a. p = Some a \<longrightarrow> (\<exists>b. obj = Some (RGDListObject b) \<and> hp_next h \<le> b \<and>
       den_list V h' (hp_lists h' b) = den_list V h (hp_lists h a) \<and> fp_list V h' (hp_lists h' b) \<subseteq> {hp_next h..} \<and>
       (\<forall>h2. agree_on {..<hp_next h} h' h2 \<longrightarrow> den_list V h2 (hp_lists h2 a) = den_list V h (hp_lists h a)) \<and>
       (\<forall>h2. agree_on {hp_next h..<hp_next h'} h' h2 \<longrightarrow> den_list V h2 (hp_lists h2 b) = den_list V h (hp_lists h a))))"
proof (cases p)
  case None
  then show ?thesis using assms(2)
    by (auto simp: ResourceGraphDefinitionList_DeepCopyObject_def ResourceGraphDefinitionList_DeepCopy_def)
next
  case (Some a)
  obtain q h1 where q: "run_state (ResourceGraphDefinitionList_DeepCopy L p) h = (q, h1)" by fastforce
  note cp = deep_library.pointer_copying(5) [OF assms(1)]
  have fp: "fp_ptr hp_lists (fp_list V) h p \<subseteq> {..<hp_next h}" using assms(3) Some by (simp add: fp_ptr_def)
  note c = copyingD(2) [OF cp q fp]
  then obtain b where b: "q = Some b" using Some by (cases q) (simp_all add: copied_def den_ptr_def)
  then have obj: "obj = Some (RGDListObject b)" "h' = h1"
    using assms(2) q by (simp_all add: ResourceGraphDefinitionList_DeepCopyObject_def)
  note ind = denotation.copied_independent [OF copyingD(1) [OF cp] c fp]
  have "den_list V h2 (hp_lists h2 a) = den_list V h (hp_lists h a)" if "agree_on {..<hp_next h} h1 h2" for h2
    using ind(1) [OF that] Some by (simp add: den_ptr_def)
  moreover have "den_list V h2 (hp_lists h2 b) = den_list V h (hp_lists h a)" if "agree_on {hp_next h..<hp_next h1} h1 h2" for h2
    using ind(2) [OF that] Some b by (simp add: den_ptr_def)
  moreover have "den_list V h1 (hp_lists h1 b) = den_list V h (hp_lists h a)" "hp_next h \<le> b" "fp_list V h1 (hp_lists h1 b) \<subseteq> {hp_next h..}"
    using c Some b by (auto simp: copied_def den_ptr_def fp_ptr_def)
  ultimately show ?thesis using obj Some by simp
qed

text \<open>
  A library whose metadata, schemas and resources point to a string of their own, and a list with one blueprint whose resources are one
  object and one nil pointer.
\<close>

abbreviation text_of :: "string option \<Rightarrow> string list" where
  "text_of x \<equiv> case x of None \<Rightarrow> [] | Some s \<Rightarrow> [s]"

definition demo_meaning :: "(string, nat option, nat option, nat option, string, string, string list) meaning" where
  "demo_meaning =
     \<lparr>den_condition = (\<lambda>h x. [x]), fp_condition = (\<lambda>h x. {}),
      den_schema = (\<lambda>h x. text_of (den_ptr hp_lib (\<lambda>h x. x) h x)), fp_schema = fp_ptr hp_lib (\<lambda>h x. {}),
      den_kro = (\<lambda>h x. (\<lambda>(s, i). i # text_of s) (den_ptr hp_lib (\<lambda>h x. x) h (kr_fields x), kr_id x)),
      fp_kro = (\<lambda>h x. fp_ptr hp_lib (\<lambda>h x. {}) h (kr_fields x)),
      den_meta = (\<lambda>h x. text_of (den_ptr hp_lib (\<lambda>h x. x) h x)), fp_meta = fp_ptr hp_lib (\<lambda>h x. {}),
      den_lmeta = (\<lambda>h x. [x]), fp_lmeta = (\<lambda>h x. {})\<rparr>"

definition demo_copiers :: "(string, nat option, nat option, nat option, string, string) copiers" where
  "demo_copiers =
     \<lparr>cp_Condition = ret, cp_Schema = copy_ptr hp_lib put_lib ret,
      cp_Resource = (\<lambda>r. do { y \<leftarrow> copy_ptr hp_lib put_lib ret (kr_fields r); ret (r\<lparr>kr_fields := y\<rparr>) }),
      cp_ObjectMeta = copy_ptr hp_lib put_lib ret, cp_ListMeta = ret\<rparr>"

interpretation demo_library: deep_library demo_meaning demo_copiers
proof (rule deep_library.intro)
  note lib = copying_ptr [OF copying_plain cell_of_stores(7)]
  show "copying (den_condition demo_meaning) (fp_condition demo_meaning) (cp_Condition demo_copiers)"
    "copying (den_lmeta demo_meaning) (fp_lmeta demo_meaning) (cp_ListMeta demo_copiers)"
    using copying_image [OF copying_plain, of "\<lambda>x. [x]"] by (simp_all add: demo_meaning_def demo_copiers_def)
  show "copying (den_schema demo_meaning) (fp_schema demo_meaning) (cp_Schema demo_copiers)"
    "copying (den_meta demo_meaning) (fp_meta demo_meaning) (cp_ObjectMeta demo_copiers)"
    using copying_image [OF lib, of text_of] by (simp_all add: demo_meaning_def demo_copiers_def)
  show "copying (den_kro demo_meaning) (fp_kro demo_meaning) (cp_Resource demo_copiers)"
    using copying_image [OF copying_part [OF lib, of kr_fields "\<lambda>r y. r\<lparr>kr_fields := y\<rparr>" kr_id], of "\<lambda>(s, i). i # text_of s"]
    by (simp add: demo_meaning_def demo_copiers_def)
qed

definition demo_item :: "nat option rgd_cell" where
  "demo_item = \<lparr>rc_TypeMeta = \<lparr>tm_Kind = ''ResourceGraphDefinition'', tm_APIVersion = ''krop.opendefense.cloud/v1alpha1''\<rparr>,
     rc_ObjectMeta = Some 5, rc_Spec = \<lparr>pc_Schema = Some 2, pc_Resources = Some 3\<rparr>,
     rc_Status = \<lparr>sc_ExportedAPI = ''ws.e.org'', sc_IdentityHash = '''', sc_ObservedSpecHash = '''', sc_Conditions = None\<rparr>\<rparr>"

definition demo_heap :: "(string, nat option, nat option, nat option, string, string) heap" where
  "demo_heap = \<lparr>hp_conditions = (\<lambda>_. []), hp_schemas = (\<lambda>_. Some 6), hp_slots = (\<lambda>_. [Some 4, None]),
     hp_resources = (\<lambda>_. \<lparr>res_kro = \<lparr>kr_id = ''config'', kr_fields = Some 7\<rparr>, res_target = ''provider''\<rparr>),
     hp_items = (\<lambda>_. [demo_item]), hp_statuses = (\<lambda>_. rc_Status demo_item), hp_specs = (\<lambda>_. rc_Spec demo_item),
     hp_rgds = (\<lambda>_. demo_item),
     hp_lists = (\<lambda>_. \<lparr>lc_TypeMeta = \<lparr>tm_Kind = ''ResourceGraphDefinitionList'', tm_APIVersion = ''krop.opendefense.cloud/v1alpha1''\<rparr>,
       lc_ListMeta = ''1'', lc_Items = Some 1\<rparr>),
     hp_lib = (\<lambda>_. ''labels''), hp_next = 8\<rparr>"

theorem DeepCopyObject_independent_witness:
  "\<exists>b. fst (run_state (ResourceGraphDefinitionList_DeepCopyObject demo_copiers (Some 0)) demo_heap) = Some (RGDListObject b) \<and>
     (let h' = snd (run_state (ResourceGraphDefinitionList_DeepCopyObject demo_copiers (Some 0)) demo_heap) in
      den_list demo_meaning h' (hp_lists h' b) = den_list demo_meaning demo_heap (hp_lists demo_heap 0) \<and>
      fp_list demo_meaning h' (hp_lists h' b) \<subseteq> {8..})"
proof -
  obtain obj h' where run: "run_state (ResourceGraphDefinitionList_DeepCopyObject demo_copiers (Some 0)) demo_heap = (obj, h')"
    by fastforce
  have "fp_list demo_meaning demo_heap (hp_lists demo_heap 0) \<subseteq> {..<hp_next demo_heap}" "hp_next demo_heap = 8"
    by (simp_all add: fp_list_def fp_ptr_def fp_rgd_def fp_spec_def fp_status_def fp_resource_def demo_heap_def demo_item_def demo_meaning_def)
  then show ?thesis using DeepCopyObject_independent [OF demo_library.deep_library_axioms run] run by (auto simp: Let_def)
qed

end
