(* ===== verification/Conditions.thy ===== *)
theory Conditions
  imports InstanceGC
begin

text \<open>
  What the conditions of an instance report at the end of a pass: \<^verbatim>\<open>readConditions\<close>, \<^verbatim>\<open>applyResultConditions\<close> and
  \<^verbatim>\<open>writeConditions\<close> of \<^verbatim>\<open>src/internal/controller/reconciler.go\<close> as \<^verbatim>\<open>Reconcile\<close> uses them. The locale \<open>condition_lib\<close> states what they
  rely on of \<^verbatim>\<open>meta.SetStatusCondition\<close> and of the conversion of conditions to and from unstructured content, which keeps whole
  seconds of the transition time. \<open>expressible\<close> are the conditions whose time the format can express.
\<close>

definition cond_lookup :: "condition list \<Rightarrow> string \<Rightarrow> condition option" where
  "cond_lookup cs ty = find (\<lambda>d. cond_type d = ty) cs"

text \<open>Equal but for the transition time, which the library maintains.\<close>

definition same_report :: "condition \<Rightarrow> condition \<Rightarrow> bool" where
  "same_report d c \<longleftrightarrow> cond_type d = cond_type c \<and> cond_status d = cond_status c \<and> cond_reason d = cond_reason c \<and>
     cond_message d = cond_message c \<and> cond_observedGeneration d = cond_observedGeneration c"

text \<open>What serialising does to a condition.\<close>

definition whole_seconds :: "condition \<Rightarrow> condition" where
  "whole_seconds c = c\<lparr>cond_lastTransitionTime := cond_lastTransitionTime c - cond_lastTransitionTime c mod Second\<rparr>"

lemma whole_seconds_report [simp]:
  "cond_type (whole_seconds c) = cond_type c" "cond_status (whole_seconds c) = cond_status c"
  "cond_observedGeneration (whole_seconds c) = cond_observedGeneration c"
  by (simp_all add: whole_seconds_def)

lemma lookup_whole_seconds: "cond_lookup (map whole_seconds cs) ty = map_option whole_seconds (cond_lookup cs ty)"
  by (induction cs) (simp_all add: cond_lookup_def)

text \<open>
  \<open>reports cs gen res cs'\<close>: the conditions \<open>cs'\<close> are \<open>cs\<close>, serialised, with the result \<open>res\<close> of a pass over generation \<open>gen\<close>.
\<close>

definition reports :: "condition list \<Rightarrow> int \<Rightarrow> result \<Rightarrow> condition list \<Rightarrow> bool" where
  "reports cs gen res cs' \<longleftrightarrow>
     (\<exists>d. cond_lookup cs' ''Ready'' = Some d \<and> cond_status d = (if Ready res then ''True'' else ''False'') \<and> cond_observedGeneration d = gen) \<and>
     (\<exists>d. cond_lookup cs' ''Progressing'' = Some d \<and> cond_status d = (if Ready res then ''False'' else ''True'') \<and>
        cond_observedGeneration d = gen) \<and>
     (\<forall>ty. ty \<notin> {''Ready'', ''Progressing''} \<longrightarrow> cond_lookup cs' ty = map_option whole_seconds (cond_lookup cs ty))"

locale condition_lib =
  fixes env :: "('rt, 'w) env" and expressible :: "condition \<Rightarrow> bool"
  assumes set_own: "run_state (env_SetStatusCondition env cs c) w = (cs', w') \<Longrightarrow>
      \<exists>d. cond_lookup cs' (cond_type c) = Some d \<and> same_report d c"
    and set_other: "run_state (env_SetStatusCondition env cs c) w = (cs', w') \<Longrightarrow> ty \<noteq> cond_type c \<Longrightarrow>
      cond_lookup cs' ty = cond_lookup cs ty"
    and set_expressible: "run_state (env_SetStatusCondition env cs c) w = (cs', w') \<Longrightarrow> list_all expressible cs \<Longrightarrow>
      IsZero (cond_lastTransitionTime c) \<Longrightarrow> list_all expressible cs'"
    and decode_expressible: "env_decode_condition env m = Inr c \<Longrightarrow> expressible c"
    and codec: "expressible c \<Longrightarrow>
      \<exists>m. env_encode_condition env c = Inr (JObj m) \<and> env_decode_condition env m = Inr (whole_seconds c)"
begin

lemma encode_decode:
  assumes "list_all expressible cs"
  obtains raw where "encode_conditions env cs = Inr raw" "decode_conditions env raw = map whole_seconds cs"
proof -
  have "\<exists>raw. encode_conditions env cs = Inr raw \<and> decode_conditions env raw = map whole_seconds cs"
    using assms
  proof (induction cs)
    case (Cons c cs)
    then obtain m raw where "env_encode_condition env c = Inr (JObj m)" "env_decode_condition env m = Inr (whole_seconds c)"
      "encode_conditions env cs = Inr raw" "decode_conditions env raw = map whole_seconds cs"
      using codec [of c] by auto
    then show ?case by simp
  qed simp
  then show ?thesis using that by blast
qed

lemma read_expressible: "list_all expressible (readConditions env inst)"
proof -
  have "list_all expressible (decode_conditions env raw)" for raw
    by (induction raw) (auto split: json.splits sum.splits dest: decode_expressible)
  then show ?thesis by (auto simp: readConditions_def split: option.splits)
qed

lemma write_read:
  assumes "list_all expressible cs" and "o_content inst ''status'' \<in> insert None (Some ` range JObj)"
  obtains inst' where "writeConditions env inst cs = Inr inst'" "okey inst' = okey inst"
    "readConditions env inst' = map whole_seconds cs"
proof -
  obtain raw where "encode_conditions env cs = Inr raw" "decode_conditions env raw = map whole_seconds cs"
    by (rule encode_decode [OF assms(1)])
  with assms(2) show ?thesis using that
    by (auto simp: writeConditions_def readConditions_def nested_conditions_def nested_map_def set_nested_map_def okey_def)
qed

lemma apply_result:
  assumes "run_state (applyResultConditions env cs res gen) w = (cs', w')"
  shows "\<exists>d. cond_lookup cs' conditionReady = Some d \<and> same_report d (ready_condition res gen)"
    and "\<exists>d. cond_lookup cs' conditionProgressing = Some d \<and> same_report d (progressing_condition res gen)"
    and "ty \<notin> {conditionReady, conditionProgressing} \<Longrightarrow> cond_lookup cs' ty = cond_lookup cs ty"
    and "list_all expressible cs \<Longrightarrow> list_all expressible cs'"
proof -
  obtain cs1 w1 where s1: "run_state (env_SetStatusCondition env cs (ready_condition res gen)) w = (cs1, w1)" by fastforce
  with assms have s2: "run_state (env_SetStatusCondition env cs1 (progressing_condition res gen)) w1 = (cs', w')"
    by (simp add: applyResultConditions_def)
  have ty: "cond_type (ready_condition res gen) = conditionReady" "cond_type (progressing_condition res gen) = conditionProgressing"
    "conditionReady \<noteq> conditionProgressing" by (simp_all add: ready_condition_def progressing_condition_def condition_names)
  have unset: "IsZero (cond_lastTransitionTime (ready_condition res gen))" "IsZero (cond_lastTransitionTime (progressing_condition res gen))"
    by (simp_all add: ready_condition_def progressing_condition_def IsZero_def)
  show "\<exists>d. cond_lookup cs' conditionReady = Some d \<and> same_report d (ready_condition res gen)"
    using set_own [OF s1] set_other [OF s2, of conditionReady] ty by simp
  show "\<exists>d. cond_lookup cs' conditionProgressing = Some d \<and> same_report d (progressing_condition res gen)"
    using set_own [OF s2] ty by simp
  show "ty \<notin> {conditionReady, conditionProgressing} \<Longrightarrow> cond_lookup cs' ty = cond_lookup cs ty"
    using set_other [OF s1, of ty] set_other [OF s2, of ty] ty by simp
  show "list_all expressible cs \<Longrightarrow> list_all expressible cs'"
    using set_expressible [OF s1 _ unset(1)] set_expressible [OF s2 _ unset(2)] by blast
qed

lemma finish_reports:
  assumes run: "run_state (finish_pass env cc inst rt rt1 res0) w = ((res, err), w')"
    and st: "o_content inst ''status'' \<in> insert None (Some ` range JObj)"
  obtains inst' w1 out where "run_state (c_status_update cc inst') w1 = (out, w')" "okey inst' = okey inst"
    "reports (readConditions env inst) (o_generation inst) res (readConditions env inst')"
proof -
  let ?i = "project_status rt rt1 inst"
  obtain cs w1 where a: "run_state (applyResultConditions env (readConditions env inst) (res0\<lparr>Requeue := True\<rparr>) (o_generation ?i)) w = (cs, w1)"
    by fastforce
  have gen: "o_generation ?i = o_generation inst" and key: "okey ?i = okey inst"
    by (auto simp: project_status_def set_nested_map_def okey_def split: sum.splits option.splits)
  have "o_content ?i ''status'' \<in> insert None (Some ` range JObj)"
    using st by (auto simp: project_status_def set_nested_map_def split: sum.splits option.splits)
  then obtain inst' where wr: "writeConditions env ?i cs = Inr inst'" "okey inst' = okey ?i" "readConditions env inst' = map whole_seconds cs"
    by (rule write_read [OF apply_result(4) [OF a read_expressible]])
  obtain out w2 where u: "run_state (c_status_update cc inst') w1 = (out, w2)" by fastforce
  with run a wr(1) have res: "res = res0\<lparr>Requeue := True\<rparr>" and "w2 = w'" by (simp_all add: finish_pass_def Let_def)
  moreover have "reports (readConditions env inst) (o_generation inst) res (readConditions env inst')"
    unfolding reports_def wr(3) lookup_whole_seconds
  proof (intro conjI allI impI)
    from apply_result(1) [OF a] obtain d where "cond_lookup cs ''Ready'' = Some d" "same_report d (ready_condition res (o_generation inst))"
      by (auto simp: condition_names res gen)
    then show "\<exists>d. map_option whole_seconds (cond_lookup cs ''Ready'') = Some d \<and>
        cond_status d = (if Ready res then ''True'' else ''False'') \<and> cond_observedGeneration d = o_generation inst"
      by (simp add: same_report_def ready_condition_def)
    from apply_result(2) [OF a] obtain d where "cond_lookup cs ''Progressing'' = Some d" "same_report d (progressing_condition res (o_generation inst))"
      by (auto simp: condition_names res gen)
    then show "\<exists>d. map_option whole_seconds (cond_lookup cs ''Progressing'') = Some d \<and>
        cond_status d = (if Ready res then ''False'' else ''True'') \<and> cond_observedGeneration d = o_generation inst"
      by (simp add: same_report_def progressing_condition_def)
  qed (use apply_result(3) [OF a] in \<open>simp add: condition_names\<close>)
  ultimately show ?thesis using that u wr(2) key by simp
qed

end

section \<open>An instance\<close>

lemma lookup_put_condition:
  "cond_lookup (put_condition cs c) ty = (if ty = cond_type c then Some c else cond_lookup cs ty)"
  by (induction cs) (auto simp: cond_lookup_def put_condition.simps)

lemma put_condition_all: "list_all P cs \<Longrightarrow> P c \<Longrightarrow> list_all P (put_condition cs c)"
  by (induction cs) auto

interpretation mem_conditions: condition_lib "mem_env mk now" "\<lambda>c. time_ok (cond_lastTransitionTime c)" for mk now
proof
  show "\<exists>d. cond_lookup cs' (cond_type c) = Some d \<and> same_report d c"
    if "run_state (env_SetStatusCondition (mem_env mk now) cs c) w = (cs', w')" for cs c w cs' w'
    using that by (auto simp: lookup_put_condition same_report_def)
  show "cond_lookup cs' ty = cond_lookup cs ty"
    if "run_state (env_SetStatusCondition (mem_env mk now) cs c) w = (cs', w')" and "ty \<noteq> cond_type c" for cs c w cs' w' ty
    using that by (auto simp: lookup_put_condition)
  show "list_all (\<lambda>c. time_ok (cond_lastTransitionTime c)) cs'"
    if "run_state (env_SetStatusCondition (mem_env mk now) cs c) w = (cs', w')" and "list_all (\<lambda>c. time_ok (cond_lastTransitionTime c)) cs"
      and "IsZero (cond_lastTransitionTime c)" for cs c w cs' w'
    using that time_ok_0 by (auto simp: IsZero_def intro: put_condition_all)
  show "time_ok (cond_lastTransitionTime c)" if "env_decode_condition (mem_env mk now) m = Inr c" for m c
    using that by (auto simp: mem_env_def decode_condition_def split: sum.splits if_splits)
  show "\<exists>m. env_encode_condition (mem_env mk now) c = Inr (JObj m) \<and> env_decode_condition (mem_env mk now) m = Inr (whole_seconds c)"
    if "time_ok (cond_lastTransitionTime c)" for c
    using time_ok_whole [OF that] by (simp add: mem_env_def condition_json_def decode_condition_def whole_seconds_def)
qed

section \<open>Property\<close>

text \<open>
  C35. The status of an instance reports the result of its pass. An error-free pass over a live instance with the finalizer ends with a status
  update of the instance (whose own failure it ignores) in which the Ready condition has status True exactly if the pass was ready and Progressing exactly if it was not, both for
  the generation the pass saw, and in which the conditions of all other types, which other controllers may own, are the ones the instance had before
  its status was projected, with times in whole seconds. (The stored status is absent or an object.)
\<close>

theorem conditions_report:
  assumes "condition_lib env expressible"
    and "run_state (c_get cc (rc_InstanceGVK r) ns nm) w = (Inr inst, w0)"
    and "\<not> terminating inst" and "Finalizer \<in> set (o_finalizers inst)"
    and "o_content inst ''status'' \<in> insert None (Some ` range JObj)"
    and "run_state (Reconcile env r cc cn ns nm) w = ((res, None), w')"
  shows "\<exists>inst' w1 out. run_state (c_status_update cc inst') w1 = (out, w') \<and> okey inst' = okey inst \<and>
    reports (readConditions env inst) (o_generation inst) res (readConditions env inst')"
proof -
  have live: "o_deletionTimestamp inst = None" using assms(3) by (simp add: terminating_def)
  then have "run_state (reconcile_apply env r cc cn inst) w0 = ((res, None), w')"
    using Reconcile_found [OF assms(6,2)] assms(4) by simp
  then obtain rt rt1 res0 w3 where "run_state (finish_pass env cc inst rt rt1 res0) w3 = ((res, None), w')"
    by (rule reconcile_apply_ok [OF _ live]) blast
  from condition_lib.finish_reports [OF assms(1) this assms(5)] show ?thesis by blast
qed

theorem conditions_report_witness:
  "\<exists>inst' w1 out. run_state (mem_status_update TargetConsumer inst') w1 = (out, demo_after pending_runtime None jobGVK) \<and>
     (\<exists>d. cond_lookup (readConditions (mem_env pending_runtime 0) inst') ''Ready'' = Some d \<and> cond_status d = ''False'')"
proof -
  have get: "run_state (c_get (mem_client TargetConsumer) (rc_InstanceGVK (demo_reconciler jobGVK)) ''default'' ''w1'') (demo_world None jobGVK) =
      (Inr (demo_instance None), demo_world None jobGVK)" by (simp add: demo_get)
  have "o_content (demo_instance None) ''status'' = None" by (simp add: demo_instance_def new_obj_def)
  then show ?thesis
    using conditions_report [OF mem_conditions.condition_lib_axioms get _ _ _ pending_run] by (auto simp: reports_def)
qed

end
