(* ===== verification/Spec2Isabelle.thy ===== *)
theory Spec2Isabelle
  imports Demo Run Heartbeat DeepCopy Conditions
begin

text \<open>
  A verification of the krop controller.

  \<^bold>\<open>The program.\<close> The controller turns provider-authored blueprints (kro ResourceGraphDefinitions with a target
  per resource) into kcp APIs and serves the instances consumers create. Its parts:

    \<^item> the \<^emph>\<open>registrar\<close> (\<^verbatim>\<open>internal/registrar\<close>) reconciles a blueprint into an APIResourceSchema and an APIExport with permission
      claims, caches the compiled graph, and notifies the rest of the process;
    \<^item> the \<^emph>\<open>supervisor\<close> (\<^verbatim>\<open>internal/supervisor\<close>) runs one instance manager per published export;
    \<^item> the \<^emph>\<open>instance reconciler\<close> (\<^verbatim>\<open>internal/controller/reconciler.go\<close>) drives one instance: it runs the \<^emph>\<open>engine\<close>
      (\<^verbatim>\<open>internal/engine\<close>) over the blueprint's nodes, which applies children to the consumer, provider and host planes through
      chains of appliers, keeps a liveness record, prunes children that are no longer wanted and reports status; on deletion it
      collects the children of all planes before it releases its finalizer;
    \<^item> the \<^emph>\<open>sweeper\<close> (\<^verbatim>\<open>internal/controller/sweeper.go\<close>) reclaims the children of instances whose liveness record went stale;
    \<^item> \<^emph>\<open>main\<close> (\<^verbatim>\<open>cmd/controller/main.go\<close>) wires them: the registrar's callbacks update the registry of served blueprints and start
      or stop managers; a manager reads the registry and runs the instance reconciler. \<^verbatim>\<open>run\<close> builds all of it and starts the
      provider manager, which drives the registrar and the sweeper.

  \<^bold>\<open>Modelling.\<close> Code that calls API servers, kro's runtime or the clock is a program of the state monad over an unknown world;
  pure code is a function; a Go error is a value of \<open>error\<close> with its chain of wrappers; a run-time panic is a value of its own.
  Clients, kro's runtime and builder, JSON encoding, condition helpers, managers and the order in which Go iterates
  over maps are parameters; what the code relies on of them are the assumptions of locales, each of them interpreted on an executable
  instance. SHA-256 and RFC 3339 times, which names and staleness rest on, are modelled in full. Log lines are left out, except
  where the supervisor decides whether to log.

  \<^bold>\<open>Theories.\<close>

    \<^item> \<open>Prelude\<close>: a small program logic for the state monad (\<open>wp\<close>, \<open>keeps\<close>) with its rule collections.
      \<open>GoStrings\<close>, \<open>GoTime\<close>, \<open>Sha256\<close>: what the code uses of Go's standard library. \<open>Digests\<close>: SHA-256
      digests, evaluated: two published ones and those of messages whose readable names would collide.
    \<^item> \<open>Kube\<close>: objects, clients, the contract \<open>api_plane\<close> of an API server and the in-memory server \<open>mem_client\<close>.
    \<^item> \<open>Routing\<close> (\<^verbatim>\<open>route.go\<close>, \<^verbatim>\<open>routing.go\<close>): targets, their validation, the conversion \<open>ToKro\<close>.
      \<open>Naming\<close> (\<^verbatim>\<open>naming.go\<close>, \<^verbatim>\<open>labels.go\<close>, \<^verbatim>\<open>workspace.go\<close>): labels and derived names; they are valid DNS names of bounded length, and two
      different objects share one exactly if the messages that are hashed collide in the bits the name keeps.
    \<^item> \<open>Appliers\<close> (\<^verbatim>\<open>apply.go\<close>, \<^verbatim>\<open>reader.go\<close>) and \<open>Engine\<close> (\<^verbatim>\<open>engine.go\<close>, \<^verbatim>\<open>status.go\<close>): the decorators and the node loop. The locale
      \<open>engine_run\<close> lifts properties of appliers to the loop, \<open>engine_cover\<close> shows that a complete pass applied every wanted object.
    \<^item> \<open>GC\<close>, \<open>Reconciler\<close> (\<^verbatim>\<open>reconciler.go\<close>): collection loops and the whole handler. \<open>Planes\<close>: the locale \<open>planes\<close> with three API
      servers that do not share objects. \<open>InstanceGC\<close>, \<open>Converge\<close>: deletion, pruning, convergence, the liveness record.
      \<open>Conditions\<close>: what the status update of a pass reports; the locale \<open>condition_lib\<close> asks of the condition helpers that they encode
      and decode with times in whole seconds. \<open>Fixture\<close>: a blueprint with one template per target on in-memory planes.
    \<^item> \<open>Sweeper\<close> (\<^verbatim>\<open>sweeper.go\<close>): \<open>Sweep\<close> and the ticking \<open>Start\<close>; selectivity, reclamation, grace period and staleness.
      \<open>Heartbeat\<close>: reconcilers, sweeper and other writers interleaved as a step relation. The locales \<open>record_plane\<close>, \<open>record_planes\<close> and
      \<open>sweep_store\<close> follow what each does to the liveness records; a live instance with a recent successful pass keeps all its objects, one whose
      passes fail loses them.
    \<^item> \<open>Claims\<close> (\<^verbatim>\<open>claims.go\<close>): derivation and merging of permission claims against a set-based specification.
      \<open>Cache\<close> (\<^verbatim>\<open>cache.go\<close>, \<^verbatim>\<open>hash.go\<close>): the contract \<open>slot_store\<close>, provided by the graph cache and by the registry of \<open>Wiring\<close>.
      \<open>Publish\<close> (\<^verbatim>\<open>publish.go\<close>): typed objects and the contract \<open>kcp_plane\<close> of the provider workspace. \<open>Registrar\<close>
      (\<^verbatim>\<open>registrar.go\<close>): the whole handler, with its callbacks as parameters. \<open>RegistrarRun\<close>: what a pass does, in the locale
      \<open>registrar_run\<close> that extends \<open>kcp_plane\<close>. \<open>Workspace\<close>: an in-memory provider workspace.
    \<^item> \<open>Supervisor\<close> (\<^verbatim>\<open>supervisor.go\<close>): the methods and their interleavings with returning managers as a step relation, its invariant,
      the refinement to a set of served exports, and that at rest the goroutines left are exactly the tracked managers. \<open>Kcp\<close> (\<^verbatim>\<open>endpointslice.go\<close> and helpers of main).
    \<^item> \<open>Wiring\<close> (\<^verbatim>\<open>main.go\<close>, \<^verbatim>\<open>graphsource.go\<close>): constants, registry, callbacks, the start function and its reconcile function, host
      client and sweeper settings; timing of heartbeat and sweeper, and what managers serve if publications are announced
      truthfully. \<open>Serving\<close>: the registrar with these callbacks, the registry and the supervisor composed; the locale \<open>serving\<close>
      extends \<open>registrar_run\<close> by the wiring inside the world and shows that what is published is served and what is withdrawn is not.
      \<open>Freshness\<close>: the registrar's passes interleaved with edits, managers and restarts; the locale \<open>fresh\<close> shows that the registrar's
      comparison of hashes is truthful as long as no status update is lost and the discovery data the builder compiles against stay the same. \<open>Run\<close> (\<^verbatim>\<open>main.go\<close>, \<^verbatim>\<open>groupversion_info.go\<close>):
      flag defaults, type registration, \<^verbatim>\<open>run\<close> and \<^verbatim>\<open>main\<close>; nothing starts before everything is wired. \<open>Demo\<close>: registrar,
      callbacks and supervisor composed on the in-memory workspace, as witness of the registrar's theorems, with a history
      that ends with a fresh manager and, after a lost status update, one that ends with a stale one.
    \<^item> \<open>DeepCopy\<close> (\<^verbatim>\<open>zz_generated.deepcopy.go\<close>): the generated copies on an explicit memory, in which library structs own cells too. The
      locale \<open>denotation\<close> is the contract of a kind of object (meaning and addresses depend on its own cells only), \<open>copying\<close> that of a deep copy
      (the same meaning in new cells); \<open>deep_library\<close> assumes it of the libraries' copies and shows it for the generated ones.

  \<^bold>\<open>Bounds.\<close> There is no fuel: every loop of the code that is modelled runs over a finite list, and the functions are total. The sweeper's endless
  loop is a fold over a given sequence of ticks; polling is a library parameter. Instants are taken from year 1 to 9999, the range of
  the time format, and durations within 64 bits where staleness is decided.

  \<^bold>\<open>Reading the results.\<close> Theorems about API servers hold for every client that satisfies the stated laws, including one whose calls fail
  at any point. A pass is taken to be the only writer of the objects it names while it runs; concurrent writers appear between passes
  (the sweeper's ticks, the steps of \<open>Heartbeat\<close>, the edits in \<open>Demo\<close>) and as failing calls. The map order of Go is a parameter, so results hold for every order.
  A callback of the registrar into registry and supervisor is one step of \<open>Wiring\<close>, which says why its three locked sections may be taken together;
  in \<open>Supervisor\<close> they are separate steps.

  \<^bold>\<open>Not modelled.\<close> All Go code of the controller is modelled, down to its calls into libraries: flag parsing, logging,
  signal handling, scheme contents, leader election, health endpoints, YAML decoding and the managers' work queues are on the far side of these
  calls. Log lines have no effect on the rest and are left out. kro's compiler and runtime, kcp and controller-runtime are
  other programs; tests, charts and examples are not part of the controller.
\<close>

end
